(* ===== verification/Prelude.thy ===== *)
theory Prelude
  imports Main "HOL-Library.Word" "HOL-Library.Char_ord" "HOL-Library.List_Lexorder"
    "HOL-Library.Product_Lexorder" "HOL-Library.Code_Target_Nat"
begin

text \<open>
  The shared vocabulary of the development: results and effects, the fragment of Rust's standard
  library the sources use on strings, bytes and integers, and the proof automation for them.

  A Rust \<open>str\<close> is modelled by its UTF-8 octets, one \<open>char\<close> of HOL per octet, so \<open>length\<close> is
  Rust's \<open>len\<close> and the order of \<open>string\<close> is the bytewise order of \<open>str\<close>. \<open>Vec<u8>\<close> is a list of
  8-bit words. \<open>Result<T, String>\<close> is a sum whose left side is the error message.
\<close>

section \<open>Types\<close>

type_synonym u8 = "8 word"
type_synonym u32 = "32 word"
type_synonym u64 = "64 word"
type_synonym bytes = "8 word list"
type_synonym 'a result = "string + 'a"
type_synonym ('w, 'e, 'a) eff = "'w \<Rightarrow> ('e + 'a) \<times> 'w"
type_synonym ('w, 'a) io = "('w, string, 'a) eff"

named_theorems res_simps \<open>inversion of successful results and effects\<close>
named_theorems str_simps \<open>computing with strings\<close>

section \<open>Results\<close>

definition bindR :: "'e + 'a \<Rightarrow> ('a \<Rightarrow> 'e + 'b) \<Rightarrow> 'e + 'b" where
  "bindR r f = (case r of Inl e \<Rightarrow> Inl e | Inr x \<Rightarrow> f x)"

definition fail_if :: "bool \<Rightarrow> 'e \<Rightarrow> 'e + unit" where
  "fail_if b m = (if b then Inl m else Inr ())"

definition ok_or :: "'a option \<Rightarrow> 'e \<Rightarrow> 'e + 'a" where
  "ok_or o' m = (case o' of None \<Rightarrow> Inl m | Some x \<Rightarrow> Inr x)"

definition map_err :: "('e \<Rightarrow> 'f) \<Rightarrow> 'e + 'a \<Rightarrow> 'f + 'a" where
  "map_err f r = (case r of Inl e \<Rightarrow> Inl (f e) | Inr x \<Rightarrow> Inr x)"

definition is_ok :: "'e + 'a \<Rightarrow> bool" where
  "is_ok r = (case r of Inl _ \<Rightarrow> False | Inr _ \<Rightarrow> True)"

primrec forR :: "'a list \<Rightarrow> ('a \<Rightarrow> 'e + unit) \<Rightarrow> 'e + unit" where
  "forR [] f = Inr ()"
| "forR (x # xs) f = bindR (f x) (\<lambda>_. forR xs f)"

lemma bindR_simps [simp]:
  "bindR (Inl e) f = Inl e"
  "bindR (Inr x) f = f x"
  by (simp_all add: bindR_def)

lemma bindR_Inr [res_simps]: "bindR r f = Inr y \<longleftrightarrow> (\<exists>x. r = Inr x \<and> f x = Inr y)"
  by (cases r) simp_all

lemma bindR_cong [fundef_cong]:
  "r = r' \<Longrightarrow> (\<And>x. r' = Inr x \<Longrightarrow> f x = g x) \<Longrightarrow> bindR r f = bindR r' g"
  by (cases r') simp_all

lemma forR_Inr [res_simps]: "forR xs f = Inr u \<longleftrightarrow> list_all (\<lambda>x. f x = Inr ()) xs"
  by (induction xs) (auto simp: bindR_Inr)

lemma fail_if_Inr [res_simps]: "fail_if b m = Inr u \<longleftrightarrow> \<not> b"
  by (simp add: fail_if_def)

lemma fail_if_simps [simp]:
  "fail_if True m = Inl m"
  "fail_if False m = Inr ()"
  by (simp_all add: fail_if_def)

lemma ok_or_Inr [res_simps]: "ok_or o' m = Inr x \<longleftrightarrow> o' = Some x"
  by (cases o') (simp_all add: ok_or_def)

lemma ok_or_simps [simp]:
  "ok_or None m = Inl m"
  "ok_or (Some x) m = Inr x"
  by (simp_all add: ok_or_def)

lemma map_err_Inr [res_simps]: "map_err f r = Inr x \<longleftrightarrow> r = Inr x"
  by (cases r) (simp_all add: map_err_def)

lemma map_err_simps [simp]:
  "map_err f (Inl e) = Inl (f e)"
  "map_err f (Inr x) = Inr x"
  by (simp_all add: map_err_def)

lemma is_ok_iff [res_simps]: "is_ok r \<longleftrightarrow> (\<exists>x. r = Inr x)"
  by (cases r) (simp_all add: is_ok_def)

lemma is_ok_simps [simp]:
  "is_ok (Inl e) = False"
  "is_ok (Inr x) = True"
  by (simp_all add: is_ok_def)

section \<open>Effects\<close>

text \<open>
  An effectful Rust function takes the state of everything outside it (processes, files, network,
  environment) and returns its result with the state it leaves. The \<open>?\<close> operator is \<open>bindE\<close>: the
  first error ends the computation in the state reached so far.
\<close>

definition okE :: "'a \<Rightarrow> ('w, 'e, 'a) eff" where
  "okE x = (\<lambda>w. (Inr x, w))"

definition failE :: "'e \<Rightarrow> ('w, 'e, 'a) eff" where
  "failE m = (\<lambda>w. (Inl m, w))"

definition liftE :: "'e + 'a \<Rightarrow> ('w, 'e, 'a) eff" where
  "liftE r = (\<lambda>w. (r, w))"

definition bindE :: "('w, 'e, 'a) eff \<Rightarrow> ('a \<Rightarrow> ('w, 'e, 'b) eff) \<Rightarrow> ('w, 'e, 'b) eff" where
  "bindE m f = (\<lambda>w. case m w of (Inl e, w') \<Rightarrow> (Inl e, w') | (Inr x, w') \<Rightarrow> f x w')"

definition fail_ifE :: "bool \<Rightarrow> 'e \<Rightarrow> ('w, 'e, unit) eff" where
  "fail_ifE b m = liftE (fail_if b m)"

text \<open>\<open>map_err\<close> on the result of an effect, and \<open>match\<close> on a \<open>Result\<close> without leaving the function.\<close>

definition map_errE :: "('e \<Rightarrow> 'f) \<Rightarrow> ('w, 'e, 'a) eff \<Rightarrow> ('w, 'f, 'a) eff" where
  "map_errE f m = (\<lambda>w. case m w of (r, w') \<Rightarrow> (map_err f r, w'))"

definition attemptE :: "('w, 'e, 'a) eff \<Rightarrow> ('w, 'f, 'e + 'a) eff" where
  "attemptE m = (\<lambda>w. case m w of (r, w') \<Rightarrow> (Inr r, w'))"

primrec forE :: "'a list \<Rightarrow> ('a \<Rightarrow> ('w, 'e, unit) eff) \<Rightarrow> ('w, 'e, unit) eff" where
  "forE [] f = okE ()"
| "forE (x # xs) f = bindE (f x) (\<lambda>_. forE xs f)"

lemma okE_Inr [res_simps]: "okE x w = (Inr y, w') \<longleftrightarrow> y = x \<and> w' = w"
  by (auto simp: okE_def)

lemma failE_Inr [res_simps]: "failE m w = (Inr y, w') \<longleftrightarrow> False"
  by (simp add: failE_def)

lemma liftE_Inr [res_simps]: "liftE r w = (Inr y, w') \<longleftrightarrow> r = Inr y \<and> w' = w"
  by (auto simp: liftE_def)

lemma bindE_Inr [res_simps]:
  "bindE m f w = (Inr y, w') \<longleftrightarrow> (\<exists>x w1. m w = (Inr x, w1) \<and> f x w1 = (Inr y, w'))"
  by (auto simp: bindE_def split: prod.splits sum.splits)

lemma bindE_InrE:
  assumes "bindE m f w = (Inr y, w')"
  obtains x w1 where "m w = (Inr x, w1)" "f x w1 = (Inr y, w')"
  using assms by (auto simp: bindE_Inr)

lemma bindE_pairE:
  assumes "bindE m (\<lambda>(a, b). f a b) w = (Inr y, w')"
  obtains a b w1 where "m w = (Inr (a, b), w1)" "f a b w1 = (Inr y, w')"
  using assms by (auto simp: bindE_Inr)

lemma fail_ifE_Inr [res_simps]: "fail_ifE b m w = (Inr u, w') \<longleftrightarrow> \<not> b \<and> w' = w"
  by (auto simp: fail_ifE_def liftE_def fail_if_def)

lemma if_Inl_Inr [res_simps]: "(if b then Inl e else Inr x) = Inr y \<longleftrightarrow> \<not> b \<and> x = y"
  by simp

lemma map_errE_Inr [res_simps]: "map_errE f m w = (Inr y, w') \<longleftrightarrow> m w = (Inr y, w')"
  by (auto simp: map_errE_def map_err_def split: prod.splits sum.splits)

lemma attemptE_Inr [res_simps]: "attemptE m w = (Inr r, w') \<longleftrightarrow> m w = (r, w')"
  by (auto simp: attemptE_def split: prod.splits)

lemma bindE_apply:
  "bindE m f w = (case m w of (Inl e, w') \<Rightarrow> (Inl e, w') | (Inr x, w') \<Rightarrow> f x w')"
  by (simp add: bindE_def)

lemma effect_simps [simp]:
  "okE x w = (Inr x, w)"
  "failE m w = (Inl m, w)"
  "liftE r w = (r, w)"
  "fail_ifE b m w = (if b then Inl m else Inr (), w)"
  by (simp_all add: okE_def failE_def liftE_def fail_ifE_def fail_if_def)

lemma bindE_steps [simp]:
  "m w = (Inr x, w') \<Longrightarrow> bindE m f w = f x w'"
  "m w = (Inl e, w') \<Longrightarrow> bindE m f w = (Inl e, w')"
  by (simp_all add: bindE_def)

section \<open>Characters\<close>

text \<open>The ASCII tests of \<open>u8\<close>, on octets.\<close>

definition is_ascii_digit :: "char \<Rightarrow> bool" where
  "is_ascii_digit c \<longleftrightarrow> CHR ''0'' \<le> c \<and> c \<le> CHR ''9''"

definition is_ascii_lower_hex :: "char \<Rightarrow> bool" where
  "is_ascii_lower_hex c \<longleftrightarrow> is_ascii_digit c \<or> (CHR ''a'' \<le> c \<and> c \<le> CHR ''f'')"

definition is_ascii_alphanumeric :: "char \<Rightarrow> bool" where
  "is_ascii_alphanumeric c \<longleftrightarrow>
     is_ascii_digit c \<or> (CHR ''a'' \<le> c \<and> c \<le> CHR ''z'') \<or> (CHR ''A'' \<le> c \<and> c \<le> CHR ''Z'')"

abbreviation char_lf :: char where
  "char_lf \<equiv> CHR 0x0A"

abbreviation char_cr :: char where
  "char_cr \<equiv> CHR 0x0D"

abbreviation char_nul :: char where
  "char_nul \<equiv> CHR 0x00"

abbreviation char_tab :: char where
  "char_tab \<equiv> CHR 0x09"

abbreviation char_backslash :: char where
  "char_backslash \<equiv> CHR 0x5C"

section \<open>Strings\<close>

definition starts_with :: "string \<Rightarrow> string \<Rightarrow> bool" where
  "starts_with s p \<longleftrightarrow> take (length p) s = p"

definition ends_with :: "string \<Rightarrow> string \<Rightarrow> bool" where
  "ends_with s p \<longleftrightarrow> length p \<le> length s \<and> drop (length s - length p) s = p"

definition strip_prefix :: "string \<Rightarrow> string \<Rightarrow> string option" where
  "strip_prefix s p = (if starts_with s p then Some (drop (length p) s) else None)"

fun contains :: "string \<Rightarrow> string \<Rightarrow> bool" where
  "contains [] p \<longleftrightarrow> p = []"
| "contains (c # s) p \<longleftrightarrow> starts_with (c # s) p \<or> contains s p"

text \<open>\<open>str::split(c)\<close> and \<open>split_once(c)\<close> for an ASCII character, \<open>join\<close>, \<open>lines\<close>.\<close>

fun split_char :: "char \<Rightarrow> string \<Rightarrow> string list" where
  "split_char c [] = [[]]"
| "split_char c (x # s) =
     (if x = c then [] # split_char c s
      else case split_char c s of [] \<Rightarrow> [[x]] | p # ps \<Rightarrow> (x # p) # ps)"

definition split_once :: "char \<Rightarrow> string \<Rightarrow> (string \<times> string) option" where
  "split_once c s =
     (let a = takeWhile (\<lambda>x. x \<noteq> c) s
      in if a = s then None else Some (a, drop (Suc (length a)) s))"

fun join :: "string \<Rightarrow> string list \<Rightarrow> string" where
  "join sep [] = []"
| "join sep [s] = s"
| "join sep (s # t # ss) = s @ sep @ join sep (t # ss)"

text \<open>
  \<open>lines\<close> ends a line at a line feed, drops the feed and one carriage return right before it, and
  yields no line for the empty text after a final line feed.
\<close>

definition strip_cr :: "string \<Rightarrow> string" where
  "strip_cr s = (if s \<noteq> [] \<and> last s = char_cr then butlast s else s)"

fun lines_from :: "string list \<Rightarrow> string list" where
  "lines_from [] = []"
| "lines_from [l] = (if l = [] then [] else [l])"
| "lines_from (l # k # ls) = strip_cr l # lines_from (k # ls)"

definition lines :: "string \<Rightarrow> string list" where
  "lines s = lines_from (split_char char_lf s)"

lemma starts_with_append [simp, str_simps]: "starts_with (p @ s) p"
  by (simp add: starts_with_def)

lemma starts_with_iff: "starts_with s p \<longleftrightarrow> (\<exists>t. s = p @ t)"
  by (metis append_take_drop_id starts_with_append starts_with_def)

lemma strip_prefix_append [simp, str_simps]: "strip_prefix (p @ s) p = Some s"
  by (simp add: strip_prefix_def)

lemma strip_prefix_Some [res_simps]: "strip_prefix s p = Some t \<longleftrightarrow> s = p @ t"
  by (auto simp: strip_prefix_def starts_with_iff)

lemma strip_prefix_None: "strip_prefix s p = None \<longleftrightarrow> (\<forall>t. s \<noteq> p @ t)"
  by (auto simp: strip_prefix_def starts_with_iff)

lemma ends_with_iff: "ends_with s p \<longleftrightarrow> (\<exists>t. s = t @ p)"
proof
  assume "ends_with s p"
  then show "\<exists>t. s = t @ p"
    unfolding ends_with_def by (metis append_take_drop_id)
next
  assume "\<exists>t. s = t @ p"
  then show "ends_with s p" by (auto simp: ends_with_def)
qed

lemma split_char_not_Nil [simp]: "split_char c s \<noteq> []"
  by (induction s) (auto split: list.splits)

lemma split_char_no_sep: "c \<notin> set s \<Longrightarrow> split_char c s = [s]"
  by (induction s) auto

lemma split_char_parts: "p \<in> set (split_char c s) \<Longrightarrow> c \<notin> set p"
proof (induction s arbitrary: p)
  case Nil
  then show ?case by simp
next
  case (Cons x s)
  obtain q qs where "split_char c s = q # qs"
    by (cases "split_char c s") auto
  with Cons show ?case by (auto split: if_splits)
qed

lemma join_Cons: "ss \<noteq> [] \<Longrightarrow> join sep (s # ss) = s @ sep @ join sep ss"
  by (cases ss) auto

lemma join_split_char [simp]: "join [c] (split_char c s) = s"
proof (induction s)
  case Nil
  then show ?case by simp
next
  case (Cons x s)
  obtain q qs where q: "split_char c s = q # qs"
    by (cases "split_char c s") auto
  with Cons show ?case by (cases qs) (auto simp: join_Cons)
qed

lemma split_char_append:
  "c \<notin> set s \<Longrightarrow> split_char c (s @ c # t) = s # split_char c t"
  by (induction s) auto

lemma split_char_join: "split_char c (s @ c # t) = split_char c s @ split_char c t"
proof (induction s)
  case Nil
  then show ?case by simp
next
  case (Cons x s)
  obtain q qs where "split_char c s = q # qs" by (cases "split_char c s") auto
  with Cons show ?case by simp
qed

lemma split_char_inject: "split_char c s = split_char c t \<longleftrightarrow> s = t"
  by (metis join_split_char)

lemma split_once_Some [res_simps]:
  "split_once c s = Some (a, b) \<longleftrightarrow> s = a @ c # b \<and> c \<notin> set a"
proof
  assume "split_once c s = Some (a, b)"
  then have a: "a = takeWhile (\<lambda>x. x \<noteq> c) s" and ne: "a \<noteq> s"
    and b: "b = drop (Suc (length a)) s"
    by (auto simp: split_once_def Let_def split: if_splits)
  have "dropWhile (\<lambda>x. x \<noteq> c) s \<noteq> []"
    using a ne by (metis append_Nil2 takeWhile_dropWhile_id)
  then obtain d ds where ds: "dropWhile (\<lambda>x. x \<noteq> c) s = d # ds"
    by (meson neq_Nil_conv)
  then have "d = c" by (simp add: dropWhile_eq_Cons_conv)
  with a ds have s: "s = a @ c # ds" by (metis takeWhile_dropWhile_id)
  moreover from a have "c \<notin> set a" by (auto dest: set_takeWhileD)
  ultimately show "s = a @ c # b \<and> c \<notin> set a" using b by simp
next
  assume "s = a @ c # b \<and> c \<notin> set a"
  then have s: "s = a @ c # b" and "\<And>x. x \<in> set a \<Longrightarrow> x \<noteq> c" by auto
  then have t: "takeWhile (\<lambda>x. x \<noteq> c) s = a" by (simp add: takeWhile_append2)
  from s have "a \<noteq> s" "drop (Suc (length a)) s = b" by auto
  with t show "split_once c s = Some (a, b)" by (simp add: split_once_def Let_def)
qed

section \<open>Integers\<close>

text \<open>\<open>u64::checked_add\<close>.\<close>

definition checked_add :: "u64 \<Rightarrow> u64 \<Rightarrow> u64 option" where
  "checked_add a b = (if unat a + unat b < 2 ^ 64 then Some (a + b) else None)"

lemma unat_less_u64 [simp]: "unat (a :: u64) < 18446744073709551616"
  using unsigned_less [where 'a = nat, of a] by simp

lemma checked_add_Some [res_simps]:
  "checked_add a b = Some c \<longleftrightarrow> unat c = unat a + unat b"
proof -
  have sum: "unat (a + b) = unat a + unat b" if "unat a + unat b < 2 ^ 64"
    using that by (simp add: unat_add_lem [THEN iffD1])
  have small: "unat a + unat b < 2 ^ 64" if "unat c = unat a + unat b"
    using that unat_less_u64 [of c] by simp
  show ?thesis
    using sum small by (auto simp: checked_add_def word_unat_eq_iff)
qed

text \<open>Decimal rendering, and \<open>u64::from_str\<close> with its optional plus sign and overflow check.\<close>

definition digit_char :: "nat \<Rightarrow> char" where
  "digit_char d = char_of (48 + d)"

definition digit_val :: "char \<Rightarrow> nat" where
  "digit_val c = of_char c - 48"

fun show_nat :: "nat \<Rightarrow> string" where
  "show_nat n = (if n < 10 then [digit_char n] else show_nat (n div 10) @ [digit_char (n mod 10)])"

declare show_nat.simps [simp del]

definition digits_val :: "string \<Rightarrow> nat" where
  "digits_val s = foldl (\<lambda>acc c. 10 * acc + digit_val c) 0 s"

definition show_u64 :: "u64 \<Rightarrow> string" where
  "show_u64 v = show_nat (unat v)"

definition parse_u64 :: "string \<Rightarrow> u64 option" where
  "parse_u64 s =
     (let d = (if starts_with s ''+'' then drop 1 s else s)
      in if d = [] \<or> \<not> list_all is_ascii_digit d \<or> 2 ^ 64 \<le> digits_val d then None
         else Some (of_nat (digits_val d)))"

lemma show_nat_rec: "10 \<le> n \<Longrightarrow> show_nat n = show_nat (n div 10) @ [digit_char (n mod 10)]"
  by (subst show_nat.simps) simp

lemma show_nat_small: "n < 10 \<Longrightarrow> show_nat n = [digit_char n]"
  by (subst show_nat.simps) simp

lemma show_nat_code [code]:
  "show_nat n = (if n < 10 then [digit_char n] else show_nat (n div 10) @ [digit_char (n mod 10)])"
  by (rule show_nat.simps)

lemma of_char_digit_char: "d < 10 \<Longrightarrow> of_char (digit_char d) = (48 + d :: nat)"
  by (simp add: digit_char_def of_char_of)

lemma is_ascii_digit_iff: "is_ascii_digit c \<longleftrightarrow> 48 \<le> (of_char c :: nat) \<and> (of_char c :: nat) \<le> 57"
  by (simp add: is_ascii_digit_def less_eq_char_def)

lemma digit_char_digit [simp]: "d < 10 \<Longrightarrow> is_ascii_digit (digit_char d)"
  by (simp add: is_ascii_digit_iff of_char_digit_char)

lemma digit_val_char [simp]: "d < 10 \<Longrightarrow> digit_val (digit_char d) = d"
  by (simp add: digit_val_def of_char_digit_char)

lemma digit_val_less [simp]: "is_ascii_digit c \<Longrightarrow> digit_val c < 10"
  unfolding digit_val_def is_ascii_digit_iff by linarith

lemma digit_char_val [simp]: "is_ascii_digit c \<Longrightarrow> digit_char (digit_val c) = c"
  by (simp add: digit_char_def digit_val_def is_ascii_digit_iff)

lemma digits_val_Nil [simp]: "digits_val [] = 0"
  by (simp add: digits_val_def)

lemma digits_val_snoc [simp]: "digits_val (s @ [c]) = 10 * digits_val s + digit_val c"
  by (simp add: digits_val_def)

lemma show_nat_digits: "list_all is_ascii_digit (show_nat n)"
proof (induction n rule: show_nat.induct)
  case (1 n)
  then show ?case by (subst show_nat.simps) simp
qed

lemma show_nat_not_Nil [simp]: "show_nat n \<noteq> []"
  by (subst show_nat.simps) simp

lemma digits_val_show_nat [simp]: "digits_val (show_nat n) = n"
proof (induction n rule: show_nat.induct)
  case (1 n)
  show ?case
  proof (cases "n < 10")
    case True
    then show ?thesis
      using digits_val_snoc [of "[]" "digit_char n"] by (simp add: show_nat_small)
  next
    case False
    with 1 show ?thesis by (simp add: show_nat_rec)
  qed
qed

lemma show_nat_inject [simp]: "show_nat m = show_nat n \<longleftrightarrow> m = n"
  by (metis digits_val_show_nat)

text \<open>The canonical numerals: digits without a leading zero, zero itself apart.\<close>

definition canonical_digits :: "string \<Rightarrow> bool" where
  "canonical_digits s \<longleftrightarrow>
     s \<noteq> [] \<and> list_all is_ascii_digit s \<and> (1 < length s \<longrightarrow> hd s \<noteq> CHR ''0'')"

lemma digit_char_0 [simp]: "digit_char 0 = CHR ''0''"
  by code_simp

lemma digits_val_single [simp]: "digits_val [c] = digit_val c"
  by (simp add: digits_val_def)

lemma digits_val_pos:
  "list_all is_ascii_digit s \<Longrightarrow> s \<noteq> [] \<Longrightarrow> hd s \<noteq> CHR ''0'' \<Longrightarrow> 0 < digits_val s"
proof (induction s rule: rev_induct)
  case Nil
  then show ?case by simp
next
  case (snoc c s)
  show ?case
  proof (cases "s = []")
    case True
    with snoc.prems have "digit_char (digit_val c) \<noteq> CHR ''0''" by simp
    then have "digit_val c \<noteq> 0" by (metis digit_char_0)
    with True show ?thesis by simp
  next
    case False
    with snoc show ?thesis by simp
  qed
qed

lemma show_nat_canonical: "canonical_digits (show_nat n)"
proof (induction n rule: show_nat.induct)
  case (1 n)
  show ?case
  proof (cases "n < 10")
    case True
    then show ?thesis by (simp add: show_nat_small canonical_digits_def)
  next
    case False
    then have "canonical_digits (show_nat (n div 10))" using 1 by simp
    moreover have "hd (show_nat (n div 10)) \<noteq> CHR ''0''"
    proof (cases "n div 10 < 10")
      case True
      have "n div 10 \<noteq> 0" using False by simp
      then have "digit_char (n div 10) \<noteq> CHR ''0''"
        using True by (metis digit_char_0 digit_val_char zero_less_numeral)
      with True show ?thesis by (simp add: show_nat_small)
    next
      case False
      then have "1 < length (show_nat (n div 10))"
        by (simp add: show_nat_rec Suc_lessI)
      with calculation show ?thesis by (simp add: canonical_digits_def)
    qed
    ultimately show ?thesis using False
      by (simp add: show_nat_rec canonical_digits_def)
  qed
qed

lemma show_nat_digits_val: "canonical_digits s \<Longrightarrow> show_nat (digits_val s) = s"
proof (induction s rule: rev_induct)
  case Nil
  then show ?case by (simp add: canonical_digits_def)
next
  case (snoc c s)
  from snoc.prems have c: "is_ascii_digit c" by (simp add: canonical_digits_def)
  show ?case
  proof (cases "s = []")
    case True
    with c show ?thesis by (simp add: show_nat_small)
  next
    case False
    with snoc.prems have hd: "hd s \<noteq> CHR ''0''" and ds: "list_all is_ascii_digit s"
      by (auto simp: canonical_digits_def)
    then have "canonical_digits s" using False by (simp add: canonical_digits_def)
    then have IH: "show_nat (digits_val s) = s" by (rule snoc.IH)
    have "0 < digits_val s" using ds False hd by (rule digits_val_pos)
    then show ?thesis using c IH by (simp add: show_nat_rec)
  qed
qed

lemma digits_val_bound: "list_all is_ascii_digit s \<Longrightarrow> digits_val s < 10 ^ length s"
proof (induction s rule: rev_induct)
  case Nil
  then show ?case by simp
next
  case (snoc c s)
  then have "digits_val s < 10 ^ length s" and "digit_val c < 10" by simp_all
  then show ?case by simp
qed

lemma show_nat_length: "0 < k \<Longrightarrow> n < 10 ^ k \<Longrightarrow> length (show_nat n) \<le> k"
proof (induction n arbitrary: k rule: show_nat.induct)
  case (1 n)
  show ?case
  proof (cases "n < 10")
    case True
    with 1 show ?thesis by (simp add: show_nat_small)
  next
    case False
    then obtain j where k: "k = Suc j" and j: "0 < j"
      using 1 by (cases k; cases "k - 1") auto
    with 1 False have "length (show_nat (n div 10)) \<le> j" by (simp add: less_mult_imp_div_less mult.commute)
    with False k show ?thesis by (simp add: show_nat_rec)
  qed
qed

lemma show_nat_no_plus: "\<not> starts_with (show_nat n) ''+''"
proof
  assume "starts_with (show_nat n) ''+''"
  then obtain t where "show_nat n = CHR ''+'' # t" by (auto simp: starts_with_iff)
  then have "is_ascii_digit (CHR ''+'')"
    using show_nat_digits [of n] by simp
  then show False by (simp add: is_ascii_digit_iff)
qed

lemma digits_no_plus: "list_all is_ascii_digit s \<Longrightarrow> \<not> starts_with s ''+''"
  by (auto simp: starts_with_iff is_ascii_digit_iff)

lemma parse_u64_digits:
  "list_all is_ascii_digit s \<Longrightarrow> s \<noteq> [] \<Longrightarrow>
   parse_u64 s = (if digits_val s < 2 ^ 64 then Some (of_nat (digits_val s)) else None)"
  by (simp add: parse_u64_def digits_no_plus)

lemma parse_show_u64 [simp]: "parse_u64 (show_u64 v) = Some v"
  by (simp add: show_u64_def parse_u64_digits show_nat_digits)

lemma show_u64_inject [simp]: "show_u64 v = show_u64 w \<longleftrightarrow> v = w"
  by (metis parse_show_u64 option.inject)

lemma parse_u64_canonical:
  "canonical_digits s \<Longrightarrow> parse_u64 s = Some v \<longleftrightarrow> s = show_u64 v"
proof
  assume s: "canonical_digits s" and "parse_u64 s = Some v"
  then have "digits_val s < 2 ^ 64" and "v = of_nat (digits_val s)"
    by (auto simp: canonical_digits_def parse_u64_digits split: if_splits)
  then have "unat v = digits_val s" by (simp add: unat_of_nat take_bit_nat_eq_self)
  with s show "s = show_u64 v" by (simp add: show_u64_def show_nat_digits_val)
qed simp

lemma digit_not_char: "list_all is_ascii_digit s \<Longrightarrow> \<not> is_ascii_digit c \<Longrightarrow> c \<notin> set s"
  by (auto simp: list_all_iff)

section \<open>Ordered maps\<close>

text \<open>
  A \<open>BTreeMap\<close> is the list of its entries in increasing key order; \<open>map_of\<close> looks a key up, and
  \<open>bt_insert\<close> adds or replaces an entry.
\<close>

fun bt_insert :: "'k :: linorder \<Rightarrow> 'v \<Rightarrow> ('k \<times> 'v) list \<Rightarrow> ('k \<times> 'v) list" where
  "bt_insert k v [] = [(k, v)]"
| "bt_insert k v ((k', v') # m) =
     (if k < k' then (k, v) # (k', v') # m
      else if k = k' then (k, v) # m
      else (k', v') # bt_insert k v m)"

definition bt_ok :: "('k :: linorder \<times> 'v) list \<Rightarrow> bool" where
  "bt_ok m \<longleftrightarrow> sorted_wrt (<) (map fst m)"

definition bt_keys :: "('k \<times> 'v) list \<Rightarrow> 'k list" where
  "bt_keys m = map fst m"

lemma bt_insert_set: "fst ` set (bt_insert k v m) = insert k (fst ` set m)"
  by (induction k v m rule: bt_insert.induct) auto

lemma bt_insert_ok: "bt_ok m \<Longrightarrow> bt_ok (bt_insert k v m)"
proof (induction k v m rule: bt_insert.induct)
  case (1 k v)
  then show ?case by (simp add: bt_ok_def)
next
  case (2 k v k' v' m)
  then show ?case
    using bt_insert_set [of k v m] unfolding bt_ok_def
    by (auto simp flip: image_set)
qed

lemma map_of_bt_insert [simp]: "bt_ok m \<Longrightarrow> map_of (bt_insert k v m) = (map_of m)(k \<mapsto> v)"
proof (induction k v m rule: bt_insert.induct)
  case (1 k v)
  then show ?case by simp
next
  case (2 k v k' v' m)
  then show ?case by (auto simp: bt_ok_def fun_eq_iff)
qed

lemma bt_ok_Nil [simp]: "bt_ok []"
  by (simp add: bt_ok_def)

lemma bt_insert_entries:
  "bt_ok m \<Longrightarrow> (x, y) \<in> set (bt_insert k v m) \<longleftrightarrow>
     x = k \<and> y = v \<or> x \<noteq> k \<and> (x, y) \<in> set m"
proof (induction k v m rule: bt_insert.induct)
  case (1 k v)
  then show ?case by auto
next
  case (2 k v k' v' m)
  then show ?case by (auto simp: bt_ok_def)
qed

lemma bt_insert_length: "map_of m k = None \<Longrightarrow> length (bt_insert k v m) = Suc (length m)"
  by (induction k v m rule: bt_insert.induct) (auto split: if_splits)

section \<open>Maxima\<close>

text \<open>
  \<open>Iterator::max\<close> for the strict order \<open>lt\<close>: the last of the greatest elements.
\<close>

fun max_by :: "('a \<Rightarrow> 'a \<Rightarrow> bool) \<Rightarrow> 'a list \<Rightarrow> 'a option" where
  "max_by lt [] = None"
| "max_by lt (x # xs) = Some (foldl (\<lambda>m y. if lt y m then m else y) x xs)"

locale strict_linear =
  fixes lt :: "'a \<Rightarrow> 'a \<Rightarrow> bool"
  assumes irrefl: "\<not> lt x x"
    and trans: "lt x y \<Longrightarrow> lt y z \<Longrightarrow> lt x z"
    and total: "x = y \<or> lt x y \<or> lt y x"
begin

lemma asym: "lt x y \<Longrightarrow> \<not> lt y x"
  using irrefl trans by blast

lemma not_lt: "\<not> lt x y \<longleftrightarrow> x = y \<or> lt y x"
  using total asym irrefl by blast

lemma max_fold:
  "let m = foldl (\<lambda>m y. if lt y m then m else y) x xs
   in m \<in> set (x # xs) \<and> (\<forall>z \<in> set (x # xs). \<not> lt m z)"
proof (induction xs arbitrary: x)
  case Nil
  then show ?case by (simp add: irrefl)
next
  case (Cons a xs)
  let ?x = "if lt a x then x else a"
  from Cons [of ?x] show ?case
    unfolding Let_def
    by (auto split: if_splits dest: trans asym simp: not_lt)
qed

lemma max_by_Some:
  assumes "max_by lt xs = Some m"
  shows "m \<in> set xs" and "z \<in> set xs \<Longrightarrow> z = m \<or> lt z m"
proof -
  from assms obtain y ys where "xs = y # ys" by (cases xs) auto
  with assms max_fold [of y ys]
  have m: "m \<in> set xs \<and> (\<forall>z \<in> set xs. \<not> lt m z)" by (simp add: Let_def)
  then show "m \<in> set xs" by simp
  from m show "z \<in> set xs \<Longrightarrow> z = m \<or> lt z m" using not_lt by blast
qed

lemma max_by_None: "max_by lt xs = None \<longleftrightarrow> xs = []"
  by (cases xs) auto

lemma max_by_eq: "m \<in> set xs \<Longrightarrow> \<forall>z \<in> set xs. z = m \<or> lt z m \<Longrightarrow> max_by lt xs = Some m"
  by (metis asym emptyE empty_set max_by_None max_by_Some not_None_eq)

end

end
