(* ===== verification/Contract.thy ===== *)
theory Contract
  imports Prelude
begin

text \<open>
  The \<open>v1alpha1\<close> contract crate (\<open>src/algorithm.rs\<close>, \<open>conformance.rs\<close>, \<open>signing.rs\<close>,
  \<open>transcription.rs\<close>, \<open>verification.rs\<close>): the algorithm identifiers with their YAML and wire
  spellings, the policy vocabulary, the request and response types of the three APIs, and the traits
  as records of their methods. A borrowed slice is the value it borrows; a future is the computation
  that awaiting it runs, over the state \<open>'w\<close> of the executor.
\<close>

type_synonym i32 = "32 word"
type_synonym ('w, 'a) future = "'w \<Rightarrow> 'a \<times> 'w"

section \<open>Algorithm identifiers\<close>

datatype AlgorithmId = Ed25519 | EcdsaP256Sha256

fun as_yaml_str :: "AlgorithmId \<Rightarrow> string" where
  "as_yaml_str Ed25519 = ''ED25519_PUREEDDSA_RAW_RS64_CANONICAL''"
| "as_yaml_str EcdsaP256Sha256 = ''ECDSA_SECP256R1_SHA256_RAW_RS64''"

definition from_yaml_str :: "string \<Rightarrow> AlgorithmId option" where
  "from_yaml_str s =
     (if s = ''ED25519_PUREEDDSA_RAW_RS64_CANONICAL'' then Some Ed25519
      else if s = ''ECDSA_SECP256R1_SHA256_RAW_RS64'' then Some EcdsaP256Sha256
      else None)"

definition from_i32 :: "i32 \<Rightarrow> AlgorithmId option" where
  "from_i32 v = (if v = 1 then Some Ed25519 else if v = 2 then Some EcdsaP256Sha256 else None)"

section \<open>Conformance vocabulary\<close>

datatype DuplicateKeyPolicy = Duplicate_RejectedAtParse

datatype UnknownFieldPolicy =
  Unknown_IgnoredAtParse | Unknown_RejectedAtParse | Unknown_RejectedAtVerify

datatype ProtobufWireDecodeAdvertisement = UnprofiledStockDecoder

datatype OuterConformance = Outer_Strict | Outer_SignatureStrict

section \<open>Signing\<close>

datatype OutputForm = Output_Yaml | Output_Protobuf

record SignerCapabilities =
  sc_protobuf_wire_decode :: ProtobufWireDecodeAdvertisement
  sc_duplicate_key_policy :: DuplicateKeyPolicy
  sc_unknown_field_policy :: UnknownFieldPolicy
  sc_supported_output_forms :: "OutputForm list"
  sc_supported_algorithms :: "AlgorithmId list"
  sc_best_effort_yaml_validation :: bool
  sc_implementation_name :: string
  sc_implementation_version :: string

datatype SignInvocationError =
    SI_InvalidOrUnsupportedAlgorithm
  | SI_InvalidAlgorithmParameters
  | SI_InvalidOrUnsupportedOutputForm
  | SI_InvalidKeyid

fun show_sign_invocation_error :: "SignInvocationError \<Rightarrow> string" where
  "show_sign_invocation_error SI_InvalidOrUnsupportedAlgorithm =
     ''unsupported or invalid algorithm selection for this signer''"
| "show_sign_invocation_error SI_InvalidAlgorithmParameters = ''invalid algorithm parameters''"
| "show_sign_invocation_error SI_InvalidOrUnsupportedOutputForm =
     ''invalid or unsupported output form''"
| "show_sign_invocation_error SI_InvalidKeyid =
     ''invalid keyid (empty, over 1024 UTF-8 octets, or contains CR or LF)''"

datatype SignError =
    SE_InvalidPayloadBytes
  | SE_PayloadLineTerminatorRefusal
  | SE_InvalidOrUnsupportedAlgorithm
  | SE_InvalidAlgorithmParameters
  | SE_InvalidOrUnsupportedOutputForm
  | SE_InvalidKeyid
  | SE_KeyOperationFailure
  | SE_YamlValidationFailure
  | SE_YamlSerialize string

fun show_sign_error :: "SignError \<Rightarrow> string" where
  "show_sign_error SE_InvalidPayloadBytes =
     ''invalid payload bytes (UTF-8, BOM, or line terminator rules)''"
| "show_sign_error SE_PayloadLineTerminatorRefusal =
     ''non-empty payload missing trailing newline and caller did not authorize appending LF''"
| "show_sign_error SE_InvalidOrUnsupportedAlgorithm =
     ''unsupported or invalid algorithm selection''"
| "show_sign_error SE_InvalidAlgorithmParameters = ''invalid algorithm parameters''"
| "show_sign_error SE_InvalidOrUnsupportedOutputForm = ''invalid or unsupported output form''"
| "show_sign_error SE_InvalidKeyid =
     ''invalid keyid (empty, over 1024 UTF-8 octets, or contains CR or LF)''"
| "show_sign_error SE_KeyOperationFailure = ''key operation failed''"
| "show_sign_error SE_YamlValidationFailure = ''YAML validation failed at sign time''"
| "show_sign_error (SE_YamlSerialize m) = ''YAML serialization failed: '' @ m"

record SignSuccess =
  ss_artifact :: bytes
  ss_modified_payload :: bytes

datatype SignOutcome =
    Sign_Success SignSuccess
  | Sign_Invocation SignInvocationError
  | Sign_Signer SignError

datatype ('ed, 'p256) SigningKey = Key_Ed25519 'ed | Key_EcdsaP256Sha256 'p256

text \<open>\<open>Debug for SigningKey\<close>.\<close>

fun debug_signing_key :: "('ed, 'p256) SigningKey \<Rightarrow> string" where
  "debug_signing_key (Key_Ed25519 k) = ''SigningKey::Ed25519(***)''"
| "debug_signing_key (Key_EcdsaP256Sha256 k) = ''SigningKey::EcdsaP256Sha256(***)''"

record ('ed, 'p256) SignRequest =
  sr_payload :: bytes
  sr_algorithm :: AlgorithmId
  sr_key :: "('ed, 'p256) SigningKey"
  sr_keyid :: "string option"
  sr_append_missing_final_newline :: bool
  sr_output_form :: OutputForm
  sr_algorithm_parameters :: bytes

record ('ed, 'p256) Signer =
  signer_capabilities :: SignerCapabilities
  signer_sign :: "('ed, 'p256) SignRequest \<Rightarrow> SignOutcome"

record ('w, 'ed, 'p256) AsyncSigner =
  async_signer_capabilities :: SignerCapabilities
  async_signer_sign :: "('ed, 'p256) SignRequest \<Rightarrow> ('w, SignOutcome) future"

section \<open>Transcription\<close>

datatype TranscriptionForm = Transcription_Yaml | Transcription_Protobuf

datatype DecomposeOutcome =
  Decompose_Ok | Decompose_Unsigned | Decompose_MalformedAttemptedSigned

record AbstractArtifact =
  aa_payload :: bytes
  aa_signature_carrier :: bytes

datatype TranscriberInvocationError =
  TI_InvalidOrUnsupportedForm | TI_InvalidOrUnsupportedOuterConformance

fun show_transcriber_invocation_error :: "TranscriberInvocationError \<Rightarrow> string" where
  "show_transcriber_invocation_error TI_InvalidOrUnsupportedForm = ''invalid or unsupported form''"
| "show_transcriber_invocation_error TI_InvalidOrUnsupportedOuterConformance =
     ''invalid or unsupported outer conformance''"

datatype TranscriberError = TE_InvalidPayloadBytes | TE_InvalidSignatureCarrier

fun show_transcriber_error :: "TranscriberError \<Rightarrow> string" where
  "show_transcriber_error TE_InvalidPayloadBytes = ''invalid payload bytes''"
| "show_transcriber_error TE_InvalidSignatureCarrier =
     ''signature carrier contains a constrained marker at a line start''"

record ComposeSuccess =
  cs_artifact :: bytes
  cs_form :: TranscriptionForm

datatype ComposeOutcome =
    Compose_Success ComposeSuccess
  | Compose_Invocation TranscriberInvocationError
  | Compose_Error TranscriberError

record DecomposeStructuralResult =
  ds_outcome :: DecomposeOutcome
  ds_payload :: "bytes option"
  ds_signature_carrier :: "bytes option"
  ds_detail :: "string option"

datatype DecomposeResponse =
    Decompose_Structural DecomposeStructuralResult
  | Decompose_Invocation TranscriberInvocationError

record ComposeRequest =
  cr_payload :: bytes
  cr_signature_carrier :: bytes
  cr_form :: TranscriptionForm

record DecomposeRequest =
  dr_artifact :: bytes
  dr_form :: TranscriptionForm
  dr_outer_conformance :: "OuterConformance option"

record TranscriberCapabilities =
  tc_supported_forms :: "TranscriptionForm list"
  tc_supported_outer_conformances :: "OuterConformance list"
  tc_emits_canonical_yaml_envelope :: bool
  tc_implementation_name :: string
  tc_implementation_version :: string

record Transcriber =
  transcriber_capabilities :: TranscriberCapabilities
  transcriber_compose :: "ComposeRequest \<Rightarrow> ComposeOutcome"
  transcriber_decompose :: "DecomposeRequest \<Rightarrow> DecomposeResponse"

record 'w AsyncTranscriber =
  async_transcriber_capabilities :: TranscriberCapabilities
  async_transcriber_compose :: "ComposeRequest \<Rightarrow> ('w, ComposeOutcome) future"
  async_transcriber_decompose :: "DecomposeRequest \<Rightarrow> ('w, DecomposeResponse) future"

section \<open>Verification\<close>

datatype ArtifactForm = Artifact_Yaml | Artifact_Proto

datatype AdvertisedConformanceProfile =
  Profile_Strict | Profile_Permissive | Profile_SignatureStrict

record VerifierCapabilities =
  vc_conformance_profile :: AdvertisedConformanceProfile
  vc_protobuf_wire_decode :: ProtobufWireDecodeAdvertisement
  vc_duplicate_key_policy :: DuplicateKeyPolicy
  vc_unknown_field_policy :: UnknownFieldPolicy
  vc_unknown_field_policies :: "UnknownFieldPolicy list"
  vc_supported_forms :: "ArtifactForm list"
  vc_supported_algorithms :: "AlgorithmId list"
  vc_supports_can_pre_verify :: bool
  vc_supports_pre_verify :: bool
  vc_implementation_name :: string
  vc_implementation_version :: string

datatype VerifierState =
    Verified bytes AlgorithmId
  | Unsigned
  | MalformedAttemptedSigned
  | SignedButAlgorithmUnsupported AlgorithmId
  | SignedButFailedVerification

fun show_verifier_state :: "VerifierState \<Rightarrow> string" where
  "show_verifier_state (Verified payload algorithm) = ''Verified''"
| "show_verifier_state Unsigned = ''Unsigned''"
| "show_verifier_state MalformedAttemptedSigned = ''MalformedAttemptedSigned''"
| "show_verifier_state (SignedButAlgorithmUnsupported algorithm) =
     ''SignedButAlgorithmUnsupported''"
| "show_verifier_state SignedButFailedVerification = ''SignedButFailedVerification''"

datatype InvocationError =
    VI_InvalidAlgorithmParameters
  | VI_KeyResolutionFailure
  | VI_TrustPolicyConfigurationError
  | VI_InvalidPreVerifyResult
  | VI_InvalidOrUnsupportedForm

fun show_invocation_error :: "InvocationError \<Rightarrow> string" where
  "show_invocation_error VI_InvalidAlgorithmParameters =
     ''invalid algorithm parameters supplied by caller''"
| "show_invocation_error VI_KeyResolutionFailure =
     ''caller key material or handle could not be used for this verification''"
| "show_invocation_error VI_TrustPolicyConfigurationError =
     ''caller trust policy configuration is invalid''"
| "show_invocation_error VI_InvalidPreVerifyResult =
     ''pre-verify result is not structurally valid for verify_from_pre_verify''"
| "show_invocation_error VI_InvalidOrUnsupportedForm =
     ''artifact form is unspecified or unsupported''"

record ('ed, 'p256) PublicKeys =
  pk_ed25519 :: "'ed option"
  pk_p256 :: "'p256 option"

record VerifierOptions =
  vo_verify_ed25519 :: bool
  vo_verify_ecdsa_p256_sha256 :: bool
  vo_reject_unknown_signature_document_fields :: bool
  vo_algorithm_parameters :: bytes

definition default_options :: VerifierOptions where
  "default_options =
     \<lparr>vo_verify_ed25519 = True, vo_verify_ecdsa_p256_sha256 = True,
      vo_reject_unknown_signature_document_fields = False, vo_algorithm_parameters = []\<rparr>"

record VerifyResult =
  vr_state :: VerifierState
  vr_parser_observations :: "string list"

datatype PreVerifyOutcome =
  PreVerify_Ok | PreVerify_Unsigned | PreVerify_StructuralFailure | PreVerify_MetadataParseFailure

record UnverifiedSignature =
  us_algorithm :: AlgorithmId
  us_keyid :: "string option"
  us_signature_octets :: bytes

record PreVerifyResponse =
  pv_outcome :: PreVerifyOutcome
  pv_form :: ArtifactForm
  pv_unverified_payload_bytes :: "bytes option"
  pv_unverified_signature :: "UnverifiedSignature option"
  pv_parser_observations :: "string list"

definition artifact_form_try_from :: "i32 \<Rightarrow> InvocationError + ArtifactForm" where
  "artifact_form_try_from v =
     (if v = 1 then Inr Artifact_Yaml
      else if v = 2 then Inr Artifact_Proto
      else Inl VI_InvalidOrUnsupportedForm)"

record ('ed, 'p256) Verifier =
  verifier_capabilities :: VerifierCapabilities
  verifier_pre_verify :: "bytes \<Rightarrow> ArtifactForm \<Rightarrow> bool \<Rightarrow> bool \<Rightarrow> PreVerifyResponse"
  verifier_verify :: "bytes \<Rightarrow> ArtifactForm \<Rightarrow> ('ed, 'p256) PublicKeys \<Rightarrow> VerifierOptions \<Rightarrow>
    InvocationError + VerifierState"
  verifier_verify_with_metadata :: "bytes \<Rightarrow> ArtifactForm \<Rightarrow> ('ed, 'p256) PublicKeys \<Rightarrow>
    VerifierOptions \<Rightarrow> bool \<Rightarrow> InvocationError + VerifyResult"
  verifier_verify_from_pre_verify :: "PreVerifyResponse \<Rightarrow> ('ed, 'p256) PublicKeys \<Rightarrow>
    VerifierOptions \<Rightarrow> InvocationError + VerifierState"

record ('w, 'ed, 'p256) AsyncVerifier =
  async_verifier_capabilities :: VerifierCapabilities
  async_verifier_pre_verify ::
    "bytes \<Rightarrow> ArtifactForm \<Rightarrow> bool \<Rightarrow> bool \<Rightarrow> ('w, PreVerifyResponse) future"
  async_verifier_verify :: "bytes \<Rightarrow> ArtifactForm \<Rightarrow> ('ed, 'p256) PublicKeys \<Rightarrow> VerifierOptions \<Rightarrow>
    ('w, InvocationError + VerifierState) future"
  async_verifier_verify_with_metadata :: "bytes \<Rightarrow> ArtifactForm \<Rightarrow> ('ed, 'p256) PublicKeys \<Rightarrow>
    VerifierOptions \<Rightarrow> bool \<Rightarrow> ('w, InvocationError + VerifyResult) future"
  async_verifier_verify_from_pre_verify :: "PreVerifyResponse \<Rightarrow> ('ed, 'p256) PublicKeys \<Rightarrow>
    VerifierOptions \<Rightarrow> ('w, InvocationError + VerifierState) future"

section \<open>Laws of the contract types\<close>

text \<open>
  C35: the two spellings of an algorithm identifier name it exactly. \<open>from_yaml_str\<close> accepts a text if
  and only if it is the identifier's own \<open>as_yaml_str\<close> (no trimming, no protobuf prefix), and no two
  wire numbers decode to the same identifier.
\<close>

theorem algorithm_spellings:
  "(from_yaml_str s = Some a \<longleftrightarrow> s = as_yaml_str a) \<and>
   (from_i32 v = Some a \<longleftrightarrow> v = (case a of Ed25519 \<Rightarrow> 1 | EcdsaP256Sha256 \<Rightarrow> 2))"
  by (cases a) (auto simp: from_yaml_str_def from_i32_def)

text \<open>The \<open>Debug\<close> text of a signing key depends on its algorithm only, never on the key material.\<close>

lemma debug_signing_key_redacted:
  "debug_signing_key (map_SigningKey f g k) = debug_signing_key k"
  by (cases k) simp_all

text \<open>The state names tell the states apart, up to the data the states carry.\<close>

lemma show_verifier_state_kind:
  "show_verifier_state s = show_verifier_state t \<longleftrightarrow>
     (case (s, t) of
        (Verified _ _, Verified _ _) \<Rightarrow> True
      | (SignedButAlgorithmUnsupported _, SignedButAlgorithmUnsupported _) \<Rightarrow> True
      | _ \<Rightarrow> s = t)"
  by (cases s; cases t) simp_all

text \<open>A wire form number is accepted for the two forms only, and each form has one number.\<close>

lemma artifact_form_try_from_Inr:
  "artifact_form_try_from v = Inr f \<longleftrightarrow> v = (case f of Artifact_Yaml \<Rightarrow> 1 | Artifact_Proto \<Rightarrow> 2)"
  by (cases f) (auto simp: artifact_form_try_from_def)

lemma show_errors_inject:
  "show_invocation_error e = show_invocation_error e' \<longleftrightarrow> e = e'"
  "show_sign_invocation_error i = show_sign_invocation_error i' \<longleftrightarrow> i = i'"
  "show_transcriber_error t = show_transcriber_error t' \<longleftrightarrow> t = t'"
  subgoal by (cases e; cases e'; simp)
  subgoal by (cases i; cases i'; simp)
  subgoal by (cases t; cases t'; simp)
  done

end
