(* ===== verification/Text.thy ===== *)
theory Text
  imports Prelude
begin

text \<open>
  The rest of Rust's \<open>str\<close> library the sources use: UTF-8 validation of octets (\<open>from_utf8\<close>,
  \<open>from_utf8_lossy\<close>), \<open>trim\<close> with the Unicode white space property, \<open>chars().take(n)\<close>, and the
  hexadecimal form of an octet.
\<close>

section \<open>Octets\<close>

definition as_bytes :: "string \<Rightarrow> bytes" where
  "as_bytes s = map (\<lambda>c. of_nat (of_char c)) s"

definition of_bytes :: "bytes \<Rightarrow> string" where
  "of_bytes bs = map (\<lambda>b. char_of (unat b)) bs"

lemma unat_of_char [simp]: "unat (of_nat (of_char c) :: u8) = of_char c"
  by (simp add: unat_of_nat take_bit_nat_eq_self)

lemma of_as_bytes [simp]: "of_bytes (as_bytes s) = s"
  by (simp add: of_bytes_def as_bytes_def comp_def)

lemma length_bytes [simp]:
  "length (as_bytes s) = length s"
  "length (of_bytes bs) = length bs"
  by (simp_all add: as_bytes_def of_bytes_def)

lemma as_bytes_inject [simp]: "as_bytes s = as_bytes t \<longleftrightarrow> s = t"
  by (metis of_as_bytes)

section \<open>UTF-8\<close>

text \<open>
  The ranges of the octets that follow a lead octet (Unicode, table 3-7), and the scan of one
  sequence: its octets consumed and whether it is well formed. An ill-formed sequence consumes its
  maximal subpart.
\<close>

definition utf8_tails :: "nat \<Rightarrow> (nat \<times> nat) list option" where
  "utf8_tails b =
     (if b < 0x80 then Some []
      else if b < 0xC2 then None
      else if b < 0xE0 then Some [(0x80, 0xBF)]
      else if b = 0xE0 then Some [(0xA0, 0xBF), (0x80, 0xBF)]
      else if b = 0xED then Some [(0x80, 0x9F), (0x80, 0xBF)]
      else if b < 0xF0 then Some [(0x80, 0xBF), (0x80, 0xBF)]
      else if b = 0xF0 then Some [(0x90, 0xBF), (0x80, 0xBF), (0x80, 0xBF)]
      else if b < 0xF4 then Some [(0x80, 0xBF), (0x80, 0xBF), (0x80, 0xBF)]
      else if b = 0xF4 then Some [(0x80, 0x8F), (0x80, 0xBF), (0x80, 0xBF)]
      else None)"

fun match_ranges :: "(nat \<times> nat) list \<Rightarrow> bytes \<Rightarrow> nat" where
  "match_ranges ((lo, hi) # rs) (b # bs) =
     (if lo \<le> unat b \<and> unat b \<le> hi then Suc (match_ranges rs bs) else 0)"
| "match_ranges _ _ = 0"

definition utf8_step :: "u8 \<Rightarrow> bytes \<Rightarrow> nat \<times> bool" where
  "utf8_step b bs =
     (case utf8_tails (unat b) of
        None \<Rightarrow> (0, False)
      | Some rs \<Rightarrow> let k = match_ranges rs bs in (k, k = length rs))"

text \<open>The index of the first ill-formed sequence, and its length unless the input ends in it.\<close>

fun utf8_error :: "nat \<Rightarrow> bytes \<Rightarrow> (nat \<times> nat option) option" where
  "utf8_error i [] = None"
| "utf8_error i (b # bs) =
     (let (k, ok) = utf8_step b bs
      in if ok then utf8_error (i + Suc k) (drop k bs)
         else Some (i, if utf8_tails (unat b) \<noteq> None \<and> k = length bs then None else Some (Suc k)))"

definition from_utf8 :: "bytes \<Rightarrow> string result" where
  "from_utf8 bs =
     (case utf8_error 0 bs of
        None \<Rightarrow> Inr (of_bytes bs)
      | Some (i, None) \<Rightarrow> Inl (''incomplete utf-8 byte sequence from index '' @ show_nat i)
      | Some (i, Some n) \<Rightarrow>
          Inl (''invalid utf-8 sequence of '' @ show_nat n @ '' bytes from index '' @ show_nat i))"

definition replacement_character :: string where
  "replacement_character = [CHR 0xEF, CHR 0xBF, CHR 0xBD]"

fun from_utf8_lossy :: "bytes \<Rightarrow> string" where
  "from_utf8_lossy [] = []"
| "from_utf8_lossy (b # bs) =
     (let (k, ok) = utf8_step b bs
      in (if ok then of_bytes (b # take k bs) else replacement_character)
         @ from_utf8_lossy (drop k bs))"

lemma from_utf8_Inr: "from_utf8 bs = Inr s \<Longrightarrow> s = of_bytes bs"
  by (auto simp: from_utf8_def split: option.splits)

lemma from_utf8_ascii: "list_all (\<lambda>b. unat b < 128) bs \<Longrightarrow> from_utf8 bs = Inr (of_bytes bs)"
proof -
  have "list_all (\<lambda>b. unat b < 128) bs \<Longrightarrow> utf8_error i bs = None" for i
    by (induction bs arbitrary: i) (simp_all add: utf8_step_def utf8_tails_def)
  then show "list_all (\<lambda>b. unat b < 128) bs \<Longrightarrow> from_utf8 bs = Inr (of_bytes bs)"
    by (simp add: from_utf8_def)
qed

section \<open>White space\<close>

text \<open>The encodings of the characters with the \<open>White_Space\<close> property.\<close>

definition white_space :: "string list" where
  "white_space =
     [[CHR 0x09], [CHR 0x0A], [CHR 0x0B], [CHR 0x0C], [CHR 0x0D], [CHR 0x20],
      [CHR 0xC2, CHR 0x85], [CHR 0xC2, CHR 0xA0], [CHR 0xE1, CHR 0x9A, CHR 0x80],
      [CHR 0xE2, CHR 0x80, CHR 0x80], [CHR 0xE2, CHR 0x80, CHR 0x81],
      [CHR 0xE2, CHR 0x80, CHR 0x82], [CHR 0xE2, CHR 0x80, CHR 0x83],
      [CHR 0xE2, CHR 0x80, CHR 0x84], [CHR 0xE2, CHR 0x80, CHR 0x85],
      [CHR 0xE2, CHR 0x80, CHR 0x86], [CHR 0xE2, CHR 0x80, CHR 0x87],
      [CHR 0xE2, CHR 0x80, CHR 0x88], [CHR 0xE2, CHR 0x80, CHR 0x89],
      [CHR 0xE2, CHR 0x80, CHR 0x8A], [CHR 0xE2, CHR 0x80, CHR 0xA8],
      [CHR 0xE2, CHR 0x80, CHR 0xA9], [CHR 0xE2, CHR 0x80, CHR 0xAF],
      [CHR 0xE2, CHR 0x81, CHR 0x9F], [CHR 0xE3, CHR 0x80, CHR 0x80]]"

lemma white_space_nonempty: "p \<in> set white_space \<Longrightarrow> p \<noteq> []"
  by (auto simp: white_space_def)

fun strip_any :: "string list \<Rightarrow> string \<Rightarrow> string" where
  "strip_any ps [] = []"
| "strip_any ps (c # s) =
     (case List.find (\<lambda>p. p \<noteq> [] \<and> starts_with (c # s) p) ps of
        None \<Rightarrow> c # s
      | Some p \<Rightarrow> strip_any ps (drop (length p - 1) s))"

definition trim_start :: "string \<Rightarrow> string" where
  "trim_start s = strip_any white_space s"

definition trim_end :: "string \<Rightarrow> string" where
  "trim_end s = rev (strip_any (map rev white_space) (rev s))"

definition trim :: "string \<Rightarrow> string" where
  "trim s = trim_end (trim_start s)"

lemma strip_any_suffix: "\<exists>t. s = t @ strip_any ps s"
proof (induction ps s rule: strip_any.induct)
  case (1 ps)
  then show ?case by simp
next
  case (2 ps c s)
  show ?case
  proof (cases "List.find (\<lambda>p. p \<noteq> [] \<and> starts_with (c # s) p) ps")
    case None
    then show ?thesis by (intro exI [of _ "[]"]) simp
  next
    case (Some p)
    then obtain t where "drop (length p - 1) s = t @ strip_any ps (drop (length p - 1) s)"
      using 2 by blast
    then have "c # s = (c # take (length p - 1) s @ t) @ strip_any ps (drop (length p - 1) s)"
      by (metis append_Cons append_assoc append_take_drop_id)
    moreover have "strip_any ps (c # s) = strip_any ps (drop (length p - 1) s)"
      using Some by simp
    ultimately show ?thesis by metis
  qed
qed

lemma strip_any_head:
  "strip_any ps s = c # t \<Longrightarrow> p \<in> set ps \<Longrightarrow> p \<noteq> [] \<Longrightarrow> \<not> starts_with (c # t) p"
proof (induction ps s rule: strip_any.induct)
  case (1 ps)
  then show ?case by simp
next
  case (2 ps d s)
  show ?case
  proof (cases "List.find (\<lambda>p. p \<noteq> [] \<and> starts_with (d # s) p) ps")
    case None
    with 2 show ?thesis by (auto simp: find_None_iff)
  next
    case (Some q)
    with 2 show ?thesis by simp
  qed
qed

text \<open>What \<open>trim\<close> returns is a part of its input that neither begins nor ends with white space.\<close>

lemma trim_part: "\<exists>a b. s = a @ trim s @ b"
proof -
  obtain a where a: "s = a @ trim_start s"
    using strip_any_suffix [of s white_space] by (auto simp: trim_start_def)
  obtain b where "rev (trim_start s) = b @ strip_any (map rev white_space) (rev (trim_start s))"
    using strip_any_suffix by blast
  then have "trim_start s = trim s @ rev b"
    unfolding trim_def trim_end_def by (metis rev_append rev_rev_ident)
  with a show ?thesis by metis
qed

lemma trim_no_line_feed_end: "trim s \<noteq> [] \<Longrightarrow> last (trim s) \<noteq> char_lf"
proof
  let ?r = "strip_any (map rev white_space) (rev (trim_start s))"
  assume ne: "trim s \<noteq> []" and lf: "last (trim s) = char_lf"
  then obtain t where r: "?r = char_lf # t"
    by (cases ?r) (auto simp: trim_def trim_end_def)
  have "[char_lf] \<in> set (map rev white_space)" by (simp add: white_space_def)
  from strip_any_head [OF r this] show False by (simp add: starts_with_def)
qed

text \<open>\<open>split_whitespace\<close>, \<open>rsplit_once\<close> on a text, and \<open>parse::<i32>\<close>.\<close>

fun words_from :: "string \<Rightarrow> string \<Rightarrow> string list" where
  "words_from word [] = (if word = [] then [] else [word])"
| "words_from word (c # s) =
     (case List.find (\<lambda>p. p \<noteq> [] \<and> starts_with (c # s) p) white_space of
        None \<Rightarrow> words_from (word @ [c]) s
      | Some p \<Rightarrow> (if word = [] then [] else [word]) @ words_from [] (drop (length p - 1) s))"

definition split_whitespace :: "string \<Rightarrow> string list" where
  "split_whitespace s = words_from [] s"

definition rsplit_once :: "string \<Rightarrow> string \<Rightarrow> (string \<times> string) option" where
  "rsplit_once p s =
     map_option (\<lambda>i. (take i s, drop (i + length p) s))
       (List.find (\<lambda>i. starts_with (drop i s) p) (rev [0..<Suc (length s)]))"

definition parse_i32 :: "string \<Rightarrow> int option" where
  "parse_i32 s =
     (let minus = starts_with s ''-'';
          d = (if minus \<or> starts_with s ''+'' then drop 1 s else s);
          v = (if minus then - int (digits_val d) else int (digits_val d))
      in if d = [] \<or> \<not> list_all is_ascii_digit d \<or> v < - (2 ^ 31) \<or> 2 ^ 31 \<le> v then None else Some v)"

definition trim_end_newlines :: "string \<Rightarrow> string" where
  "trim_end_newlines s = rev (dropWhile (\<lambda>c. c = char_cr \<or> c = char_lf) (rev s))"

section \<open>Characters and hexadecimal\<close>

definition is_continuation :: "char \<Rightarrow> bool" where
  "is_continuation c \<longleftrightarrow> CHR 0x80 \<le> c \<and> c \<le> CHR 0xBF"

fun take_chars :: "nat \<Rightarrow> string \<Rightarrow> string" where
  "take_chars n [] = []"
| "take_chars n (c # s) =
     (if is_continuation c then c # take_chars n s
      else case n of 0 \<Rightarrow> [] | Suc m \<Rightarrow> c # take_chars m s)"

definition lower_hex_digit :: "nat \<Rightarrow> char" where
  "lower_hex_digit d = (if d < 10 then char_of (48 + d) else char_of (87 + d))"

definition upper_hex_digit :: "nat \<Rightarrow> char" where
  "upper_hex_digit d = (if d < 10 then char_of (48 + d) else char_of (55 + d))"

definition show_byte_02X :: "char \<Rightarrow> string" where
  "show_byte_02X c = [upper_hex_digit (of_char c div 16), upper_hex_digit (of_char c mod 16)]"

lemma take_chars_prefix: "\<exists>t. s = take_chars n s @ t"
proof (induction n s rule: take_chars.induct)
  case (1 n)
  then show ?case by simp
next
  case (2 n c s)
  then show ?case by (cases n) auto
qed

lemma upper_hex_digit_inject: "d < 16 \<Longrightarrow> e < 16 \<Longrightarrow> upper_hex_digit d = upper_hex_digit e \<longleftrightarrow> d = e"
proof -
  assume d: "d < 16" and e: "e < 16"
  have v: "of_char (upper_hex_digit x) = (if x < 10 then 48 + x else 55 + x :: nat)" if "x < 16" for x
    using that by (simp add: upper_hex_digit_def of_char_of)
  show ?thesis
  proof
    assume "upper_hex_digit d = upper_hex_digit e"
    then have "(if d < 10 then 48 + d else 55 + d) = (if e < 10 then 48 + e else 55 + e)"
      using v [OF d] v [OF e] by simp
    then show "d = e" by (simp split: if_splits)
  qed simp
qed

lemma show_byte_02X_inject [simp]: "show_byte_02X c = show_byte_02X d \<longleftrightarrow> c = d"
proof
  assume "show_byte_02X c = show_byte_02X d"
  moreover have "of_char c < (256::nat)" "of_char d < (256::nat)" by simp_all
  ultimately have "(of_char c :: nat) div 16 = of_char d div 16"
      and "(of_char c :: nat) mod 16 = of_char d mod 16"
    by (auto simp: show_byte_02X_def upper_hex_digit_inject)
  then have "(of_char c :: nat) = of_char d" by (metis div_mult_mod_eq)
  then show "c = d" by simp
qed simp

end
