(* ===== verification/Runtime.thy ===== *)
theory Runtime
  imports Text
begin

text \<open>
  What the tooling asks of the operating system, as the fields of a record \<open>os\<close> over the state \<open>'w\<close>
  of everything outside the program: bounded subprocesses (\<open>xtask/src/bounded_process.rs\<close>), the
  environment, files, sleeping and printing. The commands a function builds are data, so theorems
  can speak of them. \<open>logged_os\<close> records every subprocess, and \<open>emits\<close> reasons about such records.
\<close>

section \<open>Subprocesses\<close>

datatype env_edit = EnvSet string string | EnvRemove string

record command =
  cm_program :: string
  cm_args :: "string list"
  cm_dir :: "string option"
  cm_env :: "env_edit list"

definition command_new :: "string \<Rightarrow> command" where
  "command_new p = \<lparr>cm_program = p, cm_args = [], cm_dir = None, cm_env = []\<rparr>"

definition cmd_args :: "string list \<Rightarrow> command \<Rightarrow> command" where
  "cmd_args as c = c\<lparr>cm_args := cm_args c @ as\<rparr>"

definition current_dir :: "string \<Rightarrow> command \<Rightarrow> command" where
  "current_dir d c = c\<lparr>cm_dir := Some d\<rparr>"

definition env_remove :: "string \<Rightarrow> command \<Rightarrow> command" where
  "env_remove k c = c\<lparr>cm_env := cm_env c @ [EnvRemove k]\<rparr>"

definition env_set :: "string \<Rightarrow> string \<Rightarrow> command \<Rightarrow> command" where
  "env_set k v c = c\<lparr>cm_env := cm_env c @ [EnvSet k v]\<rparr>"

record output_limits =
  ol_stdout :: nat
  ol_stderr :: nat

record process_output =
  out_success :: bool
  out_status :: string
  out_stdout :: bytes
  out_stderr :: bytes

datatype io_kind =
  IO_NotFound | IO_AlreadyExists | IO_InvalidInput | IO_InvalidData | IO_TimedOut | IO_WouldBlock |
  IO_BrokenPipe | IO_WriteZero | IO_Errno nat | IO_Other

record io_error =
  ie_kind :: io_kind
  ie_text :: string

definition VALIDATION_OUTPUT_LIMITS :: output_limits where
  "VALIDATION_OUTPUT_LIMITS = \<lparr>ol_stdout = 4 * 1024 * 1024, ol_stderr = 64 * 1024\<rparr>"

section \<open>The operating system\<close>

text \<open>The metadata of a directory entry, symbolic links not followed.\<close>

record file_metadata =
  fm_is_file :: bool
  fm_is_symlink :: bool
  fm_permissions :: nat

text \<open>
  \<open>out_status\<close> is the exit status as \<open>Display\<close> prints it.
  \<open>os_output\<close> is \<open>bounded_process::output\<close> and, with input, \<open>output_with_input\<close>;
  \<open>os_status\<close> is \<open>Command::status\<close> with inherited streams, giving success and status. \<open>os_var\<close> is
  \<open>env::var\<close> (absent also when the value is not Unicode), \<open>os_vars\<close> the names \<open>env::vars_os\<close> lists,
  \<open>os_read_manifest\<close> is \<open>safe_file::read_manifest\<close>, \<open>os_var_os\<close> is \<open>env::var_os\<close>,
  \<open>os_append_open\<close> opens a file for appending and \<open>os_append_write\<close> writes to it, \<open>os_tempdir\<close> creates a private temporary directory. The \<open>os_temp\<close> operations
  are those of \<open>NamedTempFile\<close>, on the name of the temporary file.
\<close>

record 'w os =
  os_output :: "command \<Rightarrow> bytes option \<Rightarrow> output_limits \<Rightarrow> ('w, io_error, process_output) eff"
  os_status :: "command \<Rightarrow> ('w, io_error, bool \<times> string) eff"
  os_var :: "string \<Rightarrow> 'w \<Rightarrow> string option"
  os_var_os :: "string \<Rightarrow> 'w \<Rightarrow> string option"
  os_vars :: "'w \<Rightarrow> string list"
  os_canonicalize :: "string \<Rightarrow> ('w, string, string) eff"
  os_read_manifest :: "string \<Rightarrow> string \<Rightarrow> ('w, string, string) eff"
  os_append_open :: "string \<Rightarrow> ('w, string, string) eff"
  os_append_write :: "string \<Rightarrow> string \<Rightarrow> ('w, string, unit) eff"
  os_tempdir :: "('w, string, string) eff"
  os_symlink_metadata :: "string \<Rightarrow> ('w, string, file_metadata) eff"
  os_temp_new :: "string \<Rightarrow> ('w, string, string) eff"
  os_temp_write :: "string \<Rightarrow> bytes \<Rightarrow> ('w, string, unit) eff"
  os_temp_permissions :: "string \<Rightarrow> nat \<Rightarrow> ('w, string, unit) eff"
  os_temp_sync :: "string \<Rightarrow> ('w, string, unit) eff"
  os_temp_persist :: "string \<Rightarrow> string \<Rightarrow> ('w, string, unit) eff"
  os_sleep :: "nat \<Rightarrow> 'w \<Rightarrow> 'w"
  os_print :: "string \<Rightarrow> 'w \<Rightarrow> 'w"

definition readE :: "('w \<Rightarrow> 'a) \<Rightarrow> ('w, 'e, 'a) eff" where
  "readE f = (\<lambda>w. (Inr (f w), w))"

definition modifyE :: "('w \<Rightarrow> 'w) \<Rightarrow> ('w, 'e, unit) eff" where
  "modifyE f = (\<lambda>w. (Inr (), f w))"

lemma readE_Inr [res_simps]: "readE f w = (Inr y, w') \<longleftrightarrow> y = f w \<and> w' = w"
  by (auto simp: readE_def)

lemma modifyE_Inr [res_simps]: "modifyE f w = (Inr y, w') \<longleftrightarrow> w' = f w"
  by (auto simp: modifyE_def)

text \<open>\<open>Path::starts_with\<close> compares whole components of absolute paths.\<close>

definition path_starts_with :: "string \<Rightarrow> string \<Rightarrow> bool" where
  "path_starts_with p q \<longleftrightarrow>
     (let ps = filter (\<lambda>c. c \<noteq> []) (split_char (CHR ''/'') p);
          qs = filter (\<lambda>c. c \<noteq> []) (split_char (CHR ''/'') q)
      in take (length qs) ps = qs)"

text \<open>An effect beside a state it does not touch, and a whole machine beside one.\<close>

definition beside :: "('w, 'e, 'a) eff \<Rightarrow> ('w \<times> 'c, 'e, 'a) eff" where
  "beside m = (\<lambda>(w, c). case m w of (r, w') \<Rightarrow> (r, (w', c)))"

definition beside_os :: "'w os \<Rightarrow> ('w \<times> 'c) os" where
  "beside_os os' =
     \<lparr>os_output = (\<lambda>c input limits. beside (os_output os' c input limits)),
      os_status = (\<lambda>c. beside (os_status os' c)),
      os_var = (\<lambda>k s. os_var os' k (fst s)), os_var_os = (\<lambda>k s. os_var_os os' k (fst s)),
      os_vars = (\<lambda>s. os_vars os' (fst s)),
      os_canonicalize = (\<lambda>p. beside (os_canonicalize os' p)),
      os_read_manifest = (\<lambda>r p. beside (os_read_manifest os' r p)),
      os_append_open = (\<lambda>p. beside (os_append_open os' p)),
      os_append_write = (\<lambda>p s. beside (os_append_write os' p s)),
      os_tempdir = beside (os_tempdir os'),
      os_symlink_metadata = (\<lambda>p. beside (os_symlink_metadata os' p)),
      os_temp_new = (\<lambda>p. beside (os_temp_new os' p)),
      os_temp_write = (\<lambda>p b. beside (os_temp_write os' p b)),
      os_temp_permissions = (\<lambda>p n. beside (os_temp_permissions os' p n)),
      os_temp_sync = (\<lambda>p. beside (os_temp_sync os' p)),
      os_temp_persist = (\<lambda>p q. beside (os_temp_persist os' p q)),
      os_sleep = (\<lambda>n s. (os_sleep os' n (fst s), snd s)),
      os_print = (\<lambda>text s. (os_print os' text (fst s), snd s))\<rparr>"

section \<open>Logs of effects\<close>

text \<open>
  An effect over \<open>'w \<times> 'c list\<close> that only appends to the list \<open>emits Q\<close> when every run appends a list
  \<open>Q\<close> allows for the run's result. The rules follow the combinators.
\<close>

definition emits :: "('c list \<Rightarrow> 'e + 'a \<Rightarrow> bool) \<Rightarrow> ('w \<times> 'c list, 'e, 'a) eff \<Rightarrow> bool" where
  "emits Q m \<longleftrightarrow> (\<forall>w l r w' l'. m (w, l) = (r, (w', l')) \<longrightarrow> (\<exists>d. l' = l @ d \<and> Q d r))"

definition seq_post ::
  "('c list \<Rightarrow> 'e + 'a \<Rightarrow> bool) \<Rightarrow> ('a \<Rightarrow> 'c list \<Rightarrow> 'e + 'b \<Rightarrow> bool) \<Rightarrow> 'c list \<Rightarrow> 'e + 'b \<Rightarrow> bool" where
  "seq_post Q R d r \<longleftrightarrow>
     (\<exists>e. r = Inl e \<and> Q d (Inl e)) \<or> (\<exists>x d1 d2. d = d1 @ d2 \<and> Q d1 (Inr x) \<and> R x d2 r)"

definition silent :: "'c list \<Rightarrow> 'e + 'a \<Rightarrow> bool" where
  "silent d r \<longleftrightarrow> d = []"

lemma emits_weaken: "emits Q m \<Longrightarrow> (\<And>d r. Q d r \<Longrightarrow> R d r) \<Longrightarrow> emits R m"
  unfolding emits_def by blast

lemma emitsD: "emits Q m \<Longrightarrow> m (w, l) = (r, (w', l')) \<Longrightarrow> \<exists>d. l' = l @ d \<and> Q d r"
  unfolding emits_def by blast

lemma emits_okE: "emits (\<lambda>d r. d = [] \<and> r = Inr x) (okE x)"
  by (auto simp: emits_def okE_def)

lemma emits_failE: "emits (\<lambda>d r. d = [] \<and> r = Inl e) (failE e)"
  by (auto simp: emits_def failE_def)

lemma emits_liftE: "emits (\<lambda>d r. d = [] \<and> r = x) (liftE x)"
  by (auto simp: emits_def liftE_def)

lemma emits_fail_ifE: "emits (\<lambda>d r. d = [] \<and> r = (if b then Inl e else Inr ())) (fail_ifE b e)"
  by (auto simp: emits_def fail_ifE_def liftE_def fail_if_def)

lemma emits_beside: "emits silent (beside m)"
  by (auto simp: emits_def beside_def silent_def split: prod.splits)

lemma emits_bindE:
  assumes "emits Q m" and "\<And>x. emits (R x) (f x)"
  shows "emits (seq_post Q R) (bindE m f)"
  unfolding emits_def
proof (intro allI impI)
  fix w l r w' l'
  assume b: "bindE m f (w, l) = (r, w', l')"
  obtain r1 w1 l1 where m: "m (w, l) = (r1, (w1, l1))" by (cases "m (w, l)") auto
  with assms(1) obtain d1 where d1: "l1 = l @ d1" "Q d1 r1" unfolding emits_def by blast
  show "\<exists>d. l' = l @ d \<and> seq_post Q R d r"
  proof (cases r1)
    case (Inl e)
    with b m d1 show ?thesis by (auto simp: bindE_def seq_post_def)
  next
    case (Inr x)
    with b m have "f x (w1, l1) = (r, (w', l'))" by (simp add: bindE_def)
    with assms(2) [of x] obtain d2 where "l' = l1 @ d2" "R x d2 r" unfolding emits_def by blast
    with d1 Inr show ?thesis by (auto simp: seq_post_def)
  qed
qed

lemma emits_map_errE:
  "emits Q m \<Longrightarrow> emits (\<lambda>d r. \<exists>r'. Q d r' \<and> r = map_err f r') (map_errE f m)"
  unfolding emits_def map_errE_def by (auto split: prod.splits) blast

lemma emits_attemptE: "emits Q m \<Longrightarrow> emits (\<lambda>d r. \<exists>r'. Q d r' \<and> r = Inr r') (attemptE m)"
  unfolding emits_def attemptE_def by (auto split: prod.splits)

lemma emits_if: "(b \<Longrightarrow> emits Q m) \<Longrightarrow> (\<not> b \<Longrightarrow> emits Q m') \<Longrightarrow> emits Q (if b then m else m')"
  by simp

lemma emits_readE: "emits silent (readE f)"
  by (auto simp: emits_def readE_def silent_def)

lemma seq_post_silent: "seq_post silent (\<lambda>_. Q) d r \<Longrightarrow> silent d r \<or> Q d r"
  by (auto simp: seq_post_def silent_def)

section \<open>Logged subprocesses\<close>

datatype process_run =
    Bounded command "bytes option" output_limits
  | Inherited command
  | Captured command

definition logged_os :: "'w os \<Rightarrow> ('w \<times> process_run list) os" where
  "logged_os os' =
     \<lparr>os_output = (\<lambda>c input limits (w, l). case os_output os' c input limits w of
         (r, w') \<Rightarrow> (r, (w', l @ [Bounded c input limits]))),
      os_status = (\<lambda>c (w, l). case os_status os' c w of (r, w') \<Rightarrow> (r, (w', l @ [Inherited c]))),
      os_var = (\<lambda>k (w, l). os_var os' k w),
      os_var_os = (\<lambda>k (w, l). os_var_os os' k w),
      os_vars = (\<lambda>(w, l). os_vars os' w),
      os_canonicalize = (\<lambda>p. beside (os_canonicalize os' p)),
      os_read_manifest = (\<lambda>r p. beside (os_read_manifest os' r p)),
      os_append_open = (\<lambda>p. beside (os_append_open os' p)),
      os_append_write = (\<lambda>p s. beside (os_append_write os' p s)),
      os_tempdir = beside (os_tempdir os'),
      os_symlink_metadata = (\<lambda>p. beside (os_symlink_metadata os' p)),
      os_temp_new = (\<lambda>p. beside (os_temp_new os' p)),
      os_temp_write = (\<lambda>p b. beside (os_temp_write os' p b)),
      os_temp_permissions = (\<lambda>p n. beside (os_temp_permissions os' p n)),
      os_temp_sync = (\<lambda>p. beside (os_temp_sync os' p)),
      os_temp_persist = (\<lambda>p q. beside (os_temp_persist os' p q)),
      os_sleep = (\<lambda>n (w, l). (os_sleep os' n w, l)),
      os_print = (\<lambda>s (w, l). (os_print os' s w, l))\<rparr>"

lemma emits_os_output:
  "emits (\<lambda>d r. d = [Bounded c input limits]) (os_output (logged_os os') c input limits)"
  by (auto simp: emits_def logged_os_def split: prod.splits)

lemma emits_os_sleep: "emits silent (modifyE (os_sleep (logged_os os') n))"
  by (auto simp: emits_def logged_os_def modifyE_def silent_def)

lemma emits_os_print: "emits silent (modifyE (os_print (logged_os os') s))"
  by (auto simp: emits_def logged_os_def modifyE_def silent_def)

section \<open>A scripted operating system\<close>

text \<open>
  An instance of \<open>os\<close> for concrete runs: subprocesses print what a script says for their program and
  arguments, or fail; the environment and the files are given; nothing changes the state.
\<close>

definition scripted_os ::
  "(string list \<Rightarrow> string option) \<Rightarrow> (string \<Rightarrow> string option) \<Rightarrow> (string \<Rightarrow> string option) \<Rightarrow> 'w os" where
  "scripted_os script env files =
     \<lparr>os_output = (\<lambda>c input limits. okE (case script (cm_program c # cm_args c) of
         Some s \<Rightarrow> \<lparr>out_success = True, out_status = ''exit status: 0'', out_stdout = as_bytes s,
                    out_stderr = []\<rparr>
       | None \<Rightarrow> \<lparr>out_success = False, out_status = ''exit status: 1'', out_stdout = [],
                  out_stderr = as_bytes ''no such command''\<rparr>)),
      os_status = (\<lambda>c. okE (True, ''exit status: 0'')),
      os_var = (\<lambda>k w. env k), os_var_os = (\<lambda>k w. env k), os_vars = (\<lambda>w. []),
      os_canonicalize = okE,
      os_read_manifest = (\<lambda>r p. case files p of None \<Rightarrow> failE ''not found'' | Some s \<Rightarrow> okE s),
      os_append_open = okE, os_append_write = (\<lambda>p s. okE ()), os_tempdir = okE ''/tmp/scratch'',
      os_symlink_metadata = (\<lambda>p. okE \<lparr>fm_is_file = True, fm_is_symlink = False, fm_permissions = 420\<rparr>),
      os_temp_new = okE, os_temp_write = (\<lambda>p b. okE ()), os_temp_permissions = (\<lambda>p n. okE ()),
      os_temp_sync = (\<lambda>p. okE ()), os_temp_persist = (\<lambda>p q. okE ()),
      os_sleep = (\<lambda>n w. w), os_print = (\<lambda>s w. w)\<rparr>"

definition script_of :: "(string list \<times> string) list \<Rightarrow> string list \<Rightarrow> string option" where
  "script_of entries key = map_of entries key"

end
