(* ===== verification/Transport.thy ===== *)
theory Transport
  imports Runtime
begin

text \<open>
  \<open>xtask/src/github/transport.rs\<close>: the injected GitHub transport, its implementation on the \<open>gh\<close>
  command line with bounded retries of reads, and the encoding of path values. The trait is a
  record of its methods over a type \<open>'j\<close> of undecoded payloads; the type parameter
  \<open>T: DeserializeOwned\<close> of a read is the decoder the caller passes. The JSON encoder
  (\<open>serde_json::to_vec\<close>) is a parameter.
\<close>

section \<open>Payloads\<close>

text \<open>\<open>serde_json::Value\<close> as the \<open>json!\<close> literals build it.\<close>

datatype json =
    JNull
  | JBool bool
  | JNum u64
  | JStr string
  | JArr "json list"
  | JObj "(string \<times> json) list"

definition MAX_RESPONSE_BYTES :: nat where
  "MAX_RESPONSE_BYTES = 2 * 1024 * 1024"

definition MAX_ERROR_BYTES :: nat where
  "MAX_ERROR_BYTES = 64 * 1024"

definition READ_ATTEMPTS :: nat where
  "READ_ATTEMPTS = 3"

definition GITHUB_API_VERSION :: string where
  "GITHUB_API_VERSION = ''2026-03-10''"

definition GITHUB_JSON_MEDIA_TYPE :: string where
  "GITHUB_JSON_MEDIA_TYPE = ''application/vnd.github+json''"

section \<open>The trait\<close>

text \<open>\<open>t_invalid\<close> is the message for a payload the requested type cannot be decoded from.\<close>

record ('w, 'j) transport =
  t_get :: "string \<Rightarrow> ('w, 'j) io"
  t_get_optional :: "string \<Rightarrow> ('w, 'j option) io"
  t_graphql :: "json \<Rightarrow> ('w, 'j) io"
  t_mutate :: "string \<Rightarrow> string \<Rightarrow> json \<Rightarrow> ('w, 'j) io"
  t_invalid :: "string \<Rightarrow> string \<Rightarrow> string \<Rightarrow> string"

type_synonym ('j, 'a) decoder = "'j \<Rightarrow> 'a result"

definition decode :: "('w, 'j) transport \<Rightarrow> string \<Rightarrow> string \<Rightarrow> ('j, 'a) decoder \<Rightarrow> 'j \<Rightarrow> 'a result" where
  "decode gh verb path de body = map_err (t_invalid gh verb path) (de body)"

definition get :: "('w, 'j) transport \<Rightarrow> ('j, 'a) decoder \<Rightarrow> string \<Rightarrow> ('w, 'a) io" where
  "get gh de path = bindE (t_get gh path) (\<lambda>body. liftE (decode gh ''GET'' path de body))"

definition get_optional ::
  "('w, 'j) transport \<Rightarrow> ('j, 'a) decoder \<Rightarrow> string \<Rightarrow> ('w, 'a option) io" where
  "get_optional gh de path =
     bindE (t_get_optional gh path) (\<lambda>body.
       case body of
         None \<Rightarrow> okE None
       | Some b \<Rightarrow> bindE (liftE (decode gh ''GET'' path de b)) (\<lambda>x. okE (Some x)))"

definition graphql :: "('w, 'j) transport \<Rightarrow> ('j, 'a) decoder \<Rightarrow> json \<Rightarrow> ('w, 'a) io" where
  "graphql gh de payload =
     bindE (t_graphql gh payload) (\<lambda>body. liftE (decode gh ''POST'' ''graphql'' de body))"

definition mutate ::
  "('w, 'j) transport \<Rightarrow> ('j, 'a) decoder \<Rightarrow> string \<Rightarrow> string \<Rightarrow> json \<Rightarrow> ('w, 'a) io" where
  "mutate gh de verb path payload =
     bindE (t_mutate gh verb path payload) (\<lambda>body. liftE (decode gh verb path de body))"

section \<open>Errors of the command line\<close>

datatype RequestError = Req_NotFound | Req_Transient string | Req_Permanent string

fun request_message :: "RequestError \<Rightarrow> string" where
  "request_message Req_NotFound = ''GitHub object was not found''"
| "request_message (Req_Transient m) = m"
| "request_message (Req_Permanent m) = m"

fun first_line :: "string \<Rightarrow> string \<Rightarrow> string" where
  "first_line dflt s = (case lines s of [] \<Rightarrow> dflt | l # _ \<Rightarrow> l)"

definition redacted_error :: "string \<Rightarrow> string \<Rightarrow> string \<Rightarrow> string" where
  "redacted_error verb path detail =
     verb @ '' '' @ path @ '' failed: '' @ take_chars 512 (first_line ''request failed'' detail)"

definition is_not_found :: "string \<Rightarrow> bool" where
  "is_not_found detail \<longleftrightarrow> contains detail ''HTTP 404'' \<or> contains detail ''(HTTP 404)''"

definition is_transient :: "string \<Rightarrow> bool" where
  "is_transient detail \<longleftrightarrow>
     list_ex (contains detail)
       [''HTTP 429'', ''HTTP 502'', ''HTTP 503'', ''HTTP 504'', ''timeout'', ''timed out'']"

fun is_transient_error :: "RequestError \<Rightarrow> bool" where
  "is_transient_error (Req_Transient m) = True"
| "is_transient_error _ = False"

section \<open>Requests\<close>

definition gh_new :: "'w os \<Rightarrow> ('w, unit) io" where
  "gh_new os' =
     bindE (map_errE (\<lambda>e. ''run gh: '' @ ie_text e)
       (os_output os' (cmd_args [''--version''] (command_new ''gh'')) None
         \<lparr>ol_stdout = MAX_ERROR_BYTES, ol_stderr = MAX_ERROR_BYTES\<rparr>)) (\<lambda>out.
     fail_ifE (\<not> out_success out) ''gh is unavailable'')"

definition invalid_request :: "string \<Rightarrow> string \<Rightarrow> bool" where
  "invalid_request verb path \<longleftrightarrow>
     verb \<notin> {''GET'', ''POST''} \<or> path = [] \<or>
     list_ex (\<lambda>c. c = char_nul \<or> c = char_cr \<or> c = char_lf) path"

definition request_command :: "string \<Rightarrow> string \<Rightarrow> bytes option \<Rightarrow> command" where
  "request_command verb path payload =
     (let c = cmd_args
        [''api'', ''--method'', verb, ''--header'', ''Accept: '' @ GITHUB_JSON_MEDIA_TYPE,
         ''--header'', ''X-GitHub-Api-Version: '' @ GITHUB_API_VERSION, path] (command_new ''gh'')
      in if payload \<noteq> None then cmd_args [''--input'', ''-''] c else c)"

definition request_limits :: output_limits where
  "request_limits = \<lparr>ol_stdout = MAX_RESPONSE_BYTES, ol_stderr = MAX_ERROR_BYTES\<rparr>"

definition classify_failure :: "string \<Rightarrow> string \<Rightarrow> bool \<Rightarrow> string \<Rightarrow> RequestError" where
  "classify_failure verb path read detail =
     (if is_not_found detail then Req_NotFound
      else if read \<and> is_transient detail then Req_Transient (redacted_error verb path detail)
      else Req_Permanent (redacted_error verb path detail))"

text \<open>The loop \<open>for attempt in 1..=attempts\<close>, over the attempts that remain.\<close>

primrec request_attempts ::
  "'w os \<Rightarrow> string \<Rightarrow> string \<Rightarrow> bytes option \<Rightarrow> bool \<Rightarrow> nat \<Rightarrow> nat list \<Rightarrow> RequestError option \<Rightarrow>
   ('w, RequestError, bytes) eff" where
  "request_attempts os' verb path payload read attempts [] prev =
     failE (case prev of Some e \<Rightarrow> e | None \<Rightarrow> Req_Permanent ''GitHub request failed'')"
| "request_attempts os' verb path payload read attempts (attempt # rest) prev =
     bindE (map_errE (\<lambda>e. Req_Permanent (''run gh api: '' @ ie_text e))
       (os_output os' (request_command verb path payload) payload request_limits)) (\<lambda>out.
     if out_success out then okE (out_stdout out)
     else
       let error = classify_failure verb path read (trim (from_utf8_lossy (out_stderr out)))
       in if \<not> is_transient_error error \<or> attempt = attempts then failE error
          else bindE (modifyE (os_sleep os' attempt)) (\<lambda>_.
               request_attempts os' verb path payload read attempts rest (Some error)))"

definition request ::
  "'w os \<Rightarrow> string \<Rightarrow> string \<Rightarrow> bytes option \<Rightarrow> bool \<Rightarrow> ('w, RequestError, bytes) eff" where
  "request os' verb path payload read =
     (if invalid_request verb path then failE (Req_Permanent ''invalid GitHub request'')
      else
        let attempts = (if read then READ_ATTEMPTS else 1)
        in request_attempts os' verb path payload read attempts [1..<Suc attempts] None)"

definition gh_get_optional :: "'w os \<Rightarrow> string \<Rightarrow> ('w, bytes option) io" where
  "gh_get_optional os' path =
     bindE (attemptE (request os' ''GET'' path None True)) (\<lambda>r.
       case r of
         Inr body \<Rightarrow> okE (Some body)
       | Inl Req_NotFound \<Rightarrow> okE None
       | Inl e \<Rightarrow> failE (request_message e))"

definition gh_graphql :: "'w os \<Rightarrow> (json \<Rightarrow> bytes result) \<Rightarrow> json \<Rightarrow> ('w, bytes) io" where
  "gh_graphql os' to_vec payload =
     bindE (liftE (map_err (\<lambda>e. ''serialize GitHub GraphQL request: '' @ e) (to_vec payload))) (\<lambda>body.
     bindE (fail_ifE (MAX_RESPONSE_BYTES < length body)
       ''GitHub GraphQL request exceeded its bound'') (\<lambda>_.
     map_errE request_message (request os' ''POST'' ''graphql'' (Some body) True)))"

definition gh_mutate ::
  "'w os \<Rightarrow> (json \<Rightarrow> bytes result) \<Rightarrow> string \<Rightarrow> string \<Rightarrow> json \<Rightarrow> ('w, bytes) io" where
  "gh_mutate os' to_vec verb path payload =
     bindE (fail_ifE (verb \<noteq> ''POST'') ''GitHub mutation method is unsupported'') (\<lambda>_.
     bindE (liftE (map_err (\<lambda>e. ''serialize GitHub request: '' @ e) (to_vec payload))) (\<lambda>body.
     bindE (fail_ifE (MAX_RESPONSE_BYTES < length body) ''GitHub request exceeded its bound'') (\<lambda>_.
     map_errE request_message (request os' verb path (Some body) False))))"

definition gh_transport :: "'w os \<Rightarrow> (json \<Rightarrow> bytes result) \<Rightarrow> ('w, bytes) transport" where
  "gh_transport os' to_vec =
     \<lparr>t_get = (\<lambda>path. map_errE request_message (request os' ''GET'' path None True)),
      t_get_optional = gh_get_optional os',
      t_graphql = gh_graphql os' to_vec,
      t_mutate = gh_mutate os' to_vec,
      t_invalid = (\<lambda>verb path e. verb @ '' '' @ path @ '' returned invalid JSON: '' @ e)\<rparr>"

section \<open>Retries\<close>

definition request_run :: "string \<Rightarrow> string \<Rightarrow> bytes option \<Rightarrow> process_run" where
  "request_run verb path payload = Bounded (request_command verb path payload) payload request_limits"

definition runs_upto :: "nat \<Rightarrow> process_run \<Rightarrow> process_run list \<Rightarrow> 'e + 'a \<Rightarrow> bool" where
  "runs_upto k c d r \<longleftrightarrow> (\<exists>n. n \<le> k \<and> d = replicate n c \<and> (n = 0 \<longrightarrow> \<not> is_ok r))"

lemma runs_upto_map_err: "runs_upto k c d (map_err f r) \<longleftrightarrow> runs_upto k c d r"
  by (cases r) (simp_all add: runs_upto_def)

lemma request_attempts_emits:
  "emits (runs_upto (length as) (request_run verb path payload))
     (request_attempts (logged_os os') verb path payload read n as prev)"
proof (induction as arbitrary: prev)
  case Nil
  show ?case
    unfolding request_attempts.simps
    by (rule emits_weaken [OF emits_failE]) (simp add: runs_upto_def)
next
  case (Cons a as)
  let ?c = "request_run verb path payload"
  have first: "emits (\<lambda>d r. d = [?c])
      (map_errE (\<lambda>e. Req_Permanent (''run gh api: '' @ ie_text e))
        (os_output (logged_os os') (request_command verb path payload) payload request_limits))"
    by (rule emits_weaken [OF emits_map_errE [OF emits_os_output]]) (auto simp: request_run_def)
  have more: "emits (runs_upto (length as) ?c) (bindE (modifyE (os_sleep (logged_os os') a)) (\<lambda>_.
      request_attempts (logged_os os') verb path payload read n as (Some e)))" for e
    by (rule emits_weaken [OF emits_bindE [OF emits_os_sleep Cons.IH [of "Some e"]]])
      (auto simp: seq_post_def silent_def runs_upto_def)
  have tail: "emits (\<lambda>d r. \<exists>k. k \<le> length as \<and> d = replicate k ?c) (okE x)"
    "emits (\<lambda>d r. \<exists>k. k \<le> length as \<and> d = replicate k ?c) (failE e)"
    "emits (\<lambda>d r. \<exists>k. k \<le> length as \<and> d = replicate k ?c) (bindE (modifyE (os_sleep (logged_os os') a)) (\<lambda>_.
      request_attempts (logged_os os') verb path payload read n as (Some e)))" for x and e
    subgoal by (rule emits_weaken [OF emits_okE]) auto
    subgoal by (rule emits_weaken [OF emits_failE]) auto
    subgoal by (rule emits_weaken [OF more]) (auto simp: runs_upto_def)
    done
  have step: "runs_upto (length (a # as)) ?c d r"
    if "seq_post (\<lambda>d r. d = [?c]) (\<lambda>_ d r. \<exists>k. k \<le> length as \<and> d = replicate k ?c) d r" for d r
  proof -
    from that obtain k where "k \<le> length as" "d = replicate (Suc k) ?c"
      unfolding seq_post_def by (metis append_Cons append_Nil le0 replicate.simps)
    then show ?thesis unfolding runs_upto_def by (intro exI [of _ "Suc k"]) simp
  qed
  show ?case
    unfolding request_attempts.simps
    by (rule emits_weaken [OF emits_bindE [OF first] step]) (auto simp: Let_def intro: tail)
qed

lemma request_emits:
  "emits (runs_upto (if read then READ_ATTEMPTS else 1) (request_run verb path payload))
     (request (logged_os os') verb path payload read)"
proof (cases "invalid_request verb path")
  case True
  then show ?thesis
    by (auto simp: request_def runs_upto_def intro: emits_weaken [OF emits_failE])
next
  case False
  let ?n = "if read then READ_ATTEMPTS else 1"
  have "length [1..<Suc ?n] = ?n" by (simp del: upt_Suc)
  then show ?thesis
    using False request_attempts_emits [of "[1..<Suc ?n]" verb path payload os' read ?n None]
    by (simp only: request_def Let_def if_False)
qed

lemma gh_mutate_emits:
  "emits (\<lambda>d r. d = [] \<and> \<not> is_ok r \<or> (\<exists>body. d = [request_run verb path (Some body)]
       \<and> to_vec payload = Inr body \<and> verb = ''POST'' \<and> length body \<le> MAX_RESPONSE_BYTES))
     (gh_mutate (logged_os os') to_vec verb path payload)"
  unfolding emits_def
proof (intro allI impI)
  fix w l r w' l'
  assume run: "gh_mutate (logged_os os') to_vec verb path payload (w, l) = (r, (w', l'))"
  show "\<exists>d. l' = l @ d \<and> (d = [] \<and> \<not> is_ok r \<or> (\<exists>body. d = [request_run verb path (Some body)]
       \<and> to_vec payload = Inr body \<and> verb = ''POST'' \<and> length body \<le> MAX_RESPONSE_BYTES))"
  proof (cases "\<exists>body. to_vec payload = Inr body \<and> verb = ''POST'' \<and> length body \<le> MAX_RESPONSE_BYTES")
    case False
    with run show ?thesis
      by (cases "to_vec payload") (auto simp: gh_mutate_def bindE_def split: if_splits)
  next
    case True
    then obtain body where body: "to_vec payload = Inr body" "verb = ''POST''"
        "length body \<le> MAX_RESPONSE_BYTES" by blast
    with run have "map_errE request_message
        (request (logged_os os') verb path (Some body) False) (w, l) = (r, (w', l'))"
      by (simp add: gh_mutate_def)
    then obtain d where d: "l' = l @ d" "runs_upto 1 (request_run verb path (Some body)) d r"
      using emitsD [OF emits_map_errE [OF request_emits [of False verb path "Some body" os']]]
      by (fastforce simp: runs_upto_map_err)
    then obtain n where n: "n \<le> 1" "d = replicate n (request_run verb path (Some body))"
        "n = 0 \<longrightarrow> \<not> is_ok r" by (auto simp: runs_upto_def)
    then consider "n = 0" | "n = 1" by linarith
    then show ?thesis
    proof cases
      case 1
      with d(1) n show ?thesis by simp
    next
      case 2
      with d(1) n body show ?thesis by auto
    qed
  qed
qed

text \<open>
  C22: the command line is retried for reads only, and never beyond its bound. A read runs the same
  \<open>gh api\<close> command at most three times. A mutation runs at most one process, which is the \<open>POST\<close>
  with exactly the serialised payload, and none when it is refused locally: a write whose outcome is
  unknown is never repeated.
\<close>

theorem transport_retries:
  "(case t_get (gh_transport (logged_os os') to_vec) path (w, []) of (r, (w', l)) \<Rightarrow>
      \<exists>n. n \<le> 3 \<and> l = replicate n (request_run ''GET'' path None)) \<and>
   (case t_mutate (gh_transport (logged_os os') to_vec) verb path payload (w, []) of (r, (w', l)) \<Rightarrow>
      l = [] \<and> \<not> is_ok r \<or>
      (\<exists>body. l = [request_run ''POST'' path (Some body)] \<and> verb = ''POST'' \<and>
         to_vec payload = Inr body \<and> length body \<le> 2097152))"
proof -
  obtain r w' l where r: "t_get (gh_transport (logged_os os') to_vec) path (w, []) = (r, (w', l))"
    by (cases "t_get (gh_transport (logged_os os') to_vec) path (w, [])") auto
  then have "\<exists>n. n \<le> 3 \<and> l = replicate n (request_run ''GET'' path None)"
    using emitsD [OF emits_map_errE [OF request_emits [of True "''GET''" path None os']]]
    by (fastforce simp: gh_transport_def runs_upto_def READ_ATTEMPTS_def)
  moreover obtain q v k where
    q: "t_mutate (gh_transport (logged_os os') to_vec) verb path payload (w, []) = (q, (v, k))"
    by (cases "t_mutate (gh_transport (logged_os os') to_vec) verb path payload (w, [])") auto
  moreover have "k = [] \<and> \<not> is_ok q \<or> (\<exists>body. k = [request_run ''POST'' path (Some body)] \<and>
      verb = ''POST'' \<and> to_vec payload = Inr body \<and> length body \<le> 2097152)"
    using q emitsD [OF gh_mutate_emits, of os' to_vec verb path payload w "[]"]
    by (fastforce simp: gh_transport_def MAX_RESPONSE_BYTES_def)
  ultimately show ?thesis using r by simp
qed

section \<open>Path values\<close>

definition unreserved :: "char \<Rightarrow> bool" where
  "unreserved c \<longleftrightarrow>
     is_ascii_alphanumeric c \<or> c = CHR ''-'' \<or> c = CHR ''_'' \<or> c = CHR ''.'' \<or> c = CHR ''~''"

primrec percent_encode :: "string \<Rightarrow> string" where
  "percent_encode [] = []"
| "percent_encode (c # s) =
     (if unreserved c then [c] else CHR ''%'' # show_byte_02X c) @ percent_encode s"

lemma percent_not_unreserved: "\<not> unreserved (CHR ''%'')"
  by code_simp

lemma show_byte_02X_append: "show_byte_02X c @ s = show_byte_02X d @ t \<longleftrightarrow> c = d \<and> s = t"
proof -
  have "length (show_byte_02X c) = length (show_byte_02X d)" by (simp add: show_byte_02X_def)
  then show ?thesis by simp
qed

lemma percent_encode_inj_aux: "percent_encode s = percent_encode t \<Longrightarrow> s = t"
proof (induction s arbitrary: t)
  case Nil
  then show ?case by (cases t) (auto split: if_splits)
next
  case (Cons c s)
  then obtain d t' where t: "t = d # t'" by (cases t) (auto split: if_splits)
  show ?case
  proof (cases "unreserved c \<longleftrightarrow> unreserved d")
    case True
    with Cons.prems t have "c = d \<and> percent_encode s = percent_encode t'"
      by (simp split: if_splits add: show_byte_02X_append)
    with Cons.IH t show ?thesis by blast
  next
    case False
    with Cons.prems t percent_not_unreserved show ?thesis by (auto split: if_splits)
  qed
qed

lemma upper_hex_digit_unreserved: "d < 16 \<Longrightarrow> unreserved (upper_hex_digit d)"
proof -
  assume "d < 16"
  moreover have "list_all (\<lambda>d. unreserved (upper_hex_digit d)) [0..<16]" by code_simp
  ultimately show ?thesis by (simp add: list_all_iff)
qed

lemma percent_encode_safe: "list_all (\<lambda>c. unreserved c \<or> c = CHR ''%'') (percent_encode s)"
  by (induction s)
    (simp_all add: show_byte_02X_def upper_hex_digit_unreserved less_mult_imp_div_less)

text \<open>
  C34: \<open>percent_encode\<close> is injective and its result has only unreserved characters and percent signs:
  two tag names never share a request path, and no tag name can add a path segment, a query or a
  line break to the request.
\<close>

theorem percent_encode_path_value:
  "(percent_encode s = percent_encode t \<longleftrightarrow> s = t) \<and>
   list_all (\<lambda>c. unreserved c \<or> c = CHR ''%'') (percent_encode s) \<and>
   CHR ''/'' \<notin> set (percent_encode s) \<and> CHR ''?'' \<notin> set (percent_encode s) \<and>
   (percent_encode s = [] \<longleftrightarrow> s = [])"
proof -
  have "\<not> (unreserved (CHR ''/'') \<or> CHR ''/'' = CHR ''%'')"
    "\<not> (unreserved (CHR ''?'') \<or> CHR ''?'' = CHR ''%'')" by code_simp+
  then have "CHR ''/'' \<notin> set (percent_encode s)" "CHR ''?'' \<notin> set (percent_encode s)"
    using percent_encode_safe [of s] unfolding list_all_iff by blast+
  moreover have "percent_encode s = [] \<longleftrightarrow> s = []" by (cases s) auto
  ultimately show ?thesis using percent_encode_inj_aux percent_encode_safe by blast
qed

end
