(* ===== verification/Semver.thy ===== *)
theory Semver
  imports Prelude
begin

text \<open>
  The \<open>semver\<close> crate as the release tooling sees it. \<open>Version\<close> is its public structure; parsing,
  rendering and ordering are the crate's own code and enter the model as the fields of a record
  \<open>semver\<close>, which the operations that use them take as an argument. The locale \<open>semver_laws\<close>
  states the documented laws of the order (SemVer 2.0 precedence made total by the build metadata)
  the theorems rely on. It is interpreted on a full reference implementation of SemVer precedence.
\<close>

record version =
  v_major :: u64
  v_minor :: u64
  v_patch :: u64
  v_pre :: string
  v_build :: string

record semver =
  sv_parse :: "string \<Rightarrow> version result"
  sv_show :: "version \<Rightarrow> string"
  sv_lt :: "version \<Rightarrow> version \<Rightarrow> bool"

abbreviation release_version :: "u64 \<Rightarrow> u64 \<Rightarrow> u64 \<Rightarrow> version" where
  "release_version a b c \<equiv> \<lparr>v_major = a, v_minor = b, v_patch = c, v_pre = [], v_build = []\<rparr>"

abbreviation rc_version :: "u64 \<Rightarrow> u64 \<Rightarrow> u64 \<Rightarrow> u64 \<Rightarrow> version" where
  "rc_version a b c n \<equiv>
     \<lparr>v_major = a, v_minor = b, v_patch = c, v_pre = ''rc.'' @ show_u64 n, v_build = []\<rparr>"

abbreviation core :: "version \<Rightarrow> u64 \<times> u64 \<times> u64" where
  "core v \<equiv> (v_major v, v_minor v, v_patch v)"

locale semver_laws =
  fixes sv :: semver
  assumes irrefl: "\<not> sv_lt sv x x"
    and trans: "sv_lt sv x y \<Longrightarrow> sv_lt sv y z \<Longrightarrow> sv_lt sv x z"
    and total: "x = y \<or> sv_lt sv x y \<or> sv_lt sv y x"
    and lt_core: "core x < core y \<Longrightarrow> sv_lt sv x y"
    and lt_release: "core x = core y \<Longrightarrow> v_pre x \<noteq> [] \<Longrightarrow> v_pre y = [] \<Longrightarrow> sv_lt sv x y"
    and lt_rc: "core x = core y \<Longrightarrow> v_pre x = ''rc.'' @ show_u64 m \<Longrightarrow>
      v_pre y = ''rc.'' @ show_u64 n \<Longrightarrow> m < n \<Longrightarrow> sv_lt sv x y"
begin

sublocale order: strict_linear "sv_lt sv"
proof unfold_locales
  fix x y z
  show "\<not> sv_lt sv x x" by (rule irrefl)
  show "sv_lt sv x y \<Longrightarrow> sv_lt sv y z \<Longrightarrow> sv_lt sv x z" by (rule trans)
  show "x = y \<or> sv_lt sv x y \<or> sv_lt sv y x" by (rule total)
qed

lemma lt_core_le: "sv_lt sv x y \<Longrightarrow> core x \<le> core y"
  using order.asym lt_core by (metis linorder_not_less)

lemma same_core_release: "sv_lt sv x y \<Longrightarrow> core x = core y \<Longrightarrow> v_pre x = [] \<Longrightarrow> v_pre y = []"
  using order.asym lt_release by metis

end

section \<open>Reference precedence\<close>

text \<open>
  SemVer 2.0 precedence. Identifiers compare numerically when both are numeric, bytewise when both
  are not, and a numeric one is below the others; a prerelease is below its release. Build metadata
  breaks ties. Every comparison goes through a key in a linear order.
\<close>

definition ident_key :: "string \<Rightarrow> nat \<times> nat \<times> string" where
  "ident_key i = (if i \<noteq> [] \<and> list_all is_ascii_digit i then (0, digits_val i, i) else (1, 0, i))"

definition idents_key :: "string \<Rightarrow> (nat \<times> nat \<times> string) list" where
  "idents_key s = map ident_key (split_char (CHR ''.'') s)"

type_synonym version_key =
  "(u64 \<times> u64 \<times> u64) \<times> (nat \<times> (nat \<times> nat \<times> string) list) \<times> nat \<times> (nat \<times> nat \<times> string) list"

definition version_key :: "version \<Rightarrow> version_key" where
  "version_key v =
     (core v, (if v_pre v = [] then 1 else 0, idents_key (v_pre v)),
      (if v_build v = [] then 0 else 1), idents_key (v_build v))"

definition ref_lt :: "version \<Rightarrow> version \<Rightarrow> bool" where
  "ref_lt v w \<longleftrightarrow> version_key v < version_key w"

definition ref_show :: "version \<Rightarrow> string" where
  "ref_show v =
     show_u64 (v_major v) @ ''.'' @ show_u64 (v_minor v) @ ''.'' @ show_u64 (v_patch v)
     @ (if v_pre v = [] then [] else ''-'' @ v_pre v)
     @ (if v_build v = [] then [] else ''+'' @ v_build v)"

definition ident_ok :: "bool \<Rightarrow> string \<Rightarrow> bool" where
  "ident_ok numeric i \<longleftrightarrow>
     i \<noteq> [] \<and> list_all (\<lambda>c. is_ascii_alphanumeric c \<or> c = CHR ''-'') i \<and>
     (numeric \<and> list_all is_ascii_digit i \<longrightarrow> canonical_digits i)"

definition idents_ok :: "bool \<Rightarrow> string \<Rightarrow> bool" where
  "idents_ok numeric s \<longleftrightarrow> list_all (ident_ok numeric) (split_char (CHR ''.'') s)"

definition cut_at :: "char \<Rightarrow> string \<Rightarrow> string \<times> string option" where
  "cut_at c s = (case split_once c s of None \<Rightarrow> (s, None) | Some (a, b) \<Rightarrow> (a, Some b))"

definition ref_number :: "string \<Rightarrow> u64 option" where
  "ref_number s = (if canonical_digits s then parse_u64 s else None)"

definition ref_parse :: "string \<Rightarrow> version result" where
  "ref_parse s =
     (let (rest, build) = cut_at (CHR ''+'') s;
          (nums, pre) = cut_at (CHR ''-'') rest
      in if (case pre of None \<Rightarrow> True | Some p \<Rightarrow> idents_ok True p) \<and>
            (case build of None \<Rightarrow> True | Some b \<Rightarrow> idents_ok False b)
         then (case map ref_number (split_char (CHR ''.'') nums) of
                 [Some a, Some b, Some c] \<Rightarrow>
                   Inr \<lparr>v_major = a, v_minor = b, v_patch = c,
                        v_pre = (case pre of None \<Rightarrow> [] | Some p \<Rightarrow> p),
                        v_build = (case build of None \<Rightarrow> [] | Some b \<Rightarrow> b)\<rparr>
               | _ \<Rightarrow> Inl ''invalid version'')
         else Inl ''invalid version'')"

definition semver_ref :: semver where
  "semver_ref = \<lparr>sv_parse = ref_parse, sv_show = ref_show, sv_lt = ref_lt\<rparr>"

lemma semver_ref_fields [simp]:
  "sv_parse semver_ref = ref_parse"
  "sv_show semver_ref = ref_show"
  "sv_lt semver_ref = ref_lt"
  by (simp_all add: semver_ref_def)

lemma ident_key_inject: "ident_key i = ident_key j \<longleftrightarrow> i = j"
  by (auto simp: ident_key_def)

lemma idents_key_inject: "idents_key s = idents_key t \<longleftrightarrow> s = t"
proof
  assume "idents_key s = idents_key t"
  then have "split_char (CHR ''.'') s = split_char (CHR ''.'') t"
    unfolding idents_key_def by (rule map_injective) (auto intro: injI simp: ident_key_inject)
  then show "s = t" by (simp only: split_char_inject)
qed simp

lemma version_key_inject: "version_key v = version_key w \<longleftrightarrow> v = w"
  by (auto simp: version_key_def idents_key_inject)

lemma idents_key_rc: "idents_key (''rc.'' @ show_u64 n) = [(1, 0, ''rc''), (0, unat n, show_u64 n)]"
proof -
  have d: "list_all is_ascii_digit (show_u64 n)"
    by (simp add: show_u64_def show_nat_digits)
  then have "CHR ''.'' \<notin> set (show_u64 n)"
    by (rule digit_not_char) (simp add: is_ascii_digit_iff)
  then have "split_char (CHR ''.'') (''rc.'' @ show_u64 n) = [''rc'', show_u64 n]"
    by (simp add: split_char_no_sep)
  with d show ?thesis
    by (simp add: idents_key_def ident_key_def is_ascii_digit_iff show_u64_def)
qed

interpretation ref: semver_laws semver_ref
proof unfold_locales
  fix x y z :: version and m n :: u64
  show "\<not> sv_lt semver_ref x x" by (simp add: ref_lt_def)
  show "sv_lt semver_ref x y \<Longrightarrow> sv_lt semver_ref y z \<Longrightarrow> sv_lt semver_ref x z"
    by (auto simp: ref_lt_def)
  show "x = y \<or> sv_lt semver_ref x y \<or> sv_lt semver_ref y x"
    using version_key_inject [of x y] by (auto simp: ref_lt_def)
  show "core x < core y \<Longrightarrow> sv_lt semver_ref x y"
    by (auto simp: ref_lt_def version_key_def)
  show "core x = core y \<Longrightarrow> v_pre x \<noteq> [] \<Longrightarrow> v_pre y = [] \<Longrightarrow> sv_lt semver_ref x y"
    by (auto simp: ref_lt_def version_key_def)
  show "core x = core y \<Longrightarrow> v_pre x = ''rc.'' @ show_u64 m \<Longrightarrow> v_pre y = ''rc.'' @ show_u64 n
      \<Longrightarrow> m < n \<Longrightarrow> sv_lt semver_ref x y"
    by (simp add: ref_lt_def version_key_def idents_key_rc word_less_nat_alt del: append_Cons)
qed

end
