(* ===== verification/ReleasePolicy.thy ===== *)
theory ReleasePolicy
  imports Semver
begin

text \<open>
  \<open>xtask/src/release_policy.rs\<close>: the compiled package policy and the release lines. A release line
  is main or one support line \<open>M.N\<close>; it maps to a branch ref, admits versions, and on a support line
  restricts which version may be released after those already published.
\<close>

section \<open>Package policy\<close>

record package_policy =
  pp_package :: string
  pp_tag_prefix :: string
  pp_changelog :: string
  pp_path_in_vcs :: string

definition policy_tag :: "package_policy \<Rightarrow> string \<Rightarrow> string" where
  "policy_tag p ver = pp_tag_prefix p @ ver"

definition TRAITS_PACKAGE :: package_policy where
  "TRAITS_PACKAGE =
     \<lparr>pp_package = ''yaml-sigil-traits'', pp_tag_prefix = ''v'',
      pp_changelog = ''CHANGELOG.md'', pp_path_in_vcs = ''''\<rparr>"

definition RELEASE_PLZ_VERSION :: string where
  "RELEASE_PLZ_VERSION = ''0.3.169''"

section \<open>Release lines\<close>

datatype release_line = Main | Support u64 u64

text \<open>\<open>str::replacen(_, _, 1)\<close>.\<close>

fun replace_first :: "string \<Rightarrow> string \<Rightarrow> string \<Rightarrow> string" where
  "replace_first p t [] = (if p = [] then t else [])"
| "replace_first p t (c # s) =
     (if starts_with (c # s) p then t @ drop (length p) (c # s) else c # replace_first p t s)"

definition support_component :: "string \<Rightarrow> u64 result" where
  "support_component val =
     bindR (fail_if
       (val = [] \<or> 9 < length val \<or> (1 < length val \<and> starts_with val ''0'')
        \<or> \<not> list_all is_ascii_digit val)
       ''support base has a noncanonical version component'') (\<lambda>_.
     ok_or (parse_u64 val) ''support version component overflows'')"

definition from_base_ref :: "string \<Rightarrow> release_line result" where
  "from_base_ref val =
     (if val = ''refs/heads/main'' then Inr Main
      else
        bindR (ok_or (strip_prefix val ''refs/heads/support/'')
          ''release base must be refs/heads/main or refs/heads/support/M.N'') (\<lambda>line.
        bindR (ok_or (split_once (CHR ''.'') line)
          ''support base requires exactly two version components'') (\<lambda>(major, minor).
        bindR (support_component major) (\<lambda>ma.
        bindR (support_component minor) (\<lambda>mi.
        Inr (Support ma mi))))))"

fun base_ref :: "release_line \<Rightarrow> string" where
  "base_ref Main = ''refs/heads/main''"
| "base_ref (Support major minor) =
     ''refs/heads/support/'' @ show_u64 major @ ''.'' @ show_u64 minor"

definition tracking_ref :: "release_line \<Rightarrow> string" where
  "tracking_ref l = replace_first ''refs/heads/'' ''refs/remotes/origin/'' (base_ref l)"

definition make_latest :: "release_line \<Rightarrow> version \<Rightarrow> bool" where
  "make_latest l v \<longleftrightarrow> l = Main \<and> v_pre v = []"

fun admits :: "release_line \<Rightarrow> version \<Rightarrow> bool" where
  "admits Main v = True"
| "admits (Support major minor) v \<longleftrightarrow> v_major v = major \<and> v_minor v = minor"

definition require_version :: "semver \<Rightarrow> release_line \<Rightarrow> version \<Rightarrow> unit result" where
  "require_version sv l v =
     fail_if (\<not> admits l v) (''version '' @ sv_show sv v @ '' is outside '' @ base_ref l)"

definition require_successor :: "release_line \<Rightarrow> version \<Rightarrow> unit result" where
  "require_successor l v =
     (let newer = (case l of Main \<Rightarrow> False
                   | Support major minor \<Rightarrow> (v_major v, v_minor v) > (major, minor))
      in fail_if (\<not> newer \<or> v_pre v \<noteq> [] \<or> v_build v \<noteq> [])
           ''support activation requires a published main stable outside the old line'')"

definition rc_ordinal :: "version \<Rightarrow> u64 result" where
  "rc_ordinal v =
     bindR (ok_or (strip_prefix (v_pre v) ''rc.'') ''support prerelease must be rc.N'') (\<lambda>val.
     bindR (ok_or (parse_u64 val) ''invalid support RC ordinal'') (\<lambda>number.
     bindR (fail_if (number = 0 \<or> show_u64 number \<noteq> val)
       ''support RC ordinal must be canonical and positive'') (\<lambda>_.
     Inr number)))"

definition stable_on_line :: "release_line \<Rightarrow> version \<Rightarrow> bool" where
  "stable_on_line l v \<longleftrightarrow> admits l v \<and> v_pre v = [] \<and> v_build v = []"

definition require_rc_step :: "semver \<Rightarrow> release_line \<Rightarrow> version \<Rightarrow> version list \<Rightarrow> unit result" where
  "require_rc_step sv l selected published =
     bindR (rc_ordinal selected) (\<lambda>next.
     case max_by (sv_lt sv)
            (filter (\<lambda>v. admits l v \<and> v_patch v = v_patch selected) published) of
       None \<Rightarrow> Inr ()
     | Some newest \<Rightarrow>
         bindR (rc_ordinal newest) (\<lambda>ordinal.
         fail_if (checked_add ordinal 1 \<noteq> Some next)
           ''support RC must advance by exactly one ordinal''))"

definition require_advancement ::
  "semver \<Rightarrow> release_line \<Rightarrow> version \<Rightarrow> version list \<Rightarrow> unit result" where
  "require_advancement sv l selected published =
     bindR (require_version sv l selected) (\<lambda>_.
     if l = Main then Inr ()
     else
       bindR (fail_if (v_build selected \<noteq> [])
         ''support releases cannot contain build metadata'') (\<lambda>_.
       bindR (ok_or (max_by (sv_lt sv) (filter (stable_on_line l) published))
         ''support line has no published stable baseline'') (\<lambda>stable.
       bindR (fail_if (checked_add (v_patch stable) 1 \<noteq> Some (v_patch selected))
         ''support release must use the next patch after its last stable'') (\<lambda>_.
       bindR (fail_if (selected \<in> set published)
         ''support release version is already published'') (\<lambda>_.
       if v_pre selected \<noteq> [] then require_rc_step sv l selected published else Inr ())))))"

section \<open>Branch refs\<close>

definition line_ok :: "release_line \<Rightarrow> bool" where
  "line_ok l = (case l of Main \<Rightarrow> True | Support a b \<Rightarrow> unat a < 10 ^ 9 \<and> unat b < 10 ^ 9)"

lemma support_component_Inr [res_simps]:
  "support_component s = Inr v \<longleftrightarrow> s = show_u64 v \<and> unat v < 10 ^ 9"
proof
  assume "support_component s = Inr v"
  then have c: "canonical_digits s" and len: "length s \<le> 9" and p: "parse_u64 s = Some v"
    by (auto simp: support_component_def res_simps canonical_digits_def starts_with_iff
        neq_Nil_conv)
  from c p have s: "s = show_u64 v" by (simp add: parse_u64_canonical)
  then have "unat v = digits_val s" by (simp add: show_u64_def)
  also have "\<dots> < 10 ^ length s"
    using c by (simp add: canonical_digits_def digits_val_bound)
  also have "\<dots> \<le> 10 ^ 9" using len by (rule power_increasing) simp
  finally show "s = show_u64 v \<and> unat v < 10 ^ 9" using s by simp
next
  assume "s = show_u64 v \<and> unat v < 10 ^ 9"
  then have s: "s = show_u64 v" and v: "unat v < 10 ^ 9" by simp_all
  from v have "length s \<le> 9" using s by (simp add: show_u64_def show_nat_length)
  moreover have "canonical_digits s" using s by (simp add: show_u64_def show_nat_canonical)
  moreover have "parse_u64 s = Some v" using s by simp
  ultimately show "support_component s = Inr v"
    by (auto simp: support_component_def res_simps canonical_digits_def starts_with_iff
        split: if_splits)
qed

lemma show_u64_no_dot: "CHR ''.'' \<notin> set (show_u64 v)"
  unfolding show_u64_def
  by (rule digit_not_char [OF show_nat_digits]) (simp add: is_ascii_digit_iff)

lemma from_base_ref_Inr: "from_base_ref s = Inr l \<longleftrightarrow> line_ok l \<and> s = base_ref l"
proof (cases l)
  case Main
  then show ?thesis
    by (auto simp: from_base_ref_def line_ok_def res_simps split: prod.splits)
next
  case (Support a b)
  have "from_base_ref s = Inr (Support a b) \<longleftrightarrow>
      s \<noteq> ''refs/heads/main'' \<and>
      (\<exists>x y. s = ''refs/heads/support/'' @ x @ CHR ''.'' # y \<and> CHR ''.'' \<notin> set x \<and>
        support_component x = Inr a \<and> support_component y = Inr b)"
    by (auto simp: from_base_ref_def res_simps split: prod.splits)
  then show ?thesis
    using Support show_u64_no_dot by (auto simp: line_ok_def res_simps)
qed

text \<open>
  C33: \<open>ReleaseLine::from_base_ref\<close> accepts exactly the canonical branch refs. A text parses to a line
  if and only if it is that line's own \<open>base_ref\<close>, and a support line's components have at most nine
  digits; every other spelling (leading zeros, signs, extra components, another namespace) is refused.
\<close>

theorem base_ref_canonical: "from_base_ref s = Inr l \<longleftrightarrow> line_ok l \<and> s = base_ref l"
  by (rule from_base_ref_Inr)

text \<open>The remote-tracking ref of a line names the same branch below \<open>refs/remotes/origin/\<close>.\<close>

lemma tracking_ref_eq:
  "\<exists>b. base_ref l = ''refs/heads/'' @ b \<and> tracking_ref l = ''refs/remotes/origin/'' @ b"
  by (cases l) (simp_all add: tracking_ref_def starts_with_def)

lemma tracking_ref_inject: "tracking_ref l = tracking_ref m \<longleftrightarrow> base_ref l = base_ref m"
  using tracking_ref_eq [of l] tracking_ref_eq [of m] by auto

section \<open>Progress on a support line\<close>

text \<open>
  The publication history of a support line: a stable baseline, then any sequence of versions each
  of which \<open>require_advancement\<close> accepts over everything published before it.
\<close>

inductive support_history :: "semver \<Rightarrow> release_line \<Rightarrow> version list \<Rightarrow> bool"
  for sv :: semver and l :: release_line where
  baseline: "l = Support a b \<Longrightarrow> support_history sv l [release_version a b c]"
| publish: "support_history sv l h \<Longrightarrow> require_advancement sv l v h = Inr () \<Longrightarrow>
    support_history sv l (h @ [v])"

definition is_rc :: "version \<Rightarrow> u64 \<Rightarrow> bool" where
  "is_rc v n \<longleftrightarrow> v_pre v = ''rc.'' @ show_u64 n \<and> 0 < n"

definition line_version :: "release_line \<Rightarrow> version \<Rightarrow> bool" where
  "line_version l v \<longleftrightarrow>
     l \<noteq> Main \<and> admits l v \<and> v_build v = [] \<and> (v_pre v = [] \<or> (\<exists>n. is_rc v n))"

text \<open>The step from one published version to the next.\<close>

definition advances :: "version \<Rightarrow> version \<Rightarrow> bool" where
  "advances v w \<longleftrightarrow>
     (if v_pre v = [] then unat (v_patch w) = unat (v_patch v) + 1
      else v_patch w = v_patch v \<and>
        (v_pre w = [] \<or> (\<exists>n k. is_rc v n \<and> is_rc w k \<and> unat k = unat n + 1)))"

lemma rc_ordinal_Inr [res_simps]: "rc_ordinal v = Inr n \<longleftrightarrow> is_rc v n"
  by (auto simp: rc_ordinal_def is_rc_def res_simps word_neq_0_conv)

lemma is_rc_pre: "is_rc v n \<Longrightarrow> v_pre v \<noteq> []"
  by (simp add: is_rc_def)

lemma is_rc_unique: "is_rc v n \<Longrightarrow> is_rc v k \<Longrightarrow> n = k"
  by (simp add: is_rc_def)

lemma line_version_core:
  "line_version l v \<Longrightarrow> line_version l w \<Longrightarrow> core v < core w \<longleftrightarrow> v_patch v < v_patch w"
  "line_version l v \<Longrightarrow> line_version l w \<Longrightarrow> core v = core w \<longleftrightarrow> v_patch v = v_patch w"
  by (cases l; simp add: line_version_def)+

text \<open>\<open>require_advancement\<close> on a support line, branch by branch.\<close>

lemma require_advancement_Support:
  "l \<noteq> Main \<Longrightarrow> require_advancement sv l v h = Inr () \<longleftrightarrow>
    admits l v \<and> v_build v = [] \<and> v \<notin> set h \<and>
    (\<exists>s. max_by (sv_lt sv) (filter (stable_on_line l) h) = Some s \<and>
         unat (v_patch v) = unat (v_patch s) + 1) \<and>
    (v_pre v \<noteq> [] \<longrightarrow> (\<exists>n. is_rc v n \<and>
       (\<forall>m. max_by (sv_lt sv) (filter (\<lambda>u. admits l u \<and> v_patch u = v_patch v) h) = Some m \<longrightarrow>
          (\<exists>k. is_rc m k \<and> unat n = unat k + 1))))"
  by (auto simp: require_advancement_def require_version_def require_rc_step_def res_simps
      split: option.splits if_splits)

context semver_laws
begin

text \<open>The invariant of a history: strictly increasing, in the line's shape, ended by its maximum.\<close>

definition history_inv :: "release_line \<Rightarrow> version list \<Rightarrow> bool" where
  "history_inv l h \<longleftrightarrow>
     h \<noteq> [] \<and> sorted_wrt (sv_lt sv) h \<and> (\<forall>v \<in> set h. line_version l v) \<and> successively advances h \<and>
     (\<exists>s \<in> set h. v_pre s = [] \<and> unat (v_patch (last h)) \<le> unat (v_patch s) + 1)"

lemma sorted_last_max: "sorted_wrt (sv_lt sv) h \<Longrightarrow> v \<in> set h \<Longrightarrow> v = last h \<or> sv_lt sv v (last h)"
  by (induction h rule: rev_induct) (auto simp: sorted_wrt_append)

lemma stable_lt_rc_patch:
  assumes "line_version l s" "line_version l v" "v_pre s = []" "is_rc v n" "sv_lt sv s v"
  shows "v_patch s < v_patch v"
proof -
  have "v_patch s \<noteq> v_patch v"
    using assms same_core_release line_version_core(2) is_rc_pre by blast
  moreover have "v_patch s \<le> v_patch v"
    using lt_core_le [OF assms(5)] line_version_core(1) [OF assms(2,1)] by auto
  ultimately show ?thesis by simp
qed

lemma max_stable:
  assumes "\<forall>v \<in> set h. line_version l v"
    and "max_by (sv_lt sv) (filter (stable_on_line l) h) = Some s"
  shows "s \<in> set h" "v_pre s = []"
    and "u \<in> set h \<Longrightarrow> v_pre u = [] \<Longrightarrow> u = s \<or> sv_lt sv u s"
proof -
  note m = order.max_by_Some [OF assms(2)]
  from m(1) show "s \<in> set h" "v_pre s = []" by (simp_all add: stable_on_line_def)
  assume "u \<in> set h" "v_pre u = []"
  then show "u = s \<or> sv_lt sv u s"
    using m(2) [of u] assms(1) by (auto simp: stable_on_line_def line_version_def)
qed

lemma patch_mono: "sv_lt sv v w \<Longrightarrow> line_version l v \<Longrightarrow> line_version l w \<Longrightarrow> v_patch v \<le> v_patch w"
  using lt_core_le line_version_core(1) by (metis linorder_not_less)

text \<open>From a release candidate the next version is its release or the next candidate.\<close>

lemma advance_candidate:
  assumes cr: "core t = core v" and pt: "v_patch t = v_patch v" and t: "is_rc t k"
    and rc: "v_pre v \<noteq> [] \<Longrightarrow> \<exists>n. is_rc v n \<and> unat n = unat k + 1"
  shows "advances t v \<and> sv_lt sv t v"
proof (cases "v_pre v = []")
  case True
  then show ?thesis using is_rc_pre [OF t] cr pt lt_release by (simp add: advances_def)
next
  case False
  from rc [OF this] obtain n where n: "is_rc v n" "unat n = unat k + 1" by blast
  then have "sv_lt sv t v"
    using t cr by (intro lt_rc [of _ _ k n]) (auto simp: is_rc_def word_less_nat_alt)
  with n t pt False is_rc_pre [OF t] show ?thesis by (auto simp: advances_def)
qed

lemma advance_from_last:
  assumes inv: "history_inv l h" and ok: "require_advancement sv l v h = Inr ()"
  shows "line_version l v \<and> advances (last h) v \<and> sv_lt sv (last h) v
    \<and> (\<exists>s \<in> set h. v_pre s = [] \<and> unat (v_patch v) \<le> unat (v_patch s) + 1)"
proof -
  let ?t = "last h"
  from inv have ne: "h \<noteq> []" and lv: "\<forall>u \<in> set h. line_version l u"
    and srt: "sorted_wrt (sv_lt sv) h" by (auto simp: history_inv_def)
  have t: "?t \<in> set h" "line_version l ?t" using ne lv by auto
  then have l: "l \<noteq> Main" by (simp add: line_version_def)
  obtain s where s: "max_by (sv_lt sv) (filter (stable_on_line l) h) = Some s"
    and vs: "unat (v_patch v) = unat (v_patch s) + 1" and v: "admits l v" "v_build v = []"
    and rc: "v_pre v \<noteq> [] \<Longrightarrow> \<exists>n. is_rc v n \<and>
       (\<forall>m. max_by (sv_lt sv) (filter (\<lambda>u. admits l u \<and> v_patch u = v_patch v) h) = Some m \<longrightarrow>
          (\<exists>k. is_rc m k \<and> unat n = unat k + 1))"
    using ok by (auto simp: require_advancement_Support [OF l])
  note ms = max_stable [OF lv s]
  have lvv: "line_version l v" using l v rc by (auto simp: line_version_def)
  obtain s0 where s0: "s0 \<in> set h" "v_pre s0 = []" "unat (v_patch ?t) \<le> unat (v_patch s0) + 1"
    using inv by (auto simp: history_inv_def)
  have "v_patch s0 \<le> v_patch s"
    using ms(1) ms(3) [OF s0(1,2)] patch_mono lv s0(1) by auto
  with s0(3) have ts: "unat (v_patch ?t) \<le> unat (v_patch s) + 1" by (simp add: word_le_nat_alt)
  have "advances ?t v \<and> sv_lt sv ?t v"
  proof (cases "v_pre ?t = []")
    case True
    then have "?t = s"
      using ms(3) [OF t(1)] sorted_last_max [OF srt ms(1)] order.asym by blast
    moreover from this have "core ?t < core v"
      using vs line_version_core(1) [OF t(2) lvv] by (simp add: word_less_nat_alt)
    ultimately show ?thesis using True vs lt_core by (simp add: advances_def)
  next
    case False
    with t(2) obtain k where k: "is_rc ?t k" by (auto simp: line_version_def)
    have "s \<noteq> ?t" using ms(2) False by auto
    then have "sv_lt sv s ?t" using sorted_last_max [OF srt ms(1)] by simp
    then have "v_patch s < v_patch ?t"
      using stable_lt_rc_patch ms(1,2) lv t(2) k by blast
    with ts vs have pt: "v_patch ?t = v_patch v"
      by (simp add: word_less_nat_alt word_unat_eq_iff)
    then have cr: "core ?t = core v" using line_version_core(2) [OF t(2) lvv] by simp
    have "max_by (sv_lt sv) (filter (\<lambda>u. admits l u \<and> v_patch u = v_patch v) h) = Some ?t"
      using t pt sorted_last_max [OF srt]
      by (intro order.max_by_eq) (auto simp: line_version_def)
    with rc k have "v_pre v \<noteq> [] \<Longrightarrow> \<exists>n. is_rc v n \<and> unat n = unat k + 1"
      using is_rc_unique by blast
    with cr pt k show ?thesis by (rule advance_candidate)
  qed
  with lvv ms(1,2) vs show ?thesis by auto
qed

lemma history_inv_publish:
  assumes "history_inv l h" and "require_advancement sv l v h = Inr ()"
  shows "history_inv l (h @ [v])"
proof -
  note step = advance_from_last [OF assms]
  have "\<forall>u \<in> set h. sv_lt sv u v"
    using step assms(1) sorted_last_max order.trans unfolding history_inv_def by metis
  with step assms(1) show ?thesis
    by (auto simp: history_inv_def sorted_wrt_append successively_append_iff)
qed

lemma history_inv_reachable: "support_history sv l h \<Longrightarrow> history_inv l h"
proof (induction rule: support_history.induct)
  case (baseline a b c)
  then show ?case by (simp add: history_inv_def line_version_def)
next
  case (publish h v)
  then show ?case by (blast intro: history_inv_publish)
qed

end

text \<open>A history with a release candidate, for the witnesses.\<close>

definition example_history :: "version list" where
  "example_history = [release_version 0 5 1, rc_version 0 5 2 1, release_version 0 5 2]"

lemma example_advancement:
  "require_advancement semver_ref (Support 0 5) (rc_version 0 5 2 1) [release_version 0 5 1] = Inr ()"
  "require_advancement semver_ref (Support 0 5) (release_version 0 5 2)
     [release_version 0 5 1, rc_version 0 5 2 1] = Inr ()"
  by code_simp+

lemma example_history_reachable: "support_history semver_ref (Support 0 5) example_history"
proof -
  have "support_history semver_ref (Support 0 5) [release_version 0 5 1]"
    by (rule support_history.baseline) simp
  from support_history.publish [OF this example_advancement(1)]
  have "support_history semver_ref (Support 0 5) [release_version 0 5 1, rc_version 0 5 2 1]"
    by simp
  from support_history.publish [OF this example_advancement(2)]
  show ?thesis by (simp add: example_history_def)
qed

text \<open>
  C19: a support line only ever moves forward and skips nothing. Whatever sequence of versions
  \<open>require_advancement\<close> admits after a stable baseline, every version published later is greater in
  SemVer precedence than every earlier one, stays on the line, has no build metadata, and is a stable
  version or a positive canonical release candidate; and each follows its predecessor by exactly one
  step: after a stable release comes the next patch, after \<open>rc.N\<close> comes \<open>rc.(N+1)\<close> or the stable
  release of the same patch.
\<close>

theorem support_history_advances:
  assumes "semver_laws sv" and "support_history sv l h"
  shows "sorted_wrt (sv_lt sv) h \<and> successively advances h \<and> list_all (line_version l) h"
  using semver_laws.history_inv_reachable [OF assms] semver_laws.history_inv_def [OF assms(1)]
  by (simp add: list_all_iff)

theorem support_history_advances_witness:
  "sorted_wrt (sv_lt semver_ref) example_history \<and> successively advances example_history \<and>
   list_all (line_version (Support 0 5)) example_history"
  by (rule support_history_advances [OF ref.semver_laws_axioms example_history_reachable])

end
