(* ===== verification/GithubPayloads.thy ===== *)
theory GithubPayloads
  imports Transport ReleasePolicy
begin

text \<open>
  The compiled identity policy of \<open>xtask/src/github.rs\<close> and the payload types it decodes GitHub's
  answers into. Deriving \<open>Deserialize\<close> gives each type its decoder; the decoders are the fields of
  the record \<open>serde\<close>, a parameter of every operation that reads.
\<close>

section \<open>Compiled policy\<close>

definition REPOSITORY :: string where
  "REPOSITORY = ''NVIDIA/yaml-sigil-traits''"

definition RELEASE_WORKFLOW_PATH :: string where
  "RELEASE_WORKFLOW_PATH = ''.github/workflows/publish.yml''"

definition RELEASE_WORKFLOW_ID :: u64 where
  "RELEASE_WORKFLOW_ID = 337393638"

definition RELEASE_BRANCH_PREFIX :: string where
  "RELEASE_BRANCH_PREFIX = ''release-plz-manual-''"

definition APP_SLUG :: string where
  "APP_SLUG = ''nvidia-yamlsigil-release-pr''"

definition APP_LOGIN :: string where
  "APP_LOGIN = ''nvidia-yamlsigil-release-pr[bot]''"

definition APP_ID :: u64 where
  "APP_ID = 318780254"

definition APP_EMAIL :: string where
  "APP_EMAIL = ''318780254+nvidia-yamlsigil-release-pr[bot]@users.noreply.github.com''"

definition RELEASE_SIGNER_LOGIN :: string where
  "RELEASE_SIGNER_LOGIN = ''ddurst-nvidia''"

definition RELEASE_SIGNER_ID :: u64 where
  "RELEASE_SIGNER_ID = 267424412"

definition RELEASE_AUTHOR_NAME :: string where
  "RELEASE_AUTHOR_NAME = ''ddurst''"

definition RELEASE_AUTHOR_EMAIL :: string where
  "RELEASE_AUTHOR_EMAIL = ''267424412+ddurst-nvidia@users.noreply.github.com''"

definition DCO_TRAILER :: string where
  "DCO_TRAILER = ''Signed-off-by: ddurst <267424412+ddurst-nvidia@users.noreply.github.com>''"

definition RELEASE_PATHS :: "string list" where
  "RELEASE_PATHS = [''CHANGELOG.md'', ''Cargo.toml'']"

definition nl :: string where
  "nl = [char_lf]"

definition RELEASE_SIGNATURE_QUERY :: string where
  "RELEASE_SIGNATURE_QUERY = nl @
     ''query($owner:String!,$name:String!,$number:Int!){'' @ nl @
     ''  repository(owner:$owner,name:$name){'' @ nl @
     ''    pullRequest(number:$number){'' @ nl @
     ''      mergeCommit{oid}'' @ nl @
     ''      commits(first:2){'' @ nl @
     ''        totalCount'' @ nl @
     ''        nodes{'' @ nl @
     ''          commit{'' @ nl @
     ''            oid'' @ nl @
     ''            signature{'' @ nl @
     ''              __typename'' @ nl @
     ''              email'' @ nl @
     ''              isValid'' @ nl @
     ''              state'' @ nl @
     ''              wasSignedByGitHub'' @ nl @
     ''              signer{databaseId login __typename}'' @ nl @
     ''            }'' @ nl @
     ''          }'' @ nl @
     ''        }'' @ nl @
     ''        pageInfo{hasNextPage}'' @ nl @
     ''      }'' @ nl @
     ''    }'' @ nl @
     ''  }'' @ nl @
     ''}'' @ nl"

definition is_sha :: "string \<Rightarrow> bool" where
  "is_sha val \<longleftrightarrow> length val = 40 \<and> list_all is_ascii_lower_hex val"

definition require_sha :: "string \<Rightarrow> string \<Rightarrow> unit result" where
  "require_sha val label =
     (if is_sha val then Inr () else Inl (label @ '' must be a lowercase 40-character SHA''))"

section \<open>Payloads\<close>

record Repository =
  rp_full_name :: string

record PullSide =
  ps_reference :: string
  ps_sha :: string
  ps_repo :: Repository

record PullRequest =
  pr_number :: u64
  pr_state :: string
  pr_merged_at :: "string option"
  pr_base :: PullSide
  pr_head :: PullSide

record User =
  us_login :: string
  us_id :: u64
  us_kind :: string

record GitObject =
  go_sha :: string
  go_kind :: string

record GitSignature =
  gs_name :: string
  gs_email :: string
  gs_date :: string

record Verification =
  vf_verified :: bool
  vf_reason :: string

record CommitBody =
  cb_message :: string
  cb_author :: GitSignature
  cb_committer :: GitSignature
  cb_tree :: GitObject
  cb_verification :: Verification

record CommitFile =
  cf_filename :: string
  cf_status :: string
  cf_previous_filename :: "string option"

record Commit =
  co_sha :: string
  co_author :: "User option"
  co_committer :: "User option"
  co_commit :: CommitBody
  co_parents :: "GitObject list"
  co_files :: "CommitFile list"

record SignatureSigner =
  ss_database_id :: "u64 option"
  ss_login :: string
  ss_kind :: string

record VerifiedSignature =
  vs_kind :: string
  vs_email :: "string option"
  vs_is_valid :: bool
  vs_state :: string
  vs_was_signed_by_github :: bool
  vs_signer :: "SignatureSigner option"

record SignatureCommit =
  sc_oid :: string
  sc_signature :: "VerifiedSignature option"

record SignatureNode =
  sn_commit :: SignatureCommit

record SignaturePageInfo =
  si_has_next_page :: bool

record SignatureCommitConnection =
  sx_total_count :: nat
  sx_nodes :: "SignatureNode list"
  sx_page_info :: SignaturePageInfo

record SignatureMergeCommit =
  sm_oid :: string

record SignaturePullRequest =
  sp_merge_commit :: "SignatureMergeCommit option"
  sp_commits :: SignatureCommitConnection

record SignatureRepository =
  sr_pull_request :: "SignaturePullRequest option"

record SignatureData =
  sd_repository :: "SignatureRepository option"

record SignatureEnvelope =
  se_data :: SignatureData
  se_errors :: "json option"

record Comparison =
  cm_status :: string
  cm_base_commit :: GitObject
  cm_merge_base_commit :: GitObject

record GitRef =
  gr_name :: string
  gr_object :: GitObject

record Workflow =
  wf_id :: u64
  wf_path :: string
  wf_state :: string

record WorkflowRun =
  wr_id :: u64
  wr_run_attempt :: u64
  wr_workflow_id :: u64
  wr_path :: string
  wr_event :: string
  wr_status :: string
  wr_conclusion :: "string option"
  wr_head_branch :: "string option"
  wr_head_sha :: string
  wr_repository :: Repository

record ArtifactInventory =
  ai_total_count :: nat
  ai_artifacts :: "json list"

record InstallationRepositories =
  ir_total_count :: nat
  ir_repositories :: "Repository list"

record AnnotatedTag =
  at_sha :: string
  at_tag :: string
  at_message :: string
  at_object :: GitObject
  at_tagger :: GitSignature

record GitHubRelease =
  gh_id :: u64
  gh_tag_name :: string
  gh_target_commitish :: string
  gh_name :: string
  gh_body :: string
  gh_draft :: bool
  gh_prerelease :: bool
  gh_immutable :: bool
  gh_author :: User
  gh_assets :: "json list"

text \<open>\<open>latest.rs\<close> and \<open>support.rs\<close> decode smaller types of their own.\<close>

record Latest =
  la_id :: u64
  la_tag_name :: string

record Tagger =
  ta_name :: string
  ta_email :: string

record SupportTag =
  st_sha :: string
  st_tag :: string
  st_object :: GitObject
  st_tagger :: Tagger

record Inventory =
  in_schema_version :: u32
  in_base_ref :: string
  in_anchor :: string
  in_policy_commit :: string
  in_enforce :: bool
  in_blobs :: "(string \<times> string) list"

section \<open>Decoders\<close>

record 'j serde =
  de_pulls :: "('j, PullRequest list) decoder"
  de_commit :: "('j, Commit) decoder"
  de_signatures :: "('j, SignatureEnvelope) decoder"
  de_comparison :: "('j, Comparison) decoder"
  de_ref :: "('j, GitRef) decoder"
  de_workflow :: "('j, Workflow) decoder"
  de_run :: "('j, WorkflowRun) decoder"
  de_artifacts :: "('j, ArtifactInventory) decoder"
  de_installation :: "('j, InstallationRepositories) decoder"
  de_tag :: "('j, AnnotatedTag) decoder"
  de_release :: "('j, GitHubRelease) decoder"
  de_latest :: "('j, Latest) decoder"
  de_refs :: "('j, GitRef list) decoder"
  de_support_tag :: "('j, SupportTag) decoder"
  de_support_ref :: "('j, GitRef) decoder"
  de_base_comparison :: "('j, Comparison) decoder"

section \<open>Sets of paths\<close>

lemma is_sha_chars: "is_sha s \<Longrightarrow> c \<in> set s \<Longrightarrow> is_ascii_lower_hex c"
  by (simp add: is_sha_def list_all_iff)

lemma require_sha_Inr [res_simps]: "require_sha val label = Inr u \<longleftrightarrow> is_sha val"
  by (simp add: require_sha_def)

end
