(* ===== verification/Machine.thy ===== *)
theory Machine
  imports Runtime
begin

text \<open>
  What holds of the world whatever the tooling does. An effect \<open>keeps\<close> a property of the state when it
  leads from states with it to states with it. The locale \<open>machine\<close> is the contract under which an
  operating system keeps a property as long as the program starts only subprocesses that \<open>P\<close> allows;
  every component proves once, inside it or an extension, that its operations start no other. The
  instances are a machine that logs its subprocesses and a machine beside another state.
\<close>

section \<open>Effects that keep a property\<close>

definition keeps :: "('w \<Rightarrow> bool) \<Rightarrow> ('w, 'e, 'a) eff \<Rightarrow> bool" where
  "keeps F m \<longleftrightarrow> (\<forall>w. F w \<longrightarrow> F (snd (m w)))"

named_theorems keeps \<open>effects that keep a property of the state\<close>

lemma keepsD: "keeps F m \<Longrightarrow> m w = (r, w') \<Longrightarrow> F w \<Longrightarrow> F w'"
  unfolding keeps_def by (metis snd_conv)

lemma keeps_basic [keeps]:
  "keeps F (okE x)" "keeps F (failE e)" "keeps F (liftE q)" "keeps F (fail_ifE b e)" "keeps F (readE f)"
  by (simp_all add: keeps_def okE_def failE_def liftE_def fail_ifE_def readE_def)

lemma keeps_bindE [keeps]: "keeps F m \<Longrightarrow> (\<And>x. keeps F (f x)) \<Longrightarrow> keeps F (bindE m f)"
  by (fastforce simp: keeps_def bindE_def split: prod.splits sum.splits)

lemma keeps_map_errE [keeps]: "keeps F m \<Longrightarrow> keeps F (map_errE f m)"
  by (auto simp: keeps_def map_errE_def split: prod.splits)

lemma keeps_attemptE [keeps]: "keeps F m \<Longrightarrow> keeps F (attemptE m)"
  by (auto simp: keeps_def attemptE_def split: prod.splits)

lemma keeps_forE [keeps]: "(\<And>x. x \<in> set xs \<Longrightarrow> keeps F (f x)) \<Longrightarrow> keeps F (forE xs f)"
  by (induction xs) (auto intro: keeps_basic keeps_bindE)

lemma keeps_modifyE: "(\<And>w. F w \<Longrightarrow> F (h w)) \<Longrightarrow> keeps F (modifyE h)"
  by (simp add: keeps_def modifyE_def)

lemma keeps_split [keeps]:
  "(b \<Longrightarrow> keeps F m) \<Longrightarrow> (\<not> b \<Longrightarrow> keeps F n) \<Longrightarrow> keeps F (if b then m else n)"
  "(x = None \<Longrightarrow> keeps F m) \<Longrightarrow> (\<And>y. x = Some y \<Longrightarrow> keeps F (f y)) \<Longrightarrow>
   keeps F (case x of None \<Rightarrow> m | Some y \<Rightarrow> f y)"
  "(\<And>a b. z = (a, b) \<Longrightarrow> keeps F (g a b)) \<Longrightarrow> keeps F (case z of (a, b) \<Rightarrow> g a b)"
  "(\<And>e. s = Inl e \<Longrightarrow> keeps F (p e)) \<Longrightarrow> (\<And>v. s = Inr v \<Longrightarrow> keeps F (q v)) \<Longrightarrow>
   keeps F (case s of Inl e \<Rightarrow> p e | Inr v \<Rightarrow> q v)"
  by (auto split: option.split prod.split sum.split)

lemma keeps_beside [keeps]: "keeps F m \<Longrightarrow> keeps (\<lambda>s. F (fst s)) (beside m)"
  by (fastforce simp: keeps_def beside_def split: prod.splits)

section \<open>Machines\<close>

text \<open>A machine that is only read, and one whose files may also be changed.\<close>

locale reading_machine =
  fixes os' :: "'w os" and P :: "process_run \<Rightarrow> bool" and F :: "'w \<Rightarrow> bool"
  assumes keeps_output: "P (Bounded c input limits) \<Longrightarrow> keeps F (os_output os' c input limits)"
    and keeps_canonicalize: "keeps F (os_canonicalize os' p)"
    and keeps_read_manifest: "keeps F (os_read_manifest os' p q)"
    and keeps_symlink_metadata: "keeps F (os_symlink_metadata os' p)"
    and keeps_sleep: "F w \<Longrightarrow> F (os_sleep os' n w)"
    and keeps_print: "F w \<Longrightarrow> F (os_print os' s w)"
begin

lemma keeps_modify:
  "keeps F (modifyE (os_sleep os' n))" "keeps F (modifyE (os_print os' s))"
  "keeps F (modifyE (if b then id else os_print os' s))"
  by (simp_all add: keeps_modifyE keeps_sleep keeps_print)

lemmas keeps_reading [keeps] =
  keeps_canonicalize keeps_read_manifest keeps_symlink_metadata keeps_modify

end

locale machine = reading_machine os' P F for os' :: "'w os" and P F +
  assumes keeps_status: "P (Inherited c) \<Longrightarrow> keeps F (os_status os' c)"
    and keeps_append_open: "keeps F (os_append_open os' p)"
    and keeps_append_write: "keeps F (os_append_write os' p s)"
    and keeps_tempdir: "keeps F (os_tempdir os')"
    and keeps_temp_new: "keeps F (os_temp_new os' p)"
    and keeps_temp_write: "keeps F (os_temp_write os' p b)"
    and keeps_temp_permissions: "keeps F (os_temp_permissions os' p n)"
    and keeps_temp_sync: "keeps F (os_temp_sync os' p)"
    and keeps_temp_persist: "keeps F (os_temp_persist os' p q)"
begin

lemmas keeps_machine [keeps] =
  keeps_append_open keeps_append_write keeps_tempdir
  keeps_temp_new keeps_temp_write keeps_temp_permissions keeps_temp_sync keeps_temp_persist

text \<open>The machine beside another state.\<close>

lemma beside_machine: "machine (beside_os os' :: ('w \<times> 'c) os) P (\<lambda>s. F (fst s))"
  by unfold_locales
    (simp_all add: beside_os_def keeps_beside keeps_reading keeps_machine keeps_output keeps_status keeps_sleep keeps_print)

end

section \<open>Logged machines\<close>

text \<open>What was logged since the log was \<open>l\<close> is allowed.\<close>

definition grown :: "('c \<Rightarrow> bool) \<Rightarrow> 'c list \<Rightarrow> 'w \<times> 'c list \<Rightarrow> bool" where
  "grown P l s \<longleftrightarrow> (\<exists>d. snd s = l @ d \<and> list_all P d)"

lemma grown_refl [simp]: "grown P l (w, l)"
  by (simp add: grown_def)

lemma keeps_grown_beside [keeps]: "keeps (grown P l) (beside m)"
  by (auto simp: keeps_def grown_def beside_def split: prod.splits)

lemma keeps_grown_append:
  "P c \<Longrightarrow> keeps (grown P l) (\<lambda>(w, l'). case m w of (r, w') \<Rightarrow> (r, (w', l' @ [c])))"
  by (auto simp: keeps_def grown_def split: prod.splits)

interpretation logged: machine "logged_os os'" P "grown P l" for os' P l
  by unfold_locales
    (auto simp: logged_os_def keeps_grown_beside keeps_grown_append, auto simp: grown_def)

text \<open>Effects that start only allowed subprocesses, over a log.\<close>

definition runs_only :: "('c \<Rightarrow> bool) \<Rightarrow> ('w \<times> 'c list, 'e, 'a) eff \<Rightarrow> bool" where
  "runs_only P m \<longleftrightarrow> (\<forall>l. keeps (grown P l) m)"

lemma runs_only_emits: "runs_only P m \<longleftrightarrow> emits (\<lambda>d r. list_all P d) m"
proof
  assume "runs_only P m"
  then have "\<exists>d. l' = l @ d \<and> list_all P d" if "m (w, l) = (r, (w', l'))" for w l r w' l'
    using keepsD [of "grown P l" m "(w, l)" r "(w', l')"] that by (auto simp: runs_only_def grown_def)
  then show "emits (\<lambda>d r. list_all P d) m" by (auto simp: emits_def)
next
  assume m: "emits (\<lambda>d r. list_all P d) m"
  have "grown P l (snd (m s))" if "grown P l s" for l s
  proof -
    obtain w l1 r w' l2 where m1: "s = (w, l1)" "m (w, l1) = (r, (w', l2))" by (metis prod.collapse)
    from emitsD [OF m m1(2)] that m1 show ?thesis by (auto simp: grown_def)
  qed
  then show "runs_only P m" by (simp add: runs_only_def keeps_def)
qed

lemma runs_onlyI: "(\<And>l. keeps (grown P l) m) \<Longrightarrow> runs_only P m"
  by (simp add: runs_only_def)

lemma runs_onlyD:
  "runs_only P m \<Longrightarrow> case m (w, []) of (r, (w', l)) \<Rightarrow> list_all P l"
  unfolding runs_only_emits emits_def by (cases "m (w, [])") fastforce

end
