(* ===== verification/ReleaseBase.thy ===== *)
theory ReleaseBase
  imports ReleasePolicy Runtime
begin

text \<open>
  \<open>xtask/src/release_base.rs\<close>: the bounded \<open>git\<close> call the release tooling reads state with, the
  choice of the release line for a checkout, and the check of a selected version against the tags
  reachable from the line's tracking ref.
\<close>

definition git :: "'w os \<Rightarrow> string \<Rightarrow> string list \<Rightarrow> ('w, string) io" where
  "git os' root args =
     bindE (map_errE (\<lambda>e. ''read release Git state: '' @ ie_text e)
       (os_output os' (cmd_args args (current_dir root (command_new ''git''))) None
         VALIDATION_OUTPUT_LIMITS)) (\<lambda>out.
     bindE (fail_ifE (\<not> out_success out) (''git '' @ join '' '' args @ '' failed'')) (\<lambda>_.
     liftE (map_err (\<lambda>e. ''decode release Git state: '' @ e)
       (bindR (from_utf8 (out_stdout out)) (\<lambda>v. Inr (trim v))))))"

definition resolve :: "'w os \<Rightarrow> string \<Rightarrow> string option \<Rightarrow> ('w, release_line) io" where
  "resolve os' root explicit =
     (case explicit of
        Some base \<Rightarrow> liftE (from_base_ref base)
      | None \<Rightarrow>
          bindE (map_errE (\<lambda>_. ''detached release checkout requires --base-ref'')
            (git os' root [''symbolic-ref'', ''--quiet'', ''HEAD''])) (\<lambda>branch.
          if branch = ''refs/heads/main'' \<or> starts_with branch ''refs/heads/support/''
          then liftE (from_base_ref branch)
          else
            bindE (map_errE (\<lambda>_. ''release base is ambiguous; supply --base-ref'')
              (git os' root
                [''merge-base'', ''--is-ancestor'', ''refs/remotes/origin/main'', ''HEAD''])) (\<lambda>_.
            okE Main)))"

text \<open>
  The loop over tag names: every tag has the prefix, and the names that are a canonical SemVer
  version after it are the released versions. Other names (\<open>v1alpha1\<close>) are skipped.
\<close>

definition canonical_version :: "semver \<Rightarrow> string \<Rightarrow> version option" where
  "canonical_version sv raw =
     (case sv_parse sv raw of
        Inl _ \<Rightarrow> None
      | Inr v \<Rightarrow> if sv_show sv v = raw then Some v else None)"

primrec tag_versions :: "semver \<Rightarrow> string \<Rightarrow> string list \<Rightarrow> version list result" where
  "tag_versions sv prefix [] = Inr []"
| "tag_versions sv prefix (tag # tags) =
     bindR (ok_or (strip_prefix tag prefix) ''unexpected release tag prefix'') (\<lambda>val.
     bindR (tag_versions sv prefix tags) (\<lambda>vs.
     Inr (case canonical_version sv val of None \<Rightarrow> vs | Some v \<Rightarrow> v # vs)))"

definition validate_version ::
  "semver \<Rightarrow> 'w os \<Rightarrow> string \<Rightarrow> release_line \<Rightarrow> version \<Rightarrow> string \<Rightarrow> ('w, unit) io" where
  "validate_version sv os' root l ver tag_prefix =
     bindE (liftE (require_version sv l ver)) (\<lambda>_.
     if l = Main then okE ()
     else
       bindE (git os' root
         [''tag'', ''--merged'', tracking_ref l, ''--list'', tag_prefix @ ''*'']) (\<lambda>tags.
       bindE (liftE (tag_versions sv tag_prefix (lines tags))) (\<lambda>versions.
       liftE (require_advancement sv l ver versions))))"

section \<open>What the checks establish\<close>

lemma git_Inr [res_simps]:
  "git os' root args w = (Inr s, w') \<longleftrightarrow>
   (\<exists>out t. os_output os' (cmd_args args (current_dir root (command_new ''git''))) None
        VALIDATION_OUTPUT_LIMITS w = (Inr out, w') \<and> out_success out \<and>
      from_utf8 (out_stdout out) = Inr t \<and> s = trim t)"
  by (auto simp: git_def res_simps)

lemma canonical_version_Some [res_simps]:
  "canonical_version sv raw = Some v \<longleftrightarrow> sv_parse sv raw = Inr v \<and> sv_show sv v = raw"
  by (auto simp: canonical_version_def split: sum.splits)

lemma tag_versions_prefix:
  "tag_versions sv prefix tags = Inr vs \<Longrightarrow> t \<in> set tags \<Longrightarrow> starts_with t prefix"
  by (induction tags arbitrary: vs) (auto simp: res_simps)

text \<open>Exactly the tags that are the prefix and a canonical version count as releases.\<close>

lemma tag_versions_set:
  "tag_versions sv prefix tags = Inr vs \<Longrightarrow>
   v \<in> set vs \<longleftrightarrow> (prefix @ sv_show sv v \<in> set tags \<and> sv_parse sv (sv_show sv v) = Inr v)"
proof (induction tags arbitrary: vs)
  case Nil
  then show ?case by simp
next
  case (Cons t ts)
  then obtain r us where r: "t = prefix @ r" "tag_versions sv prefix ts = Inr us"
    and vs: "vs = (case canonical_version sv r of None \<Rightarrow> us | Some u \<Rightarrow> u # us)"
    by (auto simp: res_simps)
  show ?case
  proof (cases "canonical_version sv r")
    case None
    then have "\<not> (r = sv_show sv v \<and> sv_parse sv (sv_show sv v) = Inr v)"
      by (auto simp: canonical_version_def)
    with None vs r Cons.IH [OF r(2)] show ?thesis by auto
  next
    case (Some u)
    then have u: "sv_parse sv r = Inr u" "sv_show sv u = r" by (simp_all add: res_simps)
    with Some vs have vs': "vs = u # us" by simp
    show ?thesis
      unfolding vs' using u r Cons.IH [OF r(2)] by auto
  qed
qed

lemma resolve_explicit: "resolve os' root (Some base) w = (from_base_ref base, w)"
  by (simp add: resolve_def)

text \<open>Without an explicit base, a named support branch or main decides; nothing else selects a support line.\<close>

lemma resolve_support:
  "resolve os' root None w = (Inr l, w') \<Longrightarrow> l \<noteq> Main \<Longrightarrow>
   git os' root [''symbolic-ref'', ''--quiet'', ''HEAD''] w = (Inr (base_ref l), w')"
  by (auto simp: resolve_def bindE_Inr map_errE_Inr liftE_Inr okE_Inr from_base_ref_Inr
      split: if_splits)

end
