(* ===== verification/PackageContent.thy ===== *)
theory PackageContent
  imports Runtime
begin

text \<open>
  \<open>xtask/src/package_content.rs\<close> and \<open>package_content_policy.rs\<close>: the committed inventory of a
  source package, its strict text format, and its comparison with the paths \<open>cargo package --list\<close>
  reports. A \<open>BTreeSet<String>\<close> is the strictly increasing list of its elements. The separator
  normalisation and the path components are those of Unix.
\<close>

section \<open>Policy\<close>

record PackageSpec =
  pk_name :: string
  pk_inventory_path :: string
  pk_inventory :: string

definition inventory_text :: string where
  "inventory_text = concat (map (\<lambda>p. p @ [char_lf])
     [''.cargo_vcs_info.json'', ''CHANGELOG.md'', ''CONTRIBUTING.md'', ''Cargo.lock'', ''Cargo.toml'',
      ''Cargo.toml.orig'', ''LICENSE'', ''README.md'', ''SECURITY.md'', ''THIRD_PARTY_NOTICES.md'',
      ''src/algorithm.rs'', ''src/conformance.rs'', ''src/lib.rs'', ''src/signing.rs'',
      ''src/transcription.rs'', ''src/verification.rs'', ''tests/key_bindings.rs''])"

definition PACKAGE_SPECS :: "PackageSpec list" where
  "PACKAGE_SPECS =
     [\<lparr>pk_name = ''yaml-sigil-traits'',
       pk_inventory_path = ''xtask/package-contents/yaml-sigil-traits.txt'',
       pk_inventory = inventory_text\<rparr>]"

definition SYNTHETIC_LOCKFILE :: string where
  "SYNTHETIC_LOCKFILE = ''Cargo.lock''"

section \<open>The inventory format\<close>

datatype path_component = RootDir | CurDir | ParentDir | Normal string

text \<open>\<open>Path::components\<close>: repeated separators and inner dots vanish.\<close>

definition path_components :: "string \<Rightarrow> path_component list" where
  "path_components p =
     (let parts = split_char (CHR ''/'') p in
      (if starts_with p ''/'' then [RootDir] else if hd parts = ''.'' then [CurDir] else [])
      @ map (\<lambda>c. if c = ''..'' then ParentDir else Normal c)
          (filter (\<lambda>c. c \<noteq> [] \<and> c \<noteq> ''.'') parts))"

definition is_normal :: "path_component \<Rightarrow> bool" where
  "is_normal c = (case c of Normal _ \<Rightarrow> True | _ \<Rightarrow> False)"

definition validate_inventory_path :: "string \<Rightarrow> string \<Rightarrow> nat \<Rightarrow> unit result" where
  "validate_inventory_path path label line =
     bindR (fail_if (path = []) (label @ '':'' @ show_nat line @ '': blank path'')) (\<lambda>_.
     bindR (fail_if (starts_with path ''#'')
       (label @ '':'' @ show_nat line @ '': comments are not allowed'')) (\<lambda>_.
     fail_if
       (char_backslash \<in> set path \<or>
        list_ex (\<lambda>c. c = [] \<or> c = ''.'' \<or> c = ''..'') (split_char (CHR ''/'') path) \<or>
        \<not> list_all is_normal (path_components path))
       (label @ '':'' @ show_nat line @ '': path must be a normalized crate-relative path: '' @ path)))"

primrec inventory_paths ::
  "string \<Rightarrow> string list \<Rightarrow> nat \<Rightarrow> string option \<Rightarrow> string list \<Rightarrow> string list result" where
  "inventory_paths label [] line previous paths = Inr paths"
| "inventory_paths label (path # rest) line previous paths =
     bindR (validate_inventory_path path label line) (\<lambda>_.
     bindR (case previous of
         None \<Rightarrow> Inr ()
       | Some prior \<Rightarrow>
           if path < prior
           then Inl (label @ '':'' @ show_nat line @ '': paths are not bytewise sorted: '' @ path
                     @ '' follows '' @ prior)
           else fail_if (prior = path)
             (label @ '':'' @ show_nat line @ '': duplicate path: '' @ path)) (\<lambda>_.
     inventory_paths label rest (line + 1) (Some path) (insort_insert path paths)))"

definition parse_inventory :: "string \<Rightarrow> string \<Rightarrow> string list result" where
  "parse_inventory text label =
     bindR (fail_if (text = []) (label @ '' is empty'')) (\<lambda>_.
     bindR (fail_if (\<not> ends_with text [char_lf]) (label @ '' must end with a line feed'')) (\<lambda>_.
     bindR (fail_if (char_cr \<in> set text) (label @ '' must use line-feed terminators'')) (\<lambda>_.
     inventory_paths label (lines text) 1 None [])))"

definition normalize_platform_separators :: "string \<Rightarrow> char \<Rightarrow> string" where
  "normalize_platform_separators text separator =
     map (\<lambda>c. if c = separator then CHR ''/'' else c) text"

definition parse_cargo_list :: "string \<Rightarrow> io_error + string list" where
  "parse_cargo_list text =
     map_err (\<lambda>e. \<lparr>ie_kind = IO_InvalidData, ie_text = e\<rparr>)
       (parse_inventory (normalize_platform_separators text (CHR ''/''))
          ''cargo package --list output'')"

section \<open>Comparison\<close>

record InventoryDifference =
  df_missing :: "string list"
  df_unexpected :: "string list"

definition compare_inventories :: "string list \<Rightarrow> string list \<Rightarrow> InventoryDifference" where
  "compare_inventories expected actual =
     \<lparr>df_missing = filter (\<lambda>p. p \<notin> set actual) expected,
      df_unexpected = filter (\<lambda>p. p \<notin> set expected) actual\<rparr>"

definition indented :: "string list \<Rightarrow> string" where
  "indented paths = concat (map (\<lambda>p. char_lf # ''    '' @ p) paths)"

definition format_difference :: "InventoryDifference \<Rightarrow> string" where
  "format_difference d =
     ''package contents differ''
     @ (if df_missing d = [] then []
        else char_lf # ''  missing from package:'' @ indented (df_missing d))
     @ (if df_unexpected d = [] then []
        else char_lf # ''  unexpected in package:'' @ indented (df_unexpected d))"

definition package_list_args :: "string \<Rightarrow> string list" where
  "package_list_args package =
     [''package'', ''--list'', ''--allow-dirty'', ''--exclude-lockfile'', ''--package'', package]"

definition io_other :: "string \<Rightarrow> io_error" where
  "io_other m = \<lparr>ie_kind = IO_Other, ie_text = m\<rparr>"

definition check_package :: "'w os \<Rightarrow> string \<Rightarrow> PackageSpec \<Rightarrow> ('w, io_error, nat) eff" where
  "check_package os' root package =
     bindE (liftE (map_err (\<lambda>e. \<lparr>ie_kind = IO_InvalidData, ie_text = e\<rparr>)
       (parse_inventory (pk_inventory package) (pk_inventory_path package)))) (\<lambda>expected.
     let args = package_list_args (pk_name package)
     in bindE (modifyE (os_print os'
         (''+ cargo '' @ join '' '' args @ '' (cwd '' @ root @ '')''))) (\<lambda>_.
     bindE (map_errE (\<lambda>e. e\<lparr>ie_text := ''failed to run cargo package --list: '' @ ie_text e\<rparr>)
       (os_output os' (cmd_args args (current_dir root (command_new ''cargo''))) None
         VALIDATION_OUTPUT_LIMITS)) (\<lambda>out.
     bindE (modifyE (if out_stderr out = [] then id else os_print os' (of_bytes (out_stderr out)))) (\<lambda>_.
     bindE (fail_ifE (\<not> out_success out)
       (io_other (''cargo package --list failed with '' @ out_status out))) (\<lambda>_.
     bindE (liftE (map_err (\<lambda>e. \<lparr>ie_kind = IO_InvalidData,
         ie_text = ''cargo package --list returned non-UTF-8 output: '' @ e\<rparr>)
       (from_utf8 (out_stdout out)))) (\<lambda>stdout.
     bindE (liftE (parse_cargo_list stdout)) (\<lambda>listed.
     let actual = insort_insert SYNTHETIC_LOCKFILE listed;
         difference = compare_inventories expected actual
     in if df_missing difference = [] \<and> df_unexpected difference = [] then okE (length actual)
        else failE (io_other (format_difference difference)))))))))"

primrec check_packages ::
  "'w os \<Rightarrow> string \<Rightarrow> PackageSpec list \<Rightarrow> string list \<Rightarrow> ('w, io_error, string list) eff" where
  "check_packages os' root [] failures = okE failures"
| "check_packages os' root (package # rest) failures =
     bindE (attemptE (check_package os' root package)) (\<lambda>r.
     case r of
       Inr count \<Rightarrow>
         bindE (modifyE (os_print os' (pk_name package @ '': package contents match (''
           @ show_nat count @ '' paths)''))) (\<lambda>_. check_packages os' root rest failures)
     | Inl e \<Rightarrow>
         check_packages os' root rest (failures @ [pk_name package @ '': '' @ ie_text e]))"

definition package_content_run :: "'w os \<Rightarrow> string \<Rightarrow> ('w, io_error, unit) eff" where
  "package_content_run os' root =
     bindE (check_packages os' root PACKAGE_SPECS []) (\<lambda>failures.
     fail_ifE (failures \<noteq> [])
       (io_other (''package content validation failed:'' @ [char_lf, char_lf]
          @ join [char_lf, char_lf] failures)))"

section \<open>The format, exactly\<close>

text \<open>A normalized crate-relative path: what the committed inventory may list.\<close>

definition inventory_path_ok :: "string \<Rightarrow> bool" where
  "inventory_path_ok p \<longleftrightarrow>
     p \<noteq> [] \<and> hd p \<noteq> CHR ''#'' \<and> char_backslash \<notin> set p \<and>
     list_all (\<lambda>c. c \<noteq> [] \<and> c \<noteq> ''.'' \<and> c \<noteq> ''..'') (split_char (CHR ''/'') p)"

definition render_inventory :: "string list \<Rightarrow> string" where
  "render_inventory ps = concat (map (\<lambda>p. p @ [char_lf]) ps)"

lemma hd_split_char: "hd (split_char c s) = takeWhile (\<lambda>x. x \<noteq> c) s"
  by (induction s) (auto split: list.splits)

lemma normal_components:
  "inventory_path_ok p \<Longrightarrow> list_all is_normal (path_components p)"
proof -
  assume ok: "inventory_path_ok p"
  then have parts: "\<forall>c \<in> set (split_char (CHR ''/'') p). c \<noteq> [] \<and> c \<noteq> ''.'' \<and> c \<noteq> ''..''"
    by (simp add: inventory_path_ok_def list_all_iff)
  have "hd (split_char (CHR ''/'') p) \<in> set (split_char (CHR ''/'') p)" by simp
  with parts have h: "hd (split_char (CHR ''/'') p) \<noteq> []" "hd (split_char (CHR ''/'') p) \<noteq> ''.''"
    by blast+
  then have "\<not> starts_with p ''/''"
    by (auto simp: hd_split_char starts_with_iff)
  with h parts show ?thesis
    by (auto simp: path_components_def Let_def is_normal_def list_all_iff)
qed

lemma validate_inventory_path_Inr [res_simps]:
  "validate_inventory_path p label n = Inr u \<longleftrightarrow> inventory_path_ok p"
proof
  assume "validate_inventory_path p label n = Inr u"
  then show "inventory_path_ok p"
    by (cases p) (auto simp: validate_inventory_path_def res_simps inventory_path_ok_def
        starts_with_def list_all_iff list_ex_iff)
next
  assume ok: "inventory_path_ok p"
  with normal_components [OF ok] show "validate_inventory_path p label n = Inr u"
    by (cases p) (auto simp: validate_inventory_path_def res_simps inventory_path_ok_def
        starts_with_def list_all_iff list_ex_iff)
qed

lemma inventory_paths_Inr:
  "inventory_paths label ps n prev acc = Inr qs \<longleftrightarrow>
   list_all inventory_path_ok ps \<and>
   sorted_wrt (<) (case prev of None \<Rightarrow> ps | Some p \<Rightarrow> p # ps) \<and>
   qs = foldl (\<lambda>acc p. insort_insert p acc) acc ps"
  if "prev \<noteq> None \<or> acc = []" for prev
  using that
proof (induction ps arbitrary: n prev acc)
  case Nil
  then show ?case by (auto split: option.splits)
next
  case (Cons p ps)
  have "inventory_paths label ps (n + 1) (Some p) (insort_insert p acc) = Inr qs \<longleftrightarrow>
      list_all inventory_path_ok ps \<and> sorted_wrt (<) (p # ps) \<and>
      qs = foldl (\<lambda>acc p. insort_insert p acc) (insort_insert p acc) ps"
    by (subst Cons.IH) auto
  moreover have "sorted_wrt (<) (q # p # ps) \<longleftrightarrow> q < p \<and> sorted_wrt (<) (p # ps)" for q
    by auto
  ultimately show ?case
    by (cases prev) (auto simp: res_simps)
qed

lemma insort_insert_last:
  "sorted_wrt (<) (acc @ p # ps) \<Longrightarrow> insort_insert p acc = acc @ [p]"
  for p :: "'a :: linorder"
proof -
  assume "sorted_wrt (<) (acc @ p # ps)"
  then have "\<forall>x \<in> set acc. x < p" by (auto simp: sorted_wrt_append)
  then show ?thesis
    by (induction acc) (auto simp: insort_insert_key_def split: if_splits)
qed

lemma foldl_insort_insert:
  "sorted_wrt (<) (acc @ ps) \<Longrightarrow> foldl (\<lambda>acc p. insort_insert p acc) acc ps = acc @ ps"
  for ps :: "'a :: linorder list"
  by (induction ps arbitrary: acc) (simp_all add: insort_insert_last)

lemma strip_cr_id: "char_cr \<notin> set s \<Longrightarrow> strip_cr s = s"
  unfolding strip_cr_def by (metis last_in_set)

lemma lines_render:
  "list_all (\<lambda>p. char_lf \<notin> set p \<and> char_cr \<notin> set p) ps \<Longrightarrow> lines (render_inventory ps) = ps"
proof (induction ps)
  case Nil
  then show ?case by (simp add: lines_def render_inventory_def)
next
  case (Cons p ps)
  obtain k ks where k: "split_char char_lf (render_inventory ps) = k # ks"
    by (cases "split_char char_lf (render_inventory ps)") auto
  have "split_char char_lf (render_inventory (p # ps)) = p # k # ks"
    using Cons.prems k split_char_append [of char_lf p "render_inventory ps"]
    by (simp add: render_inventory_def)
  with Cons k show ?case by (simp add: lines_def strip_cr_id)
qed

lemma render_lines:
  "ends_with s [char_lf] \<Longrightarrow> char_cr \<notin> set s \<Longrightarrow> render_inventory (lines s) = s"
proof -
  assume "ends_with s [char_lf]" and cr: "char_cr \<notin> set s"
  then obtain t where s: "s = t @ [char_lf]" by (auto simp: ends_with_iff)
  have parts: "split_char char_lf s = split_char char_lf t @ [[]]"
    using s split_char_join [of char_lf t "[]"] by simp
  have cr': "p \<in> set (split_char char_lf t) \<Longrightarrow> char_cr \<notin> set p" for p
  proof -
    assume p: "p \<in> set (split_char char_lf t)"
    have "set p \<subseteq> set (join [char_lf] ps)" if "p \<in> set ps" for ps
      using that
    proof (induction ps)
      case (Cons a ps)
      then show ?case by (cases ps) auto
    qed simp
    from this [OF p] show ?thesis using cr s by auto
  qed
  have "ps \<noteq> [] \<Longrightarrow> list_all (\<lambda>p. char_cr \<notin> set p) ps \<Longrightarrow>
      render_inventory (lines_from (ps @ [[]])) = join [char_lf] ps @ [char_lf]" for ps
  proof (induction ps)
    case Nil
    then show ?case by simp
  next
    case (Cons p ps)
    then show ?case
      by (cases ps) (simp_all add: render_inventory_def strip_cr_id)
  qed
  from this [of "split_char char_lf t"] show ?thesis
    using cr' parts s by (simp add: lines_def list_all_iff)
qed

text \<open>The lines of a text, and the text of lines.\<close>

lemma lines_no_lf: "q \<in> set (lines t) \<Longrightarrow> char_lf \<notin> set q"
proof -
  have "q \<in> set (lines_from ls) \<Longrightarrow> \<exists>k \<in> set ls. set q \<subseteq> set k" for ls
    by (induction ls rule: lines_from.induct)
      (auto simp: strip_cr_def dest: in_set_butlastD split: if_splits)
  then show "q \<in> set (lines t) \<Longrightarrow> char_lf \<notin> set q"
    unfolding lines_def using split_char_parts by blast
qed

lemma render_chars: "q \<in> set ps \<Longrightarrow> set q \<subseteq> set (render_inventory ps)"
  by (auto simp: render_inventory_def)

lemma rendered_text: "ps \<noteq> [] \<Longrightarrow> render_inventory ps \<noteq> [] \<and> ends_with (render_inventory ps) [char_lf]"
  by (cases ps rule: rev_cases) (auto simp: render_inventory_def ends_with_iff)

text \<open>
  C32: the inventory file format is exact. \<open>parse_inventory\<close> accepts a text with the list \<open>ps\<close> if and
  only if \<open>ps\<close> is not empty, strictly increasing bytewise, of normalized crate-relative paths without
  line breaks, and the text is those paths, each ended by one line feed. Parsing and rendering are
  inverse, and there is one text for each set of paths.
\<close>

theorem inventory_format_exact:
  "parse_inventory text label = Inr ps \<longleftrightarrow>
   ps \<noteq> [] \<and> sorted_wrt (<) ps \<and> list_all inventory_path_ok ps \<and>
   list_all (\<lambda>p. char_lf \<notin> set p \<and> char_cr \<notin> set p) ps \<and> text = render_inventory ps"
  (is "?parse \<longleftrightarrow> ?spec")
proof
  assume p: ?parse
  then have t: "text \<noteq> []" "ends_with text [char_lf]" "char_cr \<notin> set text"
    and "inventory_paths label (lines text) 1 None [] = Inr ps"
    by (auto simp: parse_inventory_def res_simps)
  then have l: "list_all inventory_path_ok (lines text)" "sorted_wrt (<) (lines text)"
    and ps: "ps = foldl (\<lambda>acc p. insort_insert p acc) [] (lines text)"
    by (simp_all add: inventory_paths_Inr)
  from ps l(2) have ps: "ps = lines text" using foldl_insort_insert [of "[]" "lines text"] by simp
  with t have r: "render_inventory ps = text" by (simp add: render_lines)
  have "list_all (\<lambda>p. char_lf \<notin> set p \<and> char_cr \<notin> set p) ps"
    unfolding list_all_iff
  proof
    fix p
    assume "p \<in> set ps"
    with lines_no_lf render_chars [of p ps] t(3) ps r show "char_lf \<notin> set p \<and> char_cr \<notin> set p" by auto
  qed
  moreover have "ps \<noteq> []" using r t(1) by (auto simp: render_inventory_def)
  ultimately show ?spec using l ps r by simp
next
  assume s: ?spec
  then have "lines text = ps" by (simp add: lines_render)
  moreover have "text \<noteq> []" "ends_with text [char_lf]" using s rendered_text [of ps] by simp_all
  moreover have "char_cr \<notin> set text"
    using s by (auto simp: render_inventory_def list_all_iff)
  ultimately show ?parse
    using s foldl_insort_insert [of "[]" ps]
    by (simp add: parse_inventory_def inventory_paths_Inr)
qed

text \<open>The difference is empty exactly for equal sets, and lists exactly what each side lacks.\<close>

lemma compare_inventories_exact:
  "set (df_missing (compare_inventories e a)) = set e - set a"
  "set (df_unexpected (compare_inventories e a)) = set a - set e"
  by (auto simp: compare_inventories_def)

lemma compare_inventories_empty:
  "df_missing (compare_inventories e a) = [] \<and> df_unexpected (compare_inventories e a) = [] \<longleftrightarrow>
   set e = set a"
  by (auto simp: compare_inventories_def filter_empty_conv)

lemma inventory_text_parses: "is_ok (parse_inventory inventory_text label)"
  by (simp add: parse_inventory_def is_ok_iff res_simps inventory_paths_Inr)
    (code_simp)

text \<open>The package check passes only when Cargo lists exactly the committed paths.\<close>

lemma check_package_Inr:
  assumes "check_package os' root package w = (Inr n, w')"
  shows "\<exists>expected listed. parse_inventory (pk_inventory package) (pk_inventory_path package) = Inr expected
    \<and> (\<exists>out. parse_cargo_list out = Inr listed) \<and> set expected = insert SYNTHETIC_LOCKFILE (set listed)"
  using assms unfolding check_package_def Let_def
  by (auto simp: res_simps compare_inventories_empty set_insort_insert split: if_splits)

end
