(* ===== verification/Workspace.thy ===== *)
theory Workspace
  imports Semver Runtime
begin

text \<open>
  What the release commands read of a workspace: the commands of \<open>xtask/src/release.rs\<close> that run
  \<open>git\<close> and return a line or a set of paths, TOML documents as \<open>toml_edit\<close> exposes them, and the
  package metadata of \<open>xtask/src/cargo_metadata_output.rs\<close>. The parsers of \<open>toml_edit\<close> and
  \<open>cargo_metadata\<close> are fields of \<open>release_tools\<close>.
\<close>

section \<open>Documents\<close>

datatype toml =
    TomlString string
  | TomlBool bool
  | TomlTable "(string \<times> toml) list"
  | TomlInline "(string \<times> toml) list"
  | TomlTables "(string \<times> toml) list list"
  | TomlOther

type_synonym toml_table = "(string \<times> toml) list"

fun toml_str :: "toml \<Rightarrow> string option" where
  "toml_str (TomlString s) = Some s"
| "toml_str _ = None"

fun toml_bool :: "toml \<Rightarrow> bool option" where
  "toml_bool (TomlBool b) = Some b"
| "toml_bool _ = None"

fun toml_table :: "toml \<Rightarrow> toml_table option" where
  "toml_table (TomlTable t) = Some t"
| "toml_table _ = None"

text \<open>A table or an inline table; the children \<open>Item::get\<close> reaches.\<close>

fun toml_table_like :: "toml \<Rightarrow> toml_table option" where
  "toml_table_like (TomlTable t) = Some t"
| "toml_table_like (TomlInline t) = Some t"
| "toml_table_like _ = None"

fun toml_tables :: "toml \<Rightarrow> toml_table list option" where
  "toml_tables (TomlTables ts) = Some ts"
| "toml_tables _ = None"

definition toml_get :: "toml_table \<Rightarrow> (toml \<Rightarrow> 'a option) \<Rightarrow> string \<Rightarrow> 'a option" where
  "toml_get t conv key = Option.bind (map_of t key) conv"

section \<open>Cargo metadata\<close>

record cargo_target =
  tg_is_bin :: bool
  tg_is_custom_build :: bool
  tg_is_lib :: bool

record cargo_package =
  cp_name :: string
  cp_version :: version
  cp_publish :: "string list option"
  cp_targets :: "cargo_target list"

type_synonym metadata = "cargo_package list"

text \<open>
  The library code the release commands use: \<open>semver\<close>, the TOML parser, the text of a document after
  its \<open>package.version\<close> is replaced, and the parser of \<open>cargo metadata\<close>.
\<close>

record release_tools =
  rt_semver :: semver
  rt_toml :: "string \<Rightarrow> toml_table result"
  rt_toml_set_version :: "string \<Rightarrow> string \<Rightarrow> string"
  rt_metadata :: "string \<Rightarrow> metadata result"

abbreviation rt_show :: "release_tools \<Rightarrow> version \<Rightarrow> string" where
  "rt_show t \<equiv> sv_show (rt_semver t)"

definition require_within_limit :: "bytes \<Rightarrow> nat \<Rightarrow> string \<Rightarrow> io_error + unit" where
  "require_within_limit bytes limit label =
     fail_if (limit < length bytes)
       \<lparr>ie_kind = IO_InvalidData,
        ie_text = label @ '' exceeded its '' @ show_nat limit @ ''-byte limit''\<rparr>"

definition parse_bounded :: "release_tools \<Rightarrow> bytes \<Rightarrow> string \<Rightarrow> metadata result" where
  "parse_bounded t out invalid_context =
     bindR (map_err ie_text
       (require_within_limit out (ol_stdout VALIDATION_OUTPUT_LIMITS) ''Cargo metadata'')) (\<lambda>_.
     bindR (map_err (\<lambda>e. invalid_context @ '': '' @ e) (from_utf8 out)) (\<lambda>s.
     map_err (\<lambda>e. invalid_context @ '': '' @ e) (rt_metadata t s)))"

fun publishes_to_crates_io :: "string list option \<Rightarrow> bool result" where
  "publishes_to_crates_io None = Inr True"
| "publishes_to_crates_io (Some []) = Inr False"
| "publishes_to_crates_io (Some (r # rs)) =
     (if list_ex (\<lambda>registry. registry = ''crates-io'') (r # rs) then Inr True
      else Inl ''a publishable release package excludes crates-io'')"

section \<open>Commands\<close>

definition path_join :: "string \<Rightarrow> string \<Rightarrow> string" where
  "path_join root relative = root @ ''/'' @ relative"

definition command_output :: "'w os \<Rightarrow> string \<Rightarrow> string \<Rightarrow> string list \<Rightarrow> ('w, process_output) io" where
  "command_output os' root program args =
     map_errE (\<lambda>e. ''run '' @ program @ '': '' @ ie_text e)
       (os_output os' (cmd_args args (current_dir root (command_new program))) None
         VALIDATION_OUTPUT_LIMITS)"

definition require_success :: "process_output \<Rightarrow> string \<Rightarrow> unit result" where
  "require_success out label =
     (if out_success out then Inr ()
      else Inl (label @ '' failed with '' @ out_status out @ '': '' @ trim (from_utf8_lossy (out_stderr out))))"

definition one_line :: "bytes \<Rightarrow> string \<Rightarrow> string result" where
  "one_line bytes label =
     bindR (map_err (\<lambda>_. label @ '' returned non-UTF-8'') (from_utf8 bytes)) (\<lambda>val.
     let val = trim_end_newlines val
     in bindR (fail_if (char_nul \<in> set val) (label @ '' returned NUL'')) (\<lambda>_. Inr val))"

definition git_line :: "'w os \<Rightarrow> string \<Rightarrow> string list \<Rightarrow> ('w, string) io" where
  "git_line os' root args =
     bindE (command_output os' root ''git'' args) (\<lambda>out.
     bindE (liftE (require_success out ''git'')) (\<lambda>_.
     liftE (one_line (out_stdout out) ''git'')))"

definition git_optional_line :: "'w os \<Rightarrow> string \<Rightarrow> string list \<Rightarrow> ('w, string option) io" where
  "git_optional_line os' root args =
     bindE (command_output os' root ''git'' args) (\<lambda>out.
     if out_success out
     then bindE (liftE (one_line (out_stdout out) ''git'')) (\<lambda>s. okE (Some s))
     else okE None)"

fun split_nul :: "bytes \<Rightarrow> bytes list" where
  "split_nul [] = [[]]"
| "split_nul (b # bs) =
     (if b = 0 then [] # split_nul bs
      else case split_nul bs of [] \<Rightarrow> [[b]] | p # ps \<Rightarrow> (b # p) # ps)"

text \<open>The paths as a \<open>BTreeSet\<close>: strictly increasing.\<close>

primrec collect_paths :: "bytes list \<Rightarrow> string list result" where
  "collect_paths [] = Inr []"
| "collect_paths (path # rest) =
     bindR (fail_if (path = []) ''git path inventory contains an empty path'') (\<lambda>_.
     bindR (map_err (\<lambda>_. ''git path inventory contains non-UTF-8'') (from_utf8 path)) (\<lambda>p.
     bindR (collect_paths rest) (\<lambda>ps. Inr (insort_insert p ps))))"

definition parse_paths :: "bytes \<Rightarrow> string list result" where
  "parse_paths out =
     (if out = [] then Inr []
      else bindR (fail_if (last out \<noteq> 0) ''git path inventory lacks its NUL terminator'') (\<lambda>_.
        collect_paths (split_nul (butlast out))))"

definition git_paths :: "'w os \<Rightarrow> string \<Rightarrow> string list \<Rightarrow> ('w, string list) io" where
  "git_paths os' root args =
     bindE (command_output os' root ''git'' args) (\<lambda>out.
     bindE (liftE (require_success out ''git'')) (\<lambda>_.
     liftE (parse_paths (out_stdout out))))"

definition set_union :: "string list \<Rightarrow> string list \<Rightarrow> string list" where
  "set_union xs ys = foldl (\<lambda>acc y. insort_insert y acc) xs ys"

lemma set_union_set [simp]: "set (set_union xs ys) = set xs \<union> set ys"
  unfolding set_union_def by (induction ys arbitrary: xs) (auto simp: set_insort_insert)

text \<open>
  Path inventories: a \<open>NUL\<close>-terminated list of nonempty UTF-8 paths is read as exactly that set.
\<close>

lemma split_nul_terminated:
  "list_all (\<lambda>p. 0 \<notin> set p) ps \<Longrightarrow> ps \<noteq> [] \<Longrightarrow>
   split_nul (butlast (concat (map (\<lambda>p. p @ [0]) ps))) = ps"
proof (induction ps)
  case Nil
  then show ?case by simp
next
  case (Cons p ps)
  have one: "0 \<notin> set p \<Longrightarrow> split_nul p = [p]" for p
    by (induction p) auto
  have more: "0 \<notin> set p \<Longrightarrow> split_nul (p @ 0 # q) = p # split_nul q" for p q
    by (induction p) auto
  show ?case
  proof (cases "ps = []")
    case True
    with Cons.prems one show ?thesis by (simp add: butlast_append)
  next
    case False
    then have "concat (map (\<lambda>p. p @ [0]) ps) \<noteq> []" by (cases ps) auto
    with False Cons more show ?thesis by (simp add: butlast_append)
  qed
qed

lemma collect_paths_set:
  "collect_paths ps = Inr qs \<Longrightarrow>
   set qs = of_bytes ` set ps \<and> (\<forall>p \<in> set ps. p \<noteq> [])"
  by (induction ps arbitrary: qs) (auto simp: res_simps set_insort_insert dest: from_utf8_Inr)

end
