(* ===== verification/Release.thy ===== *)
theory Release
  imports Machine ReleaseBase PackageContent Workspace
begin

text \<open>
  \<open>xtask/src/release.rs\<close>: preparation, activation and checking of one manual release. The pinned
  \<open>release-plz\<close> edits the sources; these functions select the version, restrict what may change and
  verify the result. \<open>release_tools\<close> holds the library parsers, \<open>os\<close> the processes and files.
\<close>

section \<open>Constants\<close>

definition BRANCH_PREFIX :: string where
  "BRANCH_PREFIX = ''release-plz-manual-''"

definition ACTIVATION_BRANCH_PREFIX :: string where
  "ACTIVATION_BRANCH_PREFIX = ''activate-''"

definition RELEASE_CONFIG :: string where
  "RELEASE_CONFIG = ''.release-plz.toml''"

definition RELEASE_CREDENTIAL_ENV :: "string list" where
  "RELEASE_CREDENTIAL_ENV =
     [''ACTIONS_CACHE_URL'', ''ACTIONS_ID_TOKEN_REQUEST_TOKEN'', ''ACTIONS_ID_TOKEN_REQUEST_URL'',
      ''ACTIONS_RESULTS_URL'', ''ACTIONS_RUNTIME_TOKEN'', ''CARGO_REGISTRY_TOKEN'',
      ''CARGO_REGISTRIES_CRATES_IO_TOKEN'', ''GH_TOKEN'', ''GITHUB_TOKEN'', ''GIT_TOKEN'']"

definition RELEASE_DCO_TRAILER :: string where
  "RELEASE_DCO_TRAILER =
     ''Signed-off-by: ddurst <267424412+ddurst-nvidia@users.noreply.github.com>''"

definition RELEASE_SOURCE_PATHS :: "string list" where
  "RELEASE_SOURCE_PATHS = [''CHANGELOG.md'', ''Cargo.toml'']"

definition ACTIVATION_PATHS :: "string list" where
  "ACTIVATION_PATHS = [''Cargo.toml'']"

section \<open>Versions\<close>

definition validate_release_version :: "version \<Rightarrow> unit result" where
  "validate_release_version v =
     fail_if (v_build v \<noteq> []) ''release version may not contain build metadata''"

definition validate_selected_release_version :: "version \<Rightarrow> unit result" where
  "validate_selected_release_version v =
     bindR (validate_release_version v) (\<lambda>_.
     fail_if (v_pre v = ''rc.0'') ''release version may not be the rc.0 coordination stub'')"

definition activation_version :: "release_tools \<Rightarrow> version \<Rightarrow> version \<Rightarrow> version result" where
  "activation_version t current target =
     bindR (fail_if (v_pre current \<noteq> [] \<or> v_build current \<noteq> [])
       ''coordination activation requires a stable current main version'') (\<lambda>_.
     bindR (fail_if (v_pre target \<noteq> [] \<or> v_build target \<noteq> [])
       ''coordination target must be a stable MAJOR.MINOR.PATCH version'') (\<lambda>_.
     bindR (map_err (\<lambda>e. ''derive coordination version: '' @ e)
       (sv_parse (rt_semver t) (rt_show t target @ ''-rc.0''))) (\<lambda>selected.
     bindR (fail_if (\<not> sv_lt (rt_semver t) current selected)
       (''coordination version '' @ rt_show t selected @ '' must advance current main ''
        @ rt_show t current)) (\<lambda>_.
     Inr selected))))"

definition manifest_version :: "release_tools \<Rightarrow> 'w os \<Rightarrow> string \<Rightarrow> ('w, version) io" where
  "manifest_version t os' root =
     bindE (map_errE (\<lambda>e. ''read Cargo.toml: '' @ e)
       (os_read_manifest os' root ''Cargo.toml'')) (\<lambda>body.
     bindE (liftE (map_err (\<lambda>e. ''parse Cargo.toml: '' @ e) (rt_toml t body))) (\<lambda>document.
     bindE (liftE (ok_or (Option.bind (toml_get document toml_table_like ''package'')
         (\<lambda>p. toml_get p toml_str ''version'')) ''Cargo.toml lacks package.version'')) (\<lambda>val.
     bindE (liftE (map_err (\<lambda>e. ''Cargo.toml package.version is invalid: '' @ e)
       (sv_parse (rt_semver t) val))) (\<lambda>v.
     bindE (liftE (validate_release_version v)) (\<lambda>_. okE v)))))"

section \<open>Writing the manifest\<close>

definition path_parent :: "string \<Rightarrow> string option" where
  "path_parent p =
     (case rev (split_char (CHR ''/'') p) of
        [] \<Rightarrow> None
      | [_] \<Rightarrow> Some []
      | _ # parents \<Rightarrow> Some (join ''/'' (rev parents)))"

definition write_exact_file :: "'w os \<Rightarrow> string \<Rightarrow> string \<Rightarrow> string \<Rightarrow> ('w, unit) io" where
  "write_exact_file os' root relative body =
     (let path = path_join root relative in
     bindE (map_errE (\<lambda>e. ''inspect '' @ relative @ '': '' @ e) (os_symlink_metadata os' path)) (\<lambda>md.
     bindE (fail_ifE (\<not> fm_is_file md \<or> fm_is_symlink md) (relative @ '' is not a regular file'')) (\<lambda>_.
     bindE (liftE (ok_or (path_parent path) (relative @ '' has no parent''))) (\<lambda>parent.
     bindE (map_errE (\<lambda>e. ''create restoration file for '' @ relative @ '': '' @ e)
       (os_temp_new os' parent)) (\<lambda>temporary.
     bindE (map_errE (\<lambda>e. ''write restoration file for '' @ relative @ '': '' @ e)
       (os_temp_write os' temporary (as_bytes body))) (\<lambda>_.
     bindE (map_errE (\<lambda>e. ''preserve permissions for '' @ relative @ '': '' @ e)
       (os_temp_permissions os' temporary (fm_permissions md))) (\<lambda>_.
     bindE (map_errE (\<lambda>e. ''sync restoration file for '' @ relative @ '': '' @ e)
       (os_temp_sync os' temporary)) (\<lambda>_.
     map_errE (\<lambda>e. ''restore '' @ relative @ '': '' @ e)
       (os_temp_persist os' temporary path)))))))))"

definition set_activation_manifest_version ::
  "release_tools \<Rightarrow> 'w os \<Rightarrow> string \<Rightarrow> version \<Rightarrow> version \<Rightarrow> ('w, unit) io" where
  "set_activation_manifest_version t os' root current selected =
     bindE (map_errE (\<lambda>e. ''read Cargo.toml for coordination activation: '' @ e)
       (os_read_manifest os' root ''Cargo.toml'')) (\<lambda>body.
     bindE (liftE (map_err (\<lambda>e. ''parse Cargo.toml for coordination activation: '' @ e)
       (rt_toml t body))) (\<lambda>document.
     bindE (liftE (ok_or (Option.bind (toml_get document toml_table_like ''package'')
         (\<lambda>p. map_of p ''version'')) ''Cargo.toml lacks package.version'')) (\<lambda>item.
     bindE (fail_ifE (toml_str item \<noteq> Some (rt_show t current))
       (''Cargo.toml package.version changed from expected '' @ rt_show t current)) (\<lambda>_.
     write_exact_file os' root ''Cargo.toml'' (rt_toml_set_version t body (rt_show t selected))))))"

section \<open>Git state\<close>

definition require_activation_branch ::
  "release_tools \<Rightarrow> 'w os \<Rightarrow> string \<Rightarrow> version \<Rightarrow> ('w, unit) io" where
  "require_activation_branch t os' root target =
     (let expected = ACTIVATION_BRANCH_PREFIX @ rt_show t target in
     bindE (git_optional_line os' root [''symbolic-ref'', ''--short'', ''HEAD'']) (\<lambda>current.
     bindE (liftE (ok_or current ''coordination activation requires a named local branch'')) (\<lambda>observed.
     fail_ifE (observed \<noteq> expected)
       (''coordination activation branch differs: expected '' @ expected @ '', found '' @ observed))))"

definition require_branch :: "release_tools \<Rightarrow> 'w os \<Rightarrow> string \<Rightarrow> version \<Rightarrow> ('w, unit) io" where
  "require_branch t os' root v =
     (let expected = BRANCH_PREFIX @ rt_show t v in
     bindE (git_optional_line os' root [''symbolic-ref'', ''--short'', ''HEAD'']) (\<lambda>current.
     bindE (readE (os_var os' ''YAML_SIGIL_RELEASE_PR_BRANCH'')) (\<lambda>env.
     let named = (case env of Some b \<Rightarrow> if b \<noteq> [] then Some b else current | None \<Rightarrow> current)
     in bindE (liftE (ok_or named ''release branch identity is unavailable'')) (\<lambda>observed.
     fail_ifE (observed \<noteq> expected)
       (''release branch differs: expected '' @ expected @ '', found '' @ observed)))))"

definition require_exact_git_state ::
  "'w os \<Rightarrow> string \<Rightarrow> bool \<Rightarrow> release_line \<Rightarrow> ('w, unit) io" where
  "require_exact_git_state os' root clean_start l =
     bindE (git_line os' root [''rev-parse'', ''HEAD'']) (\<lambda>head.
     bindE (git_line os' root [''rev-parse'', tracking_ref l]) (\<lambda>main.
     bindE (fail_ifE (head \<noteq> main)
       ''release preparation must start at the exact selected origin base'') (\<lambda>_.
     if clean_start
     then bindE (git_line os' root [''status'', ''--porcelain'']) (\<lambda>status.
       fail_ifE (status \<noteq> []) ''release preparation requires a clean worktree'')
     else okE ())))"

definition release_changed_paths :: "'w os \<Rightarrow> string \<Rightarrow> release_line \<Rightarrow> ('w, string list) io" where
  "release_changed_paths os' root l =
     bindE (git_paths os' root [''diff'', ''--name-only'', ''--no-renames'', ''-z'', tracking_ref l]) (\<lambda>a.
     bindE (git_paths os' root [''ls-files'', ''--others'', ''--exclude-standard'', ''-z'']) (\<lambda>b.
     okE (set_union a b)))"

definition require_release_path_subset :: "'w os \<Rightarrow> string \<Rightarrow> release_line \<Rightarrow> ('w, unit) io" where
  "require_release_path_subset os' root l =
     bindE (release_changed_paths os' root l) (\<lambda>actual.
     liftE (forR actual (\<lambda>path. fail_if (path \<notin> set RELEASE_SOURCE_PATHS)
       (''release-plz changed unexpected path '' @ path))))"

definition require_exact_changed_paths ::
  "'w os \<Rightarrow> string \<Rightarrow> string list \<Rightarrow> string \<Rightarrow> ('w, unit) io" where
  "require_exact_changed_paths os' root expected label =
     bindE (git_paths os' root [''diff'', ''--name-only'', ''--no-renames'', ''-z'', ''HEAD'']) (\<lambda>a.
     bindE (git_paths os' root [''ls-files'', ''--others'', ''--exclude-standard'', ''-z'']) (\<lambda>b.
     let actual = set_union a b; expected = set_union [] expected
     in fail_ifE (actual \<noteq> expected)
       (label @ '' paths differ: expected ['' @ join '', '' expected @ ''], found ['' @ join '', '' actual
        @ '']'')))"

definition require_one_signed_commit :: "'w os \<Rightarrow> string \<Rightarrow> release_line \<Rightarrow> ('w, unit) io" where
  "require_one_signed_commit os' root l =
     bindE (git_line os' root [''rev-parse'', tracking_ref l]) (\<lambda>main.
     bindE (git_line os' root [''rev-list'', ''--count'', tracking_ref l @ ''..HEAD'']) (\<lambda>count.
     bindE (git_line os' root [''rev-parse'', ''HEAD^'']) (\<lambda>parent.
     bindE (fail_ifE (count \<noteq> ''1'' \<or> parent \<noteq> main)
       ''release PR must contain one commit current with the selected origin base'') (\<lambda>_.
     bindE (git_line os' root [''cat-file'', ''commit'', ''HEAD'']) (\<lambda>raw.
     bindE (fail_ifE (\<not> contains raw ''gpgsig -----BEGIN SSH SIGNATURE-----'')
       ''release PR commit lacks an SSH signature'') (\<lambda>_.
     bindE (git_line os' root [''show'', ''-s'', ''--format=%B'', ''HEAD'']) (\<lambda>message.
     fail_ifE (\<not> list_ex (\<lambda>line. line = RELEASE_DCO_TRAILER) (lines message))
       ''release PR commit lacks the required DCO sign-off'')))))))"

definition require_release_changes ::
  "'w os \<Rightarrow> string \<Rightarrow> bool \<Rightarrow> release_line \<Rightarrow> ('w, unit) io" where
  "require_release_changes os' root accept_committed l =
     bindE (git_line os' root [''status'', ''--porcelain'']) (\<lambda>status.
     let dirty = (status \<noteq> [])
     in bindE (fail_ifE (accept_committed \<and> dirty) ''release check requires the sole release commit'') (\<lambda>_.
     bindE (if \<not> accept_committed \<and> dirty then require_exact_git_state os' root False l
            else if accept_committed then require_one_signed_commit os' root l
            else failE ''release-plz did not produce source changes'') (\<lambda>_.
     bindE (release_changed_paths os' root l) (\<lambda>actual.
     let expected = set_union [] RELEASE_SOURCE_PATHS
     in fail_ifE (actual \<noteq> expected)
       (''release paths differ: expected ['' @ join '', '' expected @ ''], found ['' @ join '', '' actual
        @ '']'')))))"

section \<open>Configuration, metadata and changelog\<close>

definition WORKSPACE_KEYS :: "string list" where
  "WORKSPACE_KEYS =
     [''changelog_update'', ''git_release_enable'', ''git_release_type'', ''git_tag_enable'',
      ''pr_branch_prefix'', ''publish_allow_dirty'', ''publish_no_verify'', ''publish_timeout'',
      ''release'', ''release_always'', ''semver_check'']"

definition PACKAGE_KEYS :: "string list" where
  "PACKAGE_KEYS =
     [''changelog_path'', ''changelog_update'', ''git_release_body'', ''git_release_enable'',
      ''git_release_name'', ''git_release_type'', ''git_tag_enable'', ''git_tag_name'', ''name'',
      ''publish'', ''release'']"

definition validate_workspace_table :: "toml_table \<Rightarrow> unit result" where
  "validate_workspace_table workspace =
     bindR (fail_if (set (map fst workspace) \<noteq> set WORKSPACE_KEYS)
       ''release-plz workspace keys differ from exact policy'') (\<lambda>_.
     bindR (forR [''release'', ''release_always'', ''git_tag_enable'', ''git_release_enable'',
         ''publish_allow_dirty'', ''publish_no_verify'', ''semver_check'']
       (\<lambda>key. fail_if (toml_get workspace toml_bool key \<noteq> Some False)
         (''release-plz workspace.'' @ key @ '' must be false''))) (\<lambda>_.
     bindR (fail_if (toml_get workspace toml_str ''pr_branch_prefix'' \<noteq> Some BRANCH_PREFIX)
       (''release-plz workspace.pr_branch_prefix must be '' @ BRANCH_PREFIX)) (\<lambda>_.
     bindR (forR [(''git_release_type'', ''auto''), (''publish_timeout'', ''5m'')]
       (\<lambda>(key, expected). fail_if (toml_get workspace toml_str key \<noteq> Some expected)
         (''release-plz workspace.'' @ key @ '' must be '' @ expected))) (\<lambda>_.
     fail_if (toml_get workspace toml_bool ''changelog_update'' \<noteq> Some True)
       ''release-plz workspace.changelog_update must be true''))))"

definition validate_package_table :: "toml_table \<Rightarrow> unit result" where
  "validate_package_table package =
     bindR (fail_if (set (map fst package) \<noteq> set PACKAGE_KEYS)
       ''release-plz package keys differ from exact policy'') (\<lambda>_.
     fail_if
       (toml_get package toml_str ''name'' \<noteq> Some (pp_package TRAITS_PACKAGE)
        \<or> toml_get package toml_bool ''release'' \<noteq> Some True
        \<or> toml_get package toml_bool ''publish'' \<noteq> Some True
        \<or> toml_get package toml_bool ''changelog_update'' \<noteq> Some True
        \<or> toml_get package toml_str ''changelog_path'' \<noteq> Some ''CHANGELOG.md''
        \<or> toml_get package toml_bool ''git_tag_enable'' \<noteq> Some False
        \<or> toml_get package toml_str ''git_tag_name'' \<noteq> Some ''v{{ version }}''
        \<or> toml_get package toml_bool ''git_release_enable'' \<noteq> Some False
        \<or> toml_get package toml_str ''git_release_name'' \<noteq> Some ''v{{ version }}''
        \<or> toml_get package toml_str ''git_release_body'' \<noteq> Some ''{{ changelog }}''
        \<or> toml_get package toml_str ''git_release_type'' \<noteq> Some ''auto'')
       ''release-plz package policy is not exact'')"

definition validate_release_config :: "release_tools \<Rightarrow> 'w os \<Rightarrow> string \<Rightarrow> ('w, unit) io" where
  "validate_release_config t os' root =
     bindE (map_errE (\<lambda>e. ''read '' @ RELEASE_CONFIG @ '': '' @ e)
       (os_read_manifest os' root RELEASE_CONFIG)) (\<lambda>body.
     bindE (liftE (map_err (\<lambda>e. ''parse '' @ RELEASE_CONFIG @ '': '' @ e) (rt_toml t body))) (\<lambda>document.
     bindE (liftE (ok_or (toml_get document toml_table ''workspace'')
       ''release-plz config lacks [workspace]'')) (\<lambda>workspace.
     bindE (liftE (validate_workspace_table workspace)) (\<lambda>_.
     bindE (liftE (ok_or (toml_get document toml_tables ''package'')
       ''release-plz config lacks [[package]]'')) (\<lambda>packages.
     bindE (fail_ifE (length packages \<noteq> 1)
       ''release-plz config must contain one package policy'') (\<lambda>_.
     bindE (liftE (case packages of [] \<Rightarrow> Inl ''release-plz config lacks its package policy''
       | p # _ \<Rightarrow> Inr p)) (\<lambda>package.
     liftE (validate_package_table package))))))))"

definition is_version_heading :: "string \<Rightarrow> string \<Rightarrow> bool" where
  "is_version_heading line heading =
     (case strip_prefix line heading of
        None \<Rightarrow> False
      | Some suffix \<Rightarrow> suffix = [] \<or> starts_with suffix ''('' \<or> starts_with suffix '' - '')"

definition validate_changelog :: "release_tools \<Rightarrow> 'w os \<Rightarrow> string \<Rightarrow> version \<Rightarrow> ('w, unit) io" where
  "validate_changelog t os' root v =
     bindE (map_errE (\<lambda>e. ''read changelog: '' @ e)
       (os_read_manifest os' root (pp_changelog TRAITS_PACKAGE))) (\<lambda>body.
     let heading = ''## ['' @ rt_show t v @ '']''
     in fail_ifE (length (filter (\<lambda>line. is_version_heading line heading) (lines body)) \<noteq> 1)
       (''changelog must contain one exact '' @ rt_show t v @ '' release heading''))"

definition workspace_metadata :: "release_tools \<Rightarrow> 'w os \<Rightarrow> string \<Rightarrow> ('w, metadata) io" where
  "workspace_metadata t os' root =
     bindE (readE (os_var os' ''CARGO'')) (\<lambda>cargo.
     bindE (command_output os' root (case cargo of None \<Rightarrow> ''cargo'' | Some c \<Rightarrow> c)
       [''metadata'', ''--no-deps'', ''--format-version'', ''1'']) (\<lambda>out.
     bindE (liftE (require_success out ''cargo metadata'')) (\<lambda>_.
     liftE (parse_bounded t (out_stdout out) ''Cargo returned invalid metadata''))))"

primrec publishable_packages :: "cargo_package list \<Rightarrow> cargo_package list result" where
  "publishable_packages [] = Inr []"
| "publishable_packages (p # ps) =
     bindR (publishes_to_crates_io (cp_publish p)) (\<lambda>b.
     bindR (publishable_packages ps) (\<lambda>qs. Inr (if b then p # qs else qs)))"

definition validate_metadata :: "metadata \<Rightarrow> version option \<Rightarrow> unit result" where
  "validate_metadata md v =
     bindR (publishable_packages md) (\<lambda>publishable.
     bindR (fail_if (length publishable \<noteq> 1 \<or> cp_name (publishable ! 0) \<noteq> pp_package TRAITS_PACKAGE)
       ''publishable package set is not exactly yaml-sigil-traits'') (\<lambda>_.
     let package = publishable ! 0
     in bindR (fail_if (case v of None \<Rightarrow> False | Some expected \<Rightarrow> cp_version package \<noteq> expected)
       ''Cargo metadata release version differs'') (\<lambda>_.
     fail_if
       (list_ex (\<lambda>target. tg_is_bin target \<or> tg_is_custom_build target) (cp_targets package) \<or>
        length (filter tg_is_lib (cp_targets package)) \<noteq> 1)
       ''release package must contain one library and no executable target'')))"

definition check_manifest :: "release_tools \<Rightarrow> 'w os \<Rightarrow> string \<Rightarrow> ('w, unit) io" where
  "check_manifest t os' root =
     bindE (validate_release_config t os' root) (\<lambda>_.
     bindE (workspace_metadata t os' root) (\<lambda>md.
     liftE (validate_metadata md None)))"

definition validate_release_content ::
  "release_tools \<Rightarrow> 'w os \<Rightarrow> string \<Rightarrow> version \<Rightarrow> ('w, unit) io" where
  "validate_release_content t os' root v =
     bindE (check_manifest t os' root) (\<lambda>_.
     bindE (manifest_version t os' root) (\<lambda>actual.
     bindE (fail_ifE (actual \<noteq> v)
       (''release version differs: expected '' @ rt_show t v @ '', found '' @ rt_show t actual)) (\<lambda>_.
     validate_changelog t os' root v)))"

section \<open>release-plz\<close>

definition release_plz_command :: "string \<Rightarrow> command" where
  "release_plz_command root =
     foldl (\<lambda>c name. env_remove name c) (current_dir root (command_new ''release-plz''))
       RELEASE_CREDENTIAL_ENV"

definition release_plz_set_version :: "release_tools \<Rightarrow> string \<Rightarrow> version \<Rightarrow> command" where
  "release_plz_set_version t root selected =
     cmd_args [''set-version'', rt_show t selected, ''--manifest-path'', ''Cargo.toml'', ''--config'',
       RELEASE_CONFIG] (release_plz_command root)"

definition require_release_plz :: "'w os \<Rightarrow> string \<Rightarrow> ('w, unit) io" where
  "require_release_plz os' root =
     bindE (map_errE (\<lambda>e. ''run release-plz: '' @ ie_text e)
       (os_output os' (cmd_args [''--version''] (release_plz_command root)) None
         VALIDATION_OUTPUT_LIMITS)) (\<lambda>out.
     bindE (liftE (require_success out ''release-plz --version'')) (\<lambda>_.
     bindE (liftE (one_line (out_stdout out) ''release-plz --version'')) (\<lambda>actual.
     let expected = ''release-plz '' @ RELEASE_PLZ_VERSION
     in fail_ifE (actual \<noteq> expected) (''expected '' @ expected @ ''; found '' @ actual))))"

text \<open>The version selections \<open>set-version\<close> may make after \<open>update\<close>, in the order they are tried.\<close>

definition same_core :: "version \<Rightarrow> version \<Rightarrow> bool" where
  "same_core a b \<longleftrightarrow> v_major a = v_major b \<and> v_minor a = v_minor b \<and> v_patch a = v_patch b"

definition real_rc :: "string \<Rightarrow> bool" where
  "real_rc pre =
     (case strip_prefix pre ''rc.'' of
        None \<Rightarrow> False
      | Some ordinal \<Rightarrow> ordinal \<noteq> [] \<and> ordinal \<noteq> ''0'' \<and> list_all is_ascii_digit ordinal)"

definition next_rc :: "string \<Rightarrow> u64 option" where
  "next_rc pre =
     Option.bind (strip_prefix pre ''rc.'') (\<lambda>ordinal.
     Option.bind (parse_u64 ordinal) (\<lambda>n. if 0 < n then checked_add n 1 else None))"

definition require_exact_version_adjustment ::
  "semver \<Rightarrow> version \<Rightarrow> version \<Rightarrow> version \<Rightarrow> string result" where
  "require_exact_version_adjustment sv original derived selected =
     (if same_core derived selected \<and> v_pre original = ''rc.0'' \<and> derived = original \<and>
         sv_lt sv original selected \<and> (v_pre selected = [] \<or> real_rc (v_pre selected))
      then Inr ''replaced the rc.0 activation stub with the first release''
      else if same_core derived selected \<and> derived = original \<and>
         (case next_rc (v_pre original) of None \<Rightarrow> False
          | Some n \<Rightarrow> v_pre selected = ''rc.'' @ show_u64 n)
      then Inr ''advanced the unchanged release candidate''
      else if same_core derived selected \<and> v_pre original \<noteq> [] \<and> v_pre selected = [] \<and>
         same_core original selected \<and> v_pre derived \<noteq> [] \<and>
         (derived = original \<or> sv_lt sv original derived) \<and> sv_lt sv derived selected
      then Inr ''promoted the current prerelease to stable''
      else if same_core derived selected \<and> v_pre original = [] \<and> v_pre selected \<noteq> [] \<and>
         v_pre derived = [] \<and> sv_lt sv original selected \<and> sv_lt sv selected derived
      then Inr ''started the release-plz-derived version as a prerelease''
      else if v_pre original = [] \<and> v_build original = [] \<and> derived = original \<and>
         v_major selected = v_major original \<and> v_minor selected = v_minor original \<and>
         checked_add (v_patch original) 1 = Some (v_patch selected) \<and>
         v_pre selected = ''rc.1'' \<and> v_build selected = []
      then Inr ''started the next patch RC from unchanged stable package contents''
      else Inl (''release-plz derived '' @ sv_show sv derived @ '', not selected release ''
        @ sv_show sv selected @ ''; only a new prerelease, the first next-patch RC from unchanged ''
        @ ''stable package contents, the first same-core release from rc.0, the next unchanged ''
        @ ''RC, or promotion of the current same-core prerelease is supported''))"

definition apply_exact_version ::
  "release_tools \<Rightarrow> 'w os \<Rightarrow> string \<Rightarrow> version \<Rightarrow> version \<Rightarrow> version \<Rightarrow> release_line \<Rightarrow> ('w, unit) io" where
  "apply_exact_version t os' root original derived selected l =
     bindE (liftE (require_exact_version_adjustment (rt_semver t) original derived selected)) (\<lambda>adjustment.
     bindE (require_release_path_subset os' root l) (\<lambda>_.
     bindE (map_errE (\<lambda>e. ''run release-plz set-version: '' @ ie_text e)
       (os_status os' (release_plz_set_version t root selected))) (\<lambda>(success, status).
     bindE (fail_ifE (\<not> success) (''release-plz set-version failed with '' @ status)) (\<lambda>_.
     modifyE (os_print os' (''release: '' @ adjustment @ ''; adjusted release-plz-derived ''
       @ rt_show t derived @ '' to '' @ rt_show t selected))))))"

section \<open>The commands\<close>

definition activate :: "release_tools \<Rightarrow> 'w os \<Rightarrow> string \<Rightarrow> version \<Rightarrow> ('w, unit) io" where
  "activate t os' root target =
     bindE (manifest_version t os' root) (\<lambda>current.
     bindE (liftE (activation_version t current target)) (\<lambda>selected.
     bindE (require_activation_branch t os' root target) (\<lambda>_.
     bindE (require_exact_git_state os' root True Main) (\<lambda>_.
     bindE (set_activation_manifest_version t os' root current selected) (\<lambda>_.
     bindE (require_exact_changed_paths os' root ACTIVATION_PATHS ''activation'') (\<lambda>_.
     bindE (manifest_version t os' root) (\<lambda>retained.
     bindE (fail_ifE (retained \<noteq> selected)
       (''activation did not retain exact version '' @ rt_show t selected)) (\<lambda>_.
     modifyE (os_print os' (''release: prepared unpublished coordination state ''
       @ rt_show t selected @ ''; only Cargo.toml changed''))))))))))"

definition prepare_release ::
  "release_tools \<Rightarrow> 'w os \<Rightarrow> string \<Rightarrow> version \<Rightarrow> release_line \<Rightarrow> ('w, unit) io" where
  "prepare_release t os' root v l =
     bindE (validate_version (rt_semver t) os' root l v ''v'') (\<lambda>_.
     bindE (liftE (validate_selected_release_version v)) (\<lambda>_.
     bindE (require_branch t os' root v) (\<lambda>_.
     bindE (require_exact_git_state os' root True l) (\<lambda>_.
     bindE (require_release_plz os' root) (\<lambda>_.
     bindE (manifest_version t os' root) (\<lambda>original.
     bindE (map_errE (\<lambda>e. ''run release-plz update: '' @ ie_text e)
       (os_status os' (cmd_args [''update'', ''--config'', RELEASE_CONFIG, ''--manifest-path'',
          ''Cargo.toml''] (release_plz_command root)))) (\<lambda>(success, status).
     bindE (fail_ifE (\<not> success) (''release-plz update failed with '' @ status)) (\<lambda>_.
     bindE (manifest_version t os' root) (\<lambda>derived.
     bindE (if derived \<noteq> v then apply_exact_version t os' root original derived v l else okE ()) (\<lambda>_.
     bindE (require_release_changes os' root False l) (\<lambda>_.
     bindE (validate_release_content t os' root v) (\<lambda>_.
     modifyE (os_print os' (''release: prepared source changes for '' @ rt_show t v))))))))))))))"

definition check ::
  "release_tools \<Rightarrow> 'w os \<Rightarrow> string \<Rightarrow> version \<Rightarrow> release_line \<Rightarrow> ('w, unit) io" where
  "check t os' root v l =
     bindE (liftE (require_version (rt_semver t) l v)) (\<lambda>_.
     bindE (liftE (validate_selected_release_version v)) (\<lambda>_.
     bindE (require_branch t os' root v) (\<lambda>_.
     bindE (require_release_changes os' root True l) (\<lambda>_.
     bindE (validate_release_content t os' root v) (\<lambda>_.
     bindE (map_errE ie_text (package_content_run os' root)) (\<lambda>_.
     modifyE (os_print os' (''release: validated the '' @ rt_show t v
       @ '' source-only release transaction''))))))))"

datatype release_command =
    Activate version
  | Prepare "string option" version
  | Check "string option" version

fun release_run :: "release_tools \<Rightarrow> 'w os \<Rightarrow> string \<Rightarrow> release_command \<Rightarrow> ('w, unit) io" where
  "release_run t os' root (Activate v) = activate t os' root v"
| "release_run t os' root (Prepare base v) =
     bindE (resolve os' root base) (\<lambda>l. prepare_release t os' root v l)"
| "release_run t os' root (Check base v) =
     bindE (resolve os' root base) (\<lambda>l. check t os' root v l)"

section \<open>Version selection\<close>

text \<open>SemVer's grammar: a numeric prerelease identifier has no leading zero.\<close>

definition canonical_rc :: "version \<Rightarrow> bool" where
  "canonical_rc v \<longleftrightarrow>
     (case strip_prefix (v_pre v) ''rc.'' of
        None \<Rightarrow> True
      | Some ordinal \<Rightarrow> parse_u64 ordinal = None \<or> canonical_digits ordinal)"

lemma next_rc_Some:
  "next_rc pre = Some n \<longleftrightarrow>
   (\<exists>ordinal k. pre = ''rc.'' @ ordinal \<and> parse_u64 ordinal = Some k \<and> 0 < k \<and> unat n = unat k + 1)"
  by (auto simp: next_rc_def bind_eq_Some_conv res_simps)

lemma next_rc_advances:
  assumes "semver_laws sv" and "canonical_rc v" and "same_core v w"
    and "next_rc (v_pre v) = Some n" and "v_pre w = ''rc.'' @ show_u64 n"
  shows "sv_lt sv v w"
proof -
  from assms(4) obtain ordinal k where k: "v_pre v = ''rc.'' @ ordinal" "parse_u64 ordinal = Some k"
      "0 < k" "unat n = unat k + 1"
    by (auto simp: next_rc_Some)
  from k(1) have "strip_prefix (v_pre v) ''rc.'' = Some ordinal" by (simp only: strip_prefix_append)
  with assms(2) k(2) have "canonical_digits ordinal" by (simp add: canonical_rc_def)
  with k have "v_pre v = ''rc.'' @ show_u64 k" by (simp add: parse_u64_canonical)
  moreover have "k < n" using k(4) by (simp add: word_less_nat_alt)
  ultimately show ?thesis
    using assms(3,5) semver_laws.lt_rc [OF assms(1)] by (simp add: same_core_def)
qed

text \<open>
  C23: whatever selection \<open>set-version\<close> is allowed to make, it moves the package forward. Every
  adjustment \<open>require_exact_version_adjustment\<close> accepts selects a version strictly above the version
  the sources had before \<open>release-plz update\<close>, and never above the derived version's core except for
  the first release candidate of the next patch of unchanged contents.
\<close>

theorem adjustment_advances:
  assumes "semver_laws sv" and "canonical_rc original"
    and "require_exact_version_adjustment sv original derived selected = Inr reason"
  shows "sv_lt sv original selected \<and>
    (same_core derived selected \<or>
     derived = original \<and> selected = rc_version (v_major original) (v_minor original)
       (v_patch selected) 1 \<and> unat (v_patch selected) = unat (v_patch original) + 1)"
proof -
  note laws = assms(1)
  consider (stub) "same_core derived selected" "sv_lt sv original selected"
    | (rc) n where "same_core derived selected" "derived = original"
        "next_rc (v_pre original) = Some n" "v_pre selected = ''rc.'' @ show_u64 n"
    | (stable) "same_core derived selected" "v_pre original \<noteq> []" "v_pre selected = []"
        "same_core original selected"
    | (new) "same_core derived selected" "sv_lt sv original selected"
    | (patch) "derived = original" "v_major selected = v_major original"
        "v_minor selected = v_minor original"
        "checked_add (v_patch original) 1 = Some (v_patch selected)"
        "v_pre selected = ''rc.1''" "v_build selected = []"
    using assms(3) by (auto simp: require_exact_version_adjustment_def split: if_splits option.splits)
  then show ?thesis
  proof cases
    case rc
    then have "same_core original selected" by simp
    with rc show ?thesis using next_rc_advances [OF laws assms(2)] by blast
  next
    case stable
    then show ?thesis
      using semver_laws.lt_release [OF laws, of original selected] by (simp add: same_core_def)
  next
    case patch
    then have p: "unat (v_patch selected) = unat (v_patch original) + 1"
      by (simp add: checked_add_Some)
    then have "core original < core selected"
      using patch by (simp add: word_less_nat_alt)
    then have "sv_lt sv original selected" by (rule semver_laws.lt_core [OF laws])
    moreover have "show_u64 1 = ''1''" by code_simp
    ultimately show ?thesis using patch p by (cases selected) simp
  qed simp_all
qed

theorem adjustment_advances_witness:
  "sv_lt semver_ref (rc_version 0 6 0 1) (release_version 0 6 0)"
proof -
  have "canonical_rc (rc_version 0 6 0 1)"
    "require_exact_version_adjustment semver_ref (rc_version 0 6 0 1) (rc_version 0 6 0 2)
       (release_version 0 6 0) = Inr ''promoted the current prerelease to stable''"
    by code_simp+
  from adjustment_advances [OF ref.semver_laws_axioms this] show ?thesis by simp
qed

section \<open>What the commands may run\<close>

text \<open>
  The subprocesses of a release command: \<open>git\<close> with a subcommand that only reads, \<open>release-plz\<close>
  without any credential in its environment and with a subcommand that only edits the sources, and
  \<open>cargo\<close> to list metadata or package contents.
\<close>

definition reading_git :: "string list \<Rightarrow> bool" where
  "reading_git args \<longleftrightarrow> args \<noteq> [] \<and>
     (hd args \<in> {''symbolic-ref'', ''merge-base'', ''rev-parse'', ''status'', ''diff'', ''ls-files'',
        ''rev-list'', ''cat-file'', ''show'', ''ls-tree''} \<or>
      take 2 args = [''tag'', ''--merged''])"

definition without_credentials :: "command \<Rightarrow> bool" where
  "without_credentials c \<longleftrightarrow> cm_env c = map EnvRemove RELEASE_CREDENTIAL_ENV"

definition editing_release_plz :: "command \<Rightarrow> bool" where
  "editing_release_plz c \<longleftrightarrow> cm_program c = ''release-plz'' \<and> without_credentials c \<and>
     cm_args c \<noteq> [] \<and> hd (cm_args c) \<in> {''--version'', ''update'', ''set-version''}"

fun run_command :: "process_run \<Rightarrow> command" where
  "run_command (Bounded c i l) = c"
| "run_command (Inherited c) = c"
| "run_command (Captured c) = c"

definition confined :: "process_run \<Rightarrow> bool" where
  "confined r \<longleftrightarrow> (let c = run_command r in
     cm_program c = ''git'' \<and> reading_git (cm_args c) \<or>
     editing_release_plz c \<or>
     take 2 (cm_args c) \<in> {[''metadata'', ''--no-deps''], [''package'', ''--list'']})"

lemma release_plz_fields [simp]:
  "cm_program (release_plz_command root) = ''release-plz''"
  "cm_args (release_plz_command root) = []"
  "cm_env (release_plz_command root) = map EnvRemove RELEASE_CREDENTIAL_ENV"
  by (simp_all add: release_plz_command_def RELEASE_CREDENTIAL_ENV_def env_remove_def current_dir_def
      command_new_def)

lemma command_fields [simp]:
  "cm_program (cmd_args as c) = cm_program c"
  "cm_args (cmd_args as c) = cm_args c @ as"
  "cm_env (cmd_args as c) = cm_env c"
  "cm_program (current_dir d c) = cm_program c"
  "cm_args (current_dir d c) = cm_args c"
  "cm_env (current_dir d c) = cm_env c"
  "cm_program (command_new p) = p"
  "cm_args (command_new p) = []"
  by (simp_all add: cmd_args_def current_dir_def command_new_def)

lemma reading_gits [simp]:
  "reading_git (''symbolic-ref'' # as)" "reading_git (''merge-base'' # as)"
  "reading_git (''rev-parse'' # as)" "reading_git (''status'' # as)" "reading_git (''diff'' # as)"
  "reading_git (''ls-files'' # as)" "reading_git (''rev-list'' # as)" "reading_git (''cat-file'' # as)"
  "reading_git (''show'' # as)" "reading_git (''ls-tree'' # as)" "reading_git (''tag'' # ''--merged'' # as)"
  by (simp_all add: reading_git_def)

text \<open>
  A machine on which the packages may be listed, one whose source may be read through \<open>git\<close>, and one for
  whole release commands.
\<close>

locale listing_machine = reading_machine +
  assumes listing: "take 2 (cm_args c) \<in> {[''metadata'', ''--no-deps''], [''package'', ''--list'']} \<Longrightarrow>
    P (Bounded c input limits)"
begin

lemma command_output_keeps:
  "P (Bounded (cmd_args args (current_dir root (command_new p))) None VALIDATION_OUTPUT_LIMITS) \<Longrightarrow>
   keeps F (command_output os' root p args)"
  unfolding command_output_def by (intro keeps keeps_output)

lemma check_manifest_keeps [keeps]:
  "keeps F (validate_release_config t os' root)"
  "keeps F (workspace_metadata t os' root)"
  "keeps F (check_manifest t os' root)"
  unfolding check_manifest_def validate_release_config_def workspace_metadata_def Let_def
  by (intro keeps command_output_keeps listing; simp)+

lemma package_content_keeps [keeps]: "keeps F (package_content_run os' root)"
proof -
  have one: "keeps F (check_package os' root p)" for p
    unfolding check_package_def Let_def
    by (intro keeps keeps_output listing; simp add: package_list_args_def)
  have "keeps F (check_packages os' root ps failures)" for ps failures
    by (induction ps arbitrary: failures) (auto intro!: keeps one)
  then show ?thesis
    unfolding package_content_run_def by (intro keeps)
qed

end

locale source_machine = listing_machine +
  assumes reading: "reading_git args \<Longrightarrow>
      P (Bounded (cmd_args args (current_dir root (command_new ''git''))) input limits)"
    and asking: "editing_release_plz c \<Longrightarrow> P (Bounded c input limits)"
begin

lemma git_keeps [keeps]:
  "reading_git args \<Longrightarrow> keeps F (git os' root args)"
  "reading_git args \<Longrightarrow> keeps F (git_line os' root args)"
  "reading_git args \<Longrightarrow> keeps F (git_optional_line os' root args)"
  "reading_git args \<Longrightarrow> keeps F (git_paths os' root args)"
  unfolding git_def git_line_def git_optional_line_def git_paths_def
  by (intro keeps keeps_output command_output_keeps reading; assumption)+

lemma release_checks_keep [keeps]:
  "keeps F (resolve os' root base)"
  "keeps F (validate_version sv os' root l v prefix)"
  "keeps F (manifest_version t os' root)"
  unfolding resolve_def validate_version_def manifest_version_def Let_def
  by (intro keeps; simp)+

lemma git_state_keeps [keeps]:
  "keeps F (require_activation_branch t os' root v)"
  "keeps F (require_branch t os' root v)"
  "keeps F (require_exact_git_state os' root clean l)"
  "keeps F (release_changed_paths os' root l)"
  "keeps F (require_exact_changed_paths os' root paths label)"
  "keeps F (require_one_signed_commit os' root l)"
  unfolding require_activation_branch_def require_branch_def require_exact_git_state_def
    release_changed_paths_def require_exact_changed_paths_def require_one_signed_commit_def Let_def
  by (intro keeps; simp)+

lemma source_checks_keep [keeps]:
  "keeps F (require_release_path_subset os' root l)"
  "keeps F (require_release_changes os' root committed l)"
  "keeps F (validate_changelog t os' root v)"
  "keeps F (validate_release_content t os' root v)"
  unfolding require_release_path_subset_def
    require_release_changes_def validate_changelog_def validate_release_content_def Let_def
  by (intro keeps; simp)+

lemma check_keeps [keeps]:
  "keeps F (require_release_plz os' root)"
  "keeps F (check t os' root v l)"
  unfolding require_release_plz_def check_def Let_def
  by (intro keeps keeps_output asking;
      simp add: editing_release_plz_def without_credentials_def)+

end

locale release_machine = source_machine + machine +
  assumes editing: "editing_release_plz c \<Longrightarrow> P (Inherited c)"
begin

lemma release_writes_keep [keeps]:
  "keeps F (write_exact_file os' root relative body)"
  "keeps F (set_activation_manifest_version t os' root v w)"
  unfolding write_exact_file_def set_activation_manifest_version_def Let_def
  by (intro keeps; simp)+

lemma release_plz_keeps [keeps]: "keeps F (apply_exact_version t os' root a b c l)"
  unfolding apply_exact_version_def Let_def release_plz_set_version_def
  by (intro keeps keeps_status editing;
      simp add: editing_release_plz_def without_credentials_def)+

lemma release_run_keeps [keeps]: "keeps F (release_run t os' root cmd)"
proof -
  have "keeps F (activate t os' root v)" "keeps F (prepare_release t os' root v l)" for v l
    unfolding activate_def prepare_release_def
    by (intro keeps keeps_status editing;
        simp add: editing_release_plz_def without_credentials_def)+
  then show ?thesis by (cases cmd) (auto intro!: keeps)
qed

end

interpretation confined: release_machine "logged_os os'" confined "grown confined l" for os' l
  by unfold_locales (auto simp: confined_def Let_def)

text \<open>
  C24: the release commands cannot publish, tag or leak. Whatever the repository, the environment and
  the tools answer, every subprocess \<open>activate\<close>, \<open>prepare\<close> or \<open>check\<close> starts is a reading \<open>git\<close>
  subcommand, a listing \<open>cargo\<close> command, or \<open>release-plz\<close> with \<open>update\<close>, \<open>set-version\<close> or
  \<open>--version\<close> and with every release credential removed from its environment.
\<close>

theorem release_commands_confined:
  "case release_run t (logged_os os') root cmd (w, []) of (r, (w', l)) \<Rightarrow> list_all confined l"
  by (intro runs_onlyD runs_onlyI confined.release_run_keeps)

end
