(* ===== verification/CratesIo.thy ===== *)
theory CratesIo
  imports ReleasePolicy Runtime
begin

text \<open>
  The bounded crates.io client of \<open>xtask/src/crate_archive.rs\<close>: the \<open>Registry\<close> trait as a record,
  and its implementation \<open>CratesIo\<close> on \<open>curl\<close>, whose state is the number of response bytes accepted
  so far. The decoder of the version record (\<open>serde_json::from_slice\<close>) is a parameter.
\<close>

section \<open>Limits\<close>

definition MAX_CRATE_BYTES :: nat where
  "MAX_CRATE_BYTES = 32 * 1024 * 1024"

definition MAX_JSON_BYTES :: nat where
  "MAX_JSON_BYTES = 2 * 1024 * 1024"

definition MAX_REGISTRY_ERROR_BYTES :: nat where
  "MAX_REGISTRY_ERROR_BYTES = 64 * 1024"

definition MAX_TOTAL_RESPONSE_BYTES :: nat where
  "MAX_TOTAL_RESPONSE_BYTES = 32 * 1024 * 1024"

definition REGISTRY_READ_ATTEMPTS :: nat where
  "REGISTRY_READ_ATTEMPTS = 3"

definition CRATES_IO_USER_AGENT :: string where
  "CRATES_IO_USER_AGENT =
     ''yaml-sigil-release-verifier/1.0 (https://github.com/NVIDIA/yaml-sigil-traits)''"

definition CRATES_IO_REQUEST_DELAY :: nat where
  "CRATES_IO_REQUEST_DELAY = 1"

section \<open>The trait\<close>

record RegistryVersion =
  rv_num :: string
  rv_yanked :: bool
  rv_checksum :: string

record 'w registry =
  rg_exact_version :: "string \<Rightarrow> string \<Rightarrow> ('w, RegistryVersion option) io"
  rg_download :: "string \<Rightarrow> string \<Rightarrow> ('w, bytes) io"

section \<open>The client\<close>

record crates_io =
  ci_total_response_bytes :: u64

definition crates_io_new :: crates_io where
  "crates_io_new = \<lparr>ci_total_response_bytes = 0\<rparr>"

definition account_response :: "nat \<Rightarrow> ('w \<times> crates_io, unit) io" where
  "account_response bytes = (\<lambda>(w, c).
     case checked_add (ci_total_response_bytes c) (of_nat bytes) of
       None \<Rightarrow> (Inl ''aggregate registry response size overflowed'', (w, c))
     | Some total_bytes \<Rightarrow>
         (if MAX_TOTAL_RESPONSE_BYTES < unat total_bytes
          then Inl ''aggregate registry response bytes exceeded 32 MiB'' else Inr (),
          (w, c\<lparr>ci_total_response_bytes := total_bytes\<rparr>)))"

definition transient_detail :: "string \<Rightarrow> bool" where
  "transient_detail detail \<longleftrightarrow>
     list_ex (contains detail)
       [''timed out'', ''Timeout'', ''Could not resolve host'', ''Failed to connect'',
        ''Connection reset'', ''HTTP 429'', ''HTTP 502'', ''HTTP 503'', ''HTTP 504'']"

definition validate_component :: "string \<Rightarrow> string \<Rightarrow> unit result" where
  "validate_component val label =
     fail_if
       (val = [] \<or> 128 < length val \<or>
        \<not> list_all (\<lambda>c. is_ascii_alphanumeric c \<or> c \<in> {CHR ''-'', CHR ''_'', CHR ''.''}) val)
       (label @ '' is invalid'')"

definition curl_command :: "string list \<Rightarrow> command" where
  "curl_command request_args = cmd_args request_args
     (cmd_args [''--disable'', ''--user-agent'', CRATES_IO_USER_AGENT] (command_new ''curl''))"

definition crates_io_request_command ::
  "'w os \<Rightarrow> string list \<Rightarrow> ('w, string, command) eff" where
  "crates_io_request_command os' request_args =
     bindE (modifyE (os_sleep os' CRATES_IO_REQUEST_DELAY)) (\<lambda>_.
     okE (curl_command request_args))"

definition request_json_args :: "string \<Rightarrow> string list" where
  "request_json_args url =
     [''--silent'', ''--show-error'', ''--proto'', ''=https'', ''--proto-redir'', ''=https'',
      ''--max-time'', ''30'', ''--write-out'', char_lf # ''%{http_code}'', url]"

text \<open>The position of the last line feed splits the body from the status.\<close>

definition rposition_lf :: "bytes \<Rightarrow> nat option" where
  "rposition_lf bs =
     (let n = length (takeWhile (\<lambda>b. b \<noteq> 10) (rev bs))
      in if n = length bs then None else Some (length bs - Suc n))"

primrec request_json_attempts ::
  "'w os \<Rightarrow> string \<Rightarrow> nat list \<Rightarrow> string option \<Rightarrow> ('w \<times> crates_io, bytes option) io" where
  "request_json_attempts os' url [] prev =
     failE (case prev of Some e \<Rightarrow> e | None \<Rightarrow> ''crates.io read failed'')"
| "request_json_attempts os' url (attempt # rest) prev =
     bindE (beside (crates_io_request_command os' (request_json_args url))) (\<lambda>command.
     bindE (map_errE (\<lambda>e. ''run crates.io request: '' @ ie_text e)
       (beside (os_output os' command None
         \<lparr>ol_stdout = MAX_JSON_BYTES, ol_stderr = MAX_REGISTRY_ERROR_BYTES\<rparr>))) (\<lambda>out.
     bindE (account_response (length (out_stdout out))) (\<lambda>_.
     if \<not> out_success out then
       let detail = trim (from_utf8_lossy (out_stderr out))
       in if attempt < REGISTRY_READ_ATTEMPTS \<and> transient_detail detail
          then bindE (beside (modifyE (os_sleep os' attempt))) (\<lambda>_.
            request_json_attempts os' url rest (Some ''crates.io read failed transiently''))
          else failE (''crates.io read failed: '' @ detail)
     else
       bindE (liftE (ok_or (rposition_lf (out_stdout out))
         ''crates.io response lacked an HTTP status'')) (\<lambda>split.
       let body = take split (out_stdout out)
       in bindE (liftE (map_err (\<lambda>_. ''crates.io returned a non-UTF-8 status'')
            (from_utf8 (drop (Suc split) (out_stdout out))))) (\<lambda>status.
          if status = ''200'' then okE (Some body)
          else if status = ''404'' then okE None
          else if status \<in> {''429'', ''500'', ''502'', ''503'', ''504''} \<and>
                  attempt < REGISTRY_READ_ATTEMPTS
          then bindE (beside (modifyE (os_sleep os' attempt))) (\<lambda>_.
            request_json_attempts os' url rest
              (Some (''crates.io returned transient HTTP '' @ status)))
          else failE (''crates.io returned HTTP '' @ status))))))"

definition request_json :: "'w os \<Rightarrow> string \<Rightarrow> ('w \<times> crates_io, bytes option) io" where
  "request_json os' path =
     request_json_attempts os' (''https://crates.io/api/v1'' @ path)
       [1..<Suc REGISTRY_READ_ATTEMPTS] None"

definition crates_exact_version ::
  "'w os \<Rightarrow> (bytes \<Rightarrow> RegistryVersion result) \<Rightarrow> string \<Rightarrow> string \<Rightarrow>
   ('w \<times> crates_io, RegistryVersion option) io" where
  "crates_exact_version os' de package ver =
     bindE (liftE (validate_component package ''crate name'')) (\<lambda>_.
     bindE (liftE (validate_component ver ''crate version'')) (\<lambda>_.
     bindE (request_json os' (''/crates/'' @ package @ ''/'' @ ver)) (\<lambda>body.
     case body of
       None \<Rightarrow> okE None
     | Some b \<Rightarrow>
         bindE (liftE (map_err (\<lambda>e. ''crates.io returned invalid exact-version JSON: '' @ e) (de b)))
           (\<lambda>v. okE (Some v)))))"

definition download_args :: "string \<Rightarrow> string list" where
  "download_args url =
     [''--silent'', ''--show-error'', ''--fail'', ''--location'', ''--proto'', ''=https'',
      ''--proto-redir'', ''=https'', ''--max-time'', ''60'', ''--max-filesize'',
      show_nat MAX_CRATE_BYTES, url]"

primrec download_attempts ::
  "'w os \<Rightarrow> string \<Rightarrow> nat list \<Rightarrow> string option \<Rightarrow> ('w \<times> crates_io, bytes) io" where
  "download_attempts os' url [] prev =
     failE (case prev of Some e \<Rightarrow> e | None \<Rightarrow> ''crates.io archive download failed'')"
| "download_attempts os' url (attempt # rest) prev =
     bindE (beside (crates_io_request_command os' (download_args url))) (\<lambda>command.
     bindE (map_errE (\<lambda>e. ''run crates.io archive download: '' @ ie_text e)
       (beside (os_output os' command None
         \<lparr>ol_stdout = MAX_CRATE_BYTES, ol_stderr = MAX_REGISTRY_ERROR_BYTES\<rparr>))) (\<lambda>out.
     bindE (account_response (length (out_stdout out))) (\<lambda>_.
     if out_success out then okE (out_stdout out)
     else
       let detail = trim (from_utf8_lossy (out_stderr out))
       in if attempt < REGISTRY_READ_ATTEMPTS \<and> transient_detail detail
          then bindE (beside (modifyE (os_sleep os' attempt))) (\<lambda>_.
            download_attempts os' url rest
              (Some ''crates.io archive download failed transiently''))
          else failE (''crates.io archive download failed: '' @ detail))))"

definition crates_download :: "'w os \<Rightarrow> string \<Rightarrow> string \<Rightarrow> ('w \<times> crates_io, bytes) io" where
  "crates_download os' package ver =
     bindE (liftE (validate_component package ''crate name'')) (\<lambda>_.
     bindE (liftE (validate_component ver ''crate version'')) (\<lambda>_.
     download_attempts os'
       (''https://crates.io/api/v1/crates/'' @ package @ ''/'' @ ver @ ''/download'')
       [1..<Suc REGISTRY_READ_ATTEMPTS] None))"

definition crates_io_registry ::
  "'w os \<Rightarrow> (bytes \<Rightarrow> RegistryVersion result) \<Rightarrow> ('w \<times> crates_io) registry" where
  "crates_io_registry os' de =
     \<lparr>rg_exact_version = crates_exact_version os' de, rg_download = crates_download os'\<rparr>"

section \<open>The response budget\<close>

text \<open>
  The budget is a two-state relation: the total never decreases, and a run that started over the
  bound cannot succeed. Both operations of the client keep it.
\<close>

abbreviation total_of :: "'w \<times> crates_io \<Rightarrow> nat" where
  "total_of s \<equiv> unat (ci_total_response_bytes (snd s))"

definition within_budget :: "('w \<times> crates_io, 'e, 'a) eff \<Rightarrow> bool" where
  "within_budget m \<longleftrightarrow>
     (\<forall>s r s'. m s = (r, s') \<longrightarrow> total_of s \<le> total_of s' \<and>
        (is_ok r \<longrightarrow> total_of s \<le> MAX_TOTAL_RESPONSE_BYTES \<longrightarrow> total_of s' \<le> MAX_TOTAL_RESPONSE_BYTES))"

definition paid :: "('w \<times> crates_io, 'e, 'a) eff \<Rightarrow> bool" where
  "paid m \<longleftrightarrow> within_budget m \<and>
     (\<forall>s r s'. m s = (r, s') \<longrightarrow> is_ok r \<longrightarrow> total_of s' \<le> MAX_TOTAL_RESPONSE_BYTES)"

lemma account_response_paid: "paid (account_response n)"
proof -
  have "total_of s \<le> total_of s' \<and> (is_ok r \<longrightarrow> total_of s' \<le> MAX_TOTAL_RESPONSE_BYTES)"
    if "account_response n s = (r, s')" for s :: "'w \<times> crates_io" and r s'
  proof (cases "checked_add (ci_total_response_bytes (snd s)) (of_nat n)")
    case None
    with that show ?thesis by (auto simp: account_response_def split: prod.splits)
  next
    case (Some t)
    then have "unat t = total_of s + unat (of_nat n :: u64)" by (simp add: checked_add_Some)
    with that Some show ?thesis
      by (auto simp: account_response_def split: prod.splits if_splits)
  qed
  then show ?thesis unfolding paid_def within_budget_def by blast
qed

lemma within_budget_simple:
  "within_budget (okE x)" "within_budget (failE e)" "within_budget (liftE q)"
  "within_budget (beside m)"
  unfolding within_budget_def okE_def failE_def liftE_def beside_def
  by (auto split: prod.splits)

lemma within_budget_map_errE: "within_budget m \<Longrightarrow> within_budget (map_errE f m)"
  unfolding within_budget_def map_errE_def
  by (simp split: prod.splits add: is_ok_def map_err_def split: sum.splits)

lemma within_budget_bindE:
  assumes "within_budget m" and "\<And>x. within_budget (f x)"
  shows "within_budget (bindE m f)"
  unfolding within_budget_def
proof (intro allI impI)
  fix s r s'
  assume b: "bindE m f s = (r, s')"
  obtain r1 s1 where m: "m s = (r1, s1)" by (cases "m s") auto
  show "total_of s \<le> total_of s' \<and>
    (is_ok r \<longrightarrow> total_of s \<le> MAX_TOTAL_RESPONSE_BYTES \<longrightarrow> total_of s' \<le> MAX_TOTAL_RESPONSE_BYTES)"
  proof (cases r1)
    case (Inl e)
    with b m have "s' = s1" "r = Inl e" by (simp_all add: bindE_def)
    moreover from m Inl assms(1) have "total_of s \<le> total_of s1"
      unfolding within_budget_def by blast
    ultimately show ?thesis by simp
  next
    case (Inr x)
    with b m have "f x s1 = (r, s')" by (simp add: bindE_def)
    with assms(2) have 2: "total_of s1 \<le> total_of s'"
        "is_ok r \<Longrightarrow> total_of s1 \<le> MAX_TOTAL_RESPONSE_BYTES \<Longrightarrow> total_of s' \<le> MAX_TOTAL_RESPONSE_BYTES"
      unfolding within_budget_def by blast+
    from Inr have "is_ok r1" by simp
    with m assms(1) have 1: "total_of s \<le> total_of s1"
        "total_of s \<le> MAX_TOTAL_RESPONSE_BYTES \<Longrightarrow> total_of s1 \<le> MAX_TOTAL_RESPONSE_BYTES"
      unfolding within_budget_def by blast+
    from 1(1) 2(1) have "total_of s \<le> total_of s'" by (rule order_trans)
    with 1 2 show ?thesis by blast
  qed
qed

lemma paid_bindE_left:
  assumes "paid m" and "\<And>x. within_budget (f x)"
  shows "paid (bindE m f)"
  unfolding paid_def
proof (intro conjI allI impI)
  show "within_budget (bindE m f)"
    using assms unfolding paid_def by (blast intro: within_budget_bindE)
  fix s r s'
  assume "bindE m f s = (r, s')" "is_ok r"
  then obtain x s1 y where "m s = (Inr x, s1)" "f x s1 = (Inr y, s')"
    by (auto simp: res_simps)
  with assms show "total_of s' \<le> MAX_TOTAL_RESPONSE_BYTES"
    unfolding paid_def within_budget_def by (metis is_ok_simps(2))
qed

lemma paid_bindE_right:
  assumes "within_budget m" and "\<And>x. paid (f x)"
  shows "paid (bindE m f)"
  unfolding paid_def
proof (intro conjI allI impI)
  show "within_budget (bindE m f)"
    using assms unfolding paid_def by (blast intro: within_budget_bindE)
  fix s r s'
  assume "bindE m f s = (r, s')" "is_ok r"
  then obtain x s1 y where "f x s1 = (Inr y, s')" by (auto simp: res_simps)
  with assms(2) show "total_of s' \<le> MAX_TOTAL_RESPONSE_BYTES"
    unfolding paid_def by (metis is_ok_simps(2))
qed

lemma paid_failE: "paid (failE e)"
  unfolding paid_def using within_budget_simple(2) by (auto simp: res_simps)

lemma paid_within: "paid m \<Longrightarrow> within_budget m"
  by (simp add: paid_def)

lemma within_budget_if:
  "(b \<Longrightarrow> within_budget m) \<Longrightarrow> (\<not> b \<Longrightarrow> within_budget m') \<Longrightarrow> within_budget (if b then m else m')"
  by simp

lemmas budget_rules =
  within_budget_simple within_budget_map_errE within_budget_bindE within_budget_if
  paid_bindE_left [OF account_response_paid]

lemma download_attempts_paid: "paid (download_attempts os' url as prev)"
proof (induction as arbitrary: prev)
  case Nil
  show ?case unfolding download_attempts.simps by (rule paid_failE)
next
  case (Cons a as)
  show ?case
    unfolding download_attempts.simps Let_def
    by (rule paid_bindE_right, rule budget_rules, rule paid_bindE_right)
      (intro budget_rules paid_within [OF Cons.IH])+
qed

lemma request_json_attempts_paid: "paid (request_json_attempts os' url as prev)"
proof (induction as arbitrary: prev)
  case Nil
  show ?case unfolding request_json_attempts.simps by (rule paid_failE)
next
  case (Cons a as)
  show ?case
    unfolding request_json_attempts.simps Let_def
    by (rule paid_bindE_right, rule budget_rules, rule paid_bindE_right)
      (intro budget_rules paid_within [OF Cons.IH])+
qed

lemma crates_download_paid: "paid (crates_download os' package ver)"
  unfolding crates_download_def
  by (intro paid_bindE_right within_budget_simple download_attempts_paid)

lemma crates_exact_version_paid: "paid (crates_exact_version os' de package ver)"
proof -
  have "within_budget (case body of None \<Rightarrow> okE None
      | Some b \<Rightarrow> bindE (liftE (map_err f (de b))) (\<lambda>v. okE (Some v)))" for body f
    by (cases body) (auto intro!: budget_rules)
  then show ?thesis
    unfolding crates_exact_version_def request_json_def
    by (intro paid_bindE_right within_budget_simple paid_bindE_left request_json_attempts_paid)
qed

lemma paid_case:
  "paid m \<Longrightarrow> case m s of
     (Inl e, s') \<Rightarrow> total_of s \<le> total_of s'
   | (Inr x, s') \<Rightarrow> total_of s \<le> total_of s' \<and> total_of s' \<le> 32 * 1024 * 1024"
proof -
  assume m: "paid m"
  obtain r s' where run: "m s = (r, s')" by (cases "m s")
  with m have "total_of s \<le> total_of s' \<and> (is_ok r \<longrightarrow> total_of s' \<le> 32 * 1024 * 1024)"
    unfolding paid_def within_budget_def MAX_TOTAL_RESPONSE_BYTES_def by metis
  with run show ?thesis by (cases r) simp_all
qed


end
