(* ===== verification/CrateArchive.thy ===== *)
theory CrateArchive
  imports CratesIo
begin

text \<open>
  The inspection of a Cargo source archive in \<open>xtask/src/crate_archive.rs\<close>: one gzip member, a
  canonically terminated tar, entries with Cargo's canonical metadata and safe paths, and the VCS
  record that binds the archive to a commit. The crates \<open>flate2\<close>, \<open>tar\<close>, \<open>sha2\<close> and \<open>serde_json\<close>
  are the fields of the record \<open>archive_tools\<close>.
\<close>

section \<open>Limits and types\<close>

definition MAX_CRATE_FILES :: nat where
  "MAX_CRATE_FILES = 10000"

definition MAX_CRATE_UNPACKED_BYTES :: nat where
  "MAX_CRATE_UNPACKED_BYTES = 128 * 1024 * 1024"

definition MAX_CRATE_DECOMPRESSED_BYTES :: nat where
  "MAX_CRATE_DECOMPRESSED_BYTES = 160 * 1024 * 1024"

definition TAR_BLOCK_BYTES :: nat where
  "TAR_BLOCK_BYTES = 512"

definition CARGO_ARCHIVE_MTIME :: u64 where
  "CARGO_ARCHIVE_MTIME = 1153704088"

text \<open>The modes \<open>0o644\<close> and \<open>0o755\<close>.\<close>

definition CARGO_ARCHIVE_MODES :: "u32 list" where
  "CARGO_ARCHIVE_MODES = [420, 493]"

definition GNU_NUL_ZERO :: bytes where
  "GNU_NUL_ZERO = replicate 8 0"

definition GNU_OCTAL_ZERO :: bytes where
  "GNU_OCTAL_ZERO = replicate 7 48 @ [0]"

definition subrange :: "nat \<Rightarrow> nat \<Rightarrow> 'a list \<Rightarrow> 'a list" where
  "subrange a b xs = take (b - a) (drop a xs)"

record ArchiveMetadata =
  am_header_sha256 :: string
  am_entry_type :: u8
  am_mode :: u32
  am_uid :: bytes
  am_gid :: bytes
  am_mtime :: u64
  am_username :: bytes
  am_groupname :: bytes
  am_device_major :: bytes
  am_device_minor :: bytes

record ArchiveFile =
  af_body :: bytes
  af_metadata :: ArchiveMetadata

type_synonym archive_files = "(string \<times> ArchiveFile) list"

record VcsGit =
  vg_sha1 :: string
  vg_dirty :: bool

record VcsInfo =
  vi_git :: VcsGit
  vi_path_in_vcs :: string

text \<open>
  An entry of the tar reader: its header block, its path, and reading at most \<open>n\<close> of its octets.
\<close>

record tar_entry =
  te_header :: bytes
  te_path_bytes :: bytes
  te_read :: "nat \<Rightarrow> bytes result"

text \<open>
  \<open>at_gunzip a n\<close> reads at most \<open>n\<close> octets from the first gzip member of \<open>a\<close> and tells how many
  octets of \<open>a\<close> were consumed. \<open>at_entries\<close> lists the raw entries of a tar file, each of which may
  be unreadable. The other \<open>tar\<close> fields read one field of a header block.
\<close>

record archive_tools =
  at_gunzip :: "bytes \<Rightarrow> nat \<Rightarrow> (bytes \<times> nat) result"
  at_entries :: "bytes \<Rightarrow> (tar_entry result) list result"
  at_size :: "bytes \<Rightarrow> u64 result"
  at_entry_size :: "bytes \<Rightarrow> u64 result"
  at_is_gnu :: "bytes \<Rightarrow> bool"
  at_mode :: "bytes \<Rightarrow> u32 result"
  at_mtime :: "bytes \<Rightarrow> u64 result"
  at_username :: "bytes \<Rightarrow> bytes option"
  at_groupname :: "bytes \<Rightarrow> bytes option"
  at_link_name :: "bytes \<Rightarrow> bytes option"
  at_sha256 :: "bytes \<Rightarrow> bytes"
  at_vcs :: "bytes \<Rightarrow> VcsInfo result"

section \<open>Canonical tar metadata\<close>

primrec hex :: "bytes \<Rightarrow> string" where
  "hex [] = []"
| "hex (b # bs) = [lower_hex_digit (unat b div 16), lower_hex_digit (unat b mod 16)] @ hex bs"

text \<open>The \<open>Debug\<close> form of a byte vector.\<close>

definition debug_bytes :: "bytes \<Rightarrow> string" where
  "debug_bytes bs = ''['' @ join '', '' (map (\<lambda>b. show_nat (unat b)) bs) @ '']''"

definition is_checksum :: "string \<Rightarrow> bool" where
  "is_checksum val \<longleftrightarrow> length val = 64 \<and> list_all is_ascii_lower_hex val"

definition cargo_zero_field :: "bytes \<Rightarrow> bool" where
  "cargo_zero_field field \<longleftrightarrow> field = GNU_NUL_ZERO \<or> field = GNU_OCTAL_ZERO"

definition cargo_archive_metadata ::
  "archive_tools \<Rightarrow> bytes \<Rightarrow> string \<Rightarrow> ArchiveMetadata result" where
  "cargo_archive_metadata t header package =
     bindR (fail_if (\<not> at_is_gnu t header)
       (package @ '' source archive entry does not use Cargo's GNU header format'')) (\<lambda>_.
     let entry_type = header ! 156
     in bindR (fail_if (entry_type \<noteq> 48)
       (package @ '' source archive contains a noncanonical entry type'')) (\<lambda>_.
     bindR (map_err (\<lambda>e. package @ '' source archive has an invalid mode: '' @ e)
       (at_mode t header)) (\<lambda>mode.
     bindR (fail_if (mode \<notin> set CARGO_ARCHIVE_MODES)
       (package @ '' source archive contains a noncanonical or unsafe mode'')) (\<lambda>_.
     let uid = subrange 108 116 header; gid = subrange 116 124 header
     in bindR (fail_if (\<not> cargo_zero_field uid \<or> \<not> cargo_zero_field gid)
       (package @ '' source archive contains noncanonical ownership: UID '' @ debug_bytes uid
        @ '', GID '' @ debug_bytes gid)) (\<lambda>_.
     bindR (map_err (\<lambda>e. package @ '' source archive has an invalid mtime: '' @ e)
       (at_mtime t header)) (\<lambda>mtime.
     bindR (fail_if (mtime \<noteq> CARGO_ARCHIVE_MTIME)
       (package @ '' source archive contains a noncanonical mtime'')) (\<lambda>_.
     bindR (ok_or (at_username t header)
       (package @ '' source archive omits Cargo's owner representation'')) (\<lambda>username.
     bindR (ok_or (at_groupname t header)
       (package @ '' source archive omits Cargo's group representation'')) (\<lambda>groupname.
     bindR (fail_if (username \<noteq> [] \<or> groupname \<noteq> [])
       (package @ '' source archive contains noncanonical owner or group names'')) (\<lambda>_.
     bindR (fail_if (case at_link_name t header of None \<Rightarrow> False | Some n \<Rightarrow> n \<noteq> [])
       (package @ '' source archive regular entry contains a link target'')) (\<lambda>_.
     let major = subrange 329 337 header; minor = subrange 337 345 header
     in bindR (fail_if (\<not> cargo_zero_field major \<or> \<not> cargo_zero_field minor)
       (package @ '' source archive contains noncanonical device metadata'')) (\<lambda>_.
     Inr \<lparr>am_header_sha256 = hex (at_sha256 t header), am_entry_type = entry_type, am_mode = mode,
          am_uid = uid, am_gid = gid, am_mtime = mtime, am_username = username,
          am_groupname = groupname, am_device_major = major, am_device_minor = minor\<rparr>))))))))))))"

section \<open>Paths\<close>

definition validate_raw_header_path :: "bytes \<Rightarrow> string \<Rightarrow> string \<Rightarrow> unit result" where
  "validate_raw_header_path header path package =
     (let name = take 100 header;
          len = length (takeWhile (\<lambda>b. b \<noteq> 0) name)
      in fail_if (take len name \<noteq> as_bytes path \<or> list_ex (\<lambda>b. b \<noteq> 0) (drop len name))
           (package @ '' source archive contains a noncanonical raw path''))"

definition safe_part :: "string \<Rightarrow> bool" where
  "safe_part part \<longleftrightarrow> part \<noteq> [] \<and> part \<noteq> ''.'' \<and> part \<noteq> ''..''"

definition validate_archive_path :: "string \<Rightarrow> string \<Rightarrow> string \<Rightarrow> unit result" where
  "validate_archive_path path prefix package =
     fail_if
       (path = [] \<or> starts_with path ''/'' \<or>
        list_ex (\<lambda>c. c \<in> {char_nul, char_cr, char_lf, char_backslash}) path \<or>
        list_ex (\<lambda>part. \<not> safe_part part) (split_char (CHR ''/'') path) \<or>
        (path \<noteq> prefix \<and> \<not> starts_with path (prefix @ ''/'')))
       (package @ '' source archive contains an unsafe path'')"

section \<open>Compression and termination\<close>

definition decompress_single_gzip ::
  "archive_tools \<Rightarrow> bytes \<Rightarrow> string \<Rightarrow> nat \<Rightarrow> bytes result" where
  "decompress_single_gzip t archive package decompressed_limit =
     bindR (map_err (\<lambda>e. package @ '' source archive gzip stream is invalid: '' @ e)
       (at_gunzip t archive (decompressed_limit + 1))) (\<lambda>(decompressed, consumed).
     bindR (fail_if (decompressed_limit < length decompressed)
       (package @ '' source archive expands beyond its limit'')) (\<lambda>_.
     bindR (fail_if (consumed \<noteq> length archive)
       (package @ '' source archive contains another gzip member or trailing bytes'')) (\<lambda>_.
     Inr decompressed)))"

text \<open>The checked arithmetic of the physical walk, on \<open>u64\<close>.\<close>

definition tar_padded :: "u64 \<Rightarrow> nat option" where
  "tar_padded n =
     (if unat n + (TAR_BLOCK_BYTES - 1) < 2 ^ 64
      then Some ((unat n + (TAR_BLOCK_BYTES - 1)) div TAR_BLOCK_BYTES * TAR_BLOCK_BYTES)
      else None)"

definition tar_next :: "nat \<Rightarrow> nat \<Rightarrow> nat option" where
  "tar_next offset padded =
     (if offset + TAR_BLOCK_BYTES + padded < 2 ^ 64 then Some (offset + TAR_BLOCK_BYTES + padded)
      else None)"

abbreviation all_zero :: "bytes \<Rightarrow> bool" where
  "all_zero bs \<equiv> list_all (\<lambda>b. b = 0) bs"

function (sequential) tar_walk :: "archive_tools \<Rightarrow> bytes \<Rightarrow> string \<Rightarrow> nat \<Rightarrow> unit result" where
  "tar_walk t tar package offset =
     (if offset < length tar then
        let header = subrange offset (offset + TAR_BLOCK_BYTES) tar
        in if all_zero header then
             (if length tar < offset + TAR_BLOCK_BYTES * 2
              then Inl (package @ '' source archive lacks its canonical tar terminator'')
              else
                fail_if
                  (\<not> all_zero (subrange (offset + TAR_BLOCK_BYTES) (offset + TAR_BLOCK_BYTES * 2) tar) \<or>
                   \<not> all_zero (drop (offset + TAR_BLOCK_BYTES * 2) tar))
                  (package @ '' source archive contains records after its tar terminator''))
           else
             bindR (map_err
               (\<lambda>e. package @ '' source archive has an invalid physical entry size: '' @ e)
               (at_entry_size t header)) (\<lambda>size.
             bindR (ok_or (tar_padded size)
               (package @ '' source archive physical size overflowed'')) (\<lambda>padded.
             bindR (ok_or (tar_next offset padded)
               (package @ '' source archive physical size overflowed'')) (\<lambda>next.
             if length tar < next
             then Inl (package @ '' source archive contains a truncated physical entry'')
             else tar_walk t tar package next)))
      else Inl (package @ '' source archive lacks its canonical tar terminator''))"
  by pat_completeness auto

termination
  by (relation "measure (\<lambda>(t, tar, package, offset). length tar - offset)")
    (auto simp: tar_next_def TAR_BLOCK_BYTES_def ok_or_def split: option.splits if_splits)

declare tar_walk.simps [simp del]

definition validate_tar_termination :: "archive_tools \<Rightarrow> bytes \<Rightarrow> string \<Rightarrow> unit result" where
  "validate_tar_termination t tar package =
     bindR (fail_if (length tar < TAR_BLOCK_BYTES * 2 \<or> length tar mod TAR_BLOCK_BYTES \<noteq> 0)
       (package @ '' source archive has a noncanonical tar length'')) (\<lambda>_.
     tar_walk t tar package 0)"

section \<open>Inspection\<close>

definition parse_vcs_info :: "archive_tools \<Rightarrow> archive_files \<Rightarrow> package_policy \<Rightarrow> VcsInfo result" where
  "parse_vcs_info t files policy =
     bindR (ok_or (map_of files ''.cargo_vcs_info.json'')
       (pp_package policy @ '' source archive lacks .cargo_vcs_info.json'')) (\<lambda>file.
     bindR (map_err (\<lambda>e. pp_package policy @ '' source archive has invalid VCS metadata: '' @ e)
       (at_vcs t (af_body file))) (\<lambda>vcs.
     bindR (fail_if
       (length (vg_sha1 (vi_git vcs)) \<noteq> 40 \<or> \<not> list_all is_ascii_lower_hex (vg_sha1 (vi_git vcs)) \<or>
        vg_dirty (vi_git vcs) \<or> vi_path_in_vcs vcs \<noteq> pp_path_in_vcs policy)
       (pp_package policy @ '' source archive contains invalid VCS identity'')) (\<lambda>_.
     Inr vcs)))"

text \<open>One turn of the loop over the entries, on the files, the entry count and the total size.\<close>

definition inspect_entry ::
  "archive_tools \<Rightarrow> string \<Rightarrow> string \<Rightarrow> tar_entry result \<Rightarrow> archive_files \<times> nat \<times> u64 \<Rightarrow>
   (archive_files \<times> nat \<times> u64) result" where
  "inspect_entry t package prefix entry' st =
     (let (files, count, total_size) = st in
     bindR (map_err (\<lambda>e. package @ '' source archive entry is invalid: '' @ e) entry') (\<lambda>entry.
     let count = count + 1
     in bindR (fail_if (MAX_CRATE_FILES < count)
       (package @ '' source archive contains too many entries'')) (\<lambda>_.
     bindR (map_err (\<lambda>e. package @ '' source archive has an invalid entry size: '' @ e)
       (at_size t (te_header entry))) (\<lambda>size.
     bindR (ok_or (checked_add total_size size)
       (package @ '' source archive size overflowed'')) (\<lambda>total_size.
     bindR (fail_if (MAX_CRATE_UNPACKED_BYTES < unat total_size)
       (package @ '' source archive expands beyond its limit'')) (\<lambda>_.
     bindR (map_err (\<lambda>_. package @ '' source archive has a non-UTF-8 path'')
       (from_utf8 (te_path_bytes entry))) (\<lambda>path.
     bindR (validate_raw_header_path (te_header entry) path package) (\<lambda>_.
     bindR (validate_archive_path path prefix package) (\<lambda>_.
     bindR (cargo_archive_metadata t (te_header entry) package) (\<lambda>metadata.
     bindR (ok_or (strip_prefix path (prefix @ ''/''))
       (package @ '' source archive path lacks its root'')) (\<lambda>relative.
     bindR (map_err (\<lambda>e. package @ '' source archive entry is unreadable: '' @ e)
       (te_read entry (unat size + 1))) (\<lambda>body.
     bindR (fail_if (length body \<noteq> unat size \<or> map_of files relative \<noteq> None)
       (package @ '' source archive contains a duplicate or truncated file'')) (\<lambda>_.
     Inr (bt_insert relative \<lparr>af_body = body, af_metadata = metadata\<rparr> files, count, total_size)
     )))))))))))))"

primrec inspect_entries ::
  "archive_tools \<Rightarrow> string \<Rightarrow> string \<Rightarrow> tar_entry result list \<Rightarrow> archive_files \<times> nat \<times> u64 \<Rightarrow>
   (archive_files \<times> nat \<times> u64) result" where
  "inspect_entries t package prefix [] st = Inr st"
| "inspect_entries t package prefix (entry # entries) st =
     bindR (inspect_entry t package prefix entry st) (inspect_entries t package prefix entries)"

definition inspect_archive_entries_with_limit ::
  "archive_tools \<Rightarrow> bytes \<Rightarrow> package_policy \<Rightarrow> string \<Rightarrow> string option \<Rightarrow> nat \<Rightarrow> archive_files result" where
  "inspect_archive_entries_with_limit t archive policy ver commit decompressed_limit =
     bindR (fail_if (archive = [] \<or> MAX_CRATE_BYTES < length archive)
       (pp_package policy @ '' source archive is empty or oversized'')) (\<lambda>_.
     let prefix = pp_package policy @ ''-'' @ ver
     in bindR (decompress_single_gzip t archive (pp_package policy) decompressed_limit) (\<lambda>decompressed.
     bindR (validate_tar_termination t decompressed (pp_package policy)) (\<lambda>_.
     bindR (map_err (\<lambda>e. pp_package policy @ '' source archive is invalid: '' @ e)
       (at_entries t decompressed)) (\<lambda>entries.
     bindR (inspect_entries t (pp_package policy) prefix entries ([], 0, 0)) (\<lambda>(files, count, _).
     bindR (fail_if (count = 0) (pp_package policy @ '' source archive is empty'')) (\<lambda>_.
     bindR (parse_vcs_info t files policy) (\<lambda>vcs.
     bindR (fail_if (case commit of None \<Rightarrow> False | Some expected \<Rightarrow> vg_sha1 (vi_git vcs) \<noteq> expected)
       (pp_package policy @ '' source archive is not bound to the exact clean release commit'')) (\<lambda>_.
     Inr files))))))))"

definition inspect_archive_entries ::
  "archive_tools \<Rightarrow> bytes \<Rightarrow> package_policy \<Rightarrow> string \<Rightarrow> string \<Rightarrow> archive_files result" where
  "inspect_archive_entries t archive policy ver commit =
     inspect_archive_entries_with_limit t archive policy ver (Some commit) MAX_CRATE_DECOMPRESSED_BYTES"

definition archive_vcs_commit ::
  "archive_tools \<Rightarrow> bytes \<Rightarrow> package_policy \<Rightarrow> string \<Rightarrow> string result" where
  "archive_vcs_commit t archive policy ver =
     bindR (inspect_archive_entries_with_limit t archive policy ver None MAX_CRATE_DECOMPRESSED_BYTES)
       (\<lambda>files. bindR (parse_vcs_info t files policy) (\<lambda>vcs. Inr (vg_sha1 (vi_git vcs))))"

definition require_archive ::
  "archive_tools \<Rightarrow> 'w registry \<Rightarrow> package_policy \<Rightarrow> string \<Rightarrow> string \<Rightarrow>
   ('w, string \<times> bytes \<times> archive_files) io" where
  "require_archive t registry policy ver commit =
     bindE (rg_exact_version registry (pp_package policy) ver) (\<lambda>found.
     bindE (liftE (ok_or found (''crates.io lacks '' @ pp_package policy @ '' '' @ ver))) (\<lambda>record.
     bindE (fail_ifE (rv_num record \<noteq> ver \<or> rv_yanked record \<or> \<not> is_checksum (rv_checksum record))
       (''crates.io does not expose '' @ pp_package policy @ '' '' @ ver
        @ '' as one exact non-yanked archive'')) (\<lambda>_.
     bindE (rg_download registry (pp_package policy) ver) (\<lambda>archive.
     let actual = hex (at_sha256 t archive)
     in bindE (fail_ifE (actual \<noteq> rv_checksum record)
       (''crates.io archive checksum differs for '' @ pp_package policy @ '' '' @ ver)) (\<lambda>_.
     bindE (liftE (inspect_archive_entries t archive policy ver commit)) (\<lambda>files.
     okE (rv_checksum record, archive, files)))))))"

section \<open>The source checkout\<close>

definition require_clean_source :: "'w os \<Rightarrow> string \<Rightarrow> string \<Rightarrow> ('w, unit) io" where
  "require_clean_source os' root commit =
     bindE (map_errE (\<lambda>e. ''read release source commit: '' @ ie_text e)
       (os_output os' (cmd_args [''rev-parse'', ''HEAD''] (current_dir root (command_new ''git''))) None
         \<lparr>ol_stdout = MAX_REGISTRY_ERROR_BYTES, ol_stderr = MAX_REGISTRY_ERROR_BYTES\<rparr>)) (\<lambda>head.
     bindE (fail_ifE (\<not> out_success head \<or> trim (from_utf8_lossy (out_stdout head)) \<noteq> commit)
       ''release source is not at the expected commit'') (\<lambda>_.
     bindE (map_errE (\<lambda>e. ''read release source status: '' @ ie_text e)
       (os_output os' (cmd_args [''status'', ''--porcelain''] (current_dir root (command_new ''git'')))
         None \<lparr>ol_stdout = MAX_JSON_BYTES, ol_stderr = MAX_REGISTRY_ERROR_BYTES\<rparr>)) (\<lambda>status.
     fail_ifE (\<not> out_success status \<or> out_stdout status \<noteq> [])
       ''release source is not a clean checkout'')))"

section \<open>The tar layout\<close>

text \<open>
  The canonical layout, independent of offsets: entries, each a nonzero header block followed by its
  content padded to whole blocks, and then at least two zero blocks to the end.
\<close>

inductive tar_layout :: "archive_tools \<Rightarrow> bytes \<Rightarrow> bool" for t :: archive_tools where
  tar_end: "2 \<le> k \<Longrightarrow> tar_layout t (replicate (512 * k) 0)"
| tar_entry: "length header = 512 \<Longrightarrow> \<not> all_zero header \<Longrightarrow> at_entry_size t header = Inr n \<Longrightarrow>
    length body = (unat n + 511) div 512 * 512 \<Longrightarrow> tar_layout t rest \<Longrightarrow>
    tar_layout t (header @ body @ rest)"

lemma tar_layout_length: "tar_layout t tar \<Longrightarrow> 1024 \<le> length tar \<and> 512 dvd length tar"
  by (induction rule: tar_layout.induct) (simp_all add: dvd_add)

lemma all_zero_replicate: "all_zero bs \<longleftrightarrow> bs = replicate (length bs) 0"
  by (induction bs) auto

lemma tar_layout_zero:
  assumes "length tar = 512 * k" and "tar_layout t tar" and "all_zero (take 512 tar)"
  shows "all_zero tar"
  using assms(2)
proof cases
  case (tar_end k)
  then show ?thesis by (simp add: list_all_iff)
next
  case (tar_entry header n body rest)
  with assms(3) show ?thesis by simp
qed

lemma tar_layout_zero_iff:
  assumes "512 dvd length tar" and "all_zero (take 512 tar)"
  shows "tar_layout t tar \<longleftrightarrow> 1024 \<le> length tar \<and> all_zero tar"
proof
  assume "tar_layout t tar"
  with assms show "1024 \<le> length tar \<and> all_zero tar"
    using tar_layout_length tar_layout_zero by (metis dvd_def)
next
  assume "1024 \<le> length tar \<and> all_zero tar"
  moreover from assms(1) obtain k where "length tar = 512 * k" by (auto simp: dvd_def)
  ultimately show "tar_layout t tar"
    using tar_end [of k t] by (simp add: all_zero_replicate)
qed

lemma tar_layout_entry_iff:
  assumes "512 \<le> length tar" and "\<not> all_zero (take 512 tar)"
  shows "tar_layout t tar \<longleftrightarrow>
    (\<exists>n. at_entry_size t (take 512 tar) = Inr n \<and>
       512 + (unat n + 511) div 512 * 512 \<le> length tar \<and>
       tar_layout t (drop (512 + (unat n + 511) div 512 * 512) tar))"
    (is "_ \<longleftrightarrow> (\<exists>n. ?P n)")
proof
  assume "tar_layout t tar"
  then show "\<exists>n. ?P n"
  proof cases
    case (tar_end k)
    with assms show ?thesis by (simp add: list_all_iff)
  next
    case (tar_entry header n body rest)
    then show ?thesis by (intro exI [of _ n]) simp
  qed
next
  assume "\<exists>n. ?P n"
  then obtain n where n: "?P n" by blast
  let ?m = "(unat n + 511) div 512 * 512"
  have "tar_layout t (take 512 tar @ take ?m (drop 512 tar) @ drop (512 + ?m) tar)"
    using n assms by (intro tar_layout.tar_entry) auto
  moreover have "take 512 tar @ take ?m (drop 512 tar) @ drop (512 + ?m) tar = tar"
  proof -
    have "drop (512 + ?m) tar = drop ?m (drop 512 tar)" by (simp add: add.commute)
    then show ?thesis by (simp only: append_take_drop_id)
  qed
  ultimately show "tar_layout t tar" by simp
qed

lemma all_zero_blocks:
  assumes "all_zero (take 512 tar)"
  shows "all_zero tar \<longleftrightarrow> all_zero (subrange 512 1024 tar) \<and> all_zero (drop 1024 tar)"
proof -
  have "drop 1024 tar = drop 512 (drop 512 tar)" by simp
  then have "take 512 tar @ take 512 (drop 512 tar) @ drop 1024 tar = tar"
    by (simp only: append_take_drop_id)
  then have "take 512 tar @ subrange 512 1024 tar @ drop 1024 tar = tar"
    by (simp add: subrange_def)
  then have "all_zero tar \<longleftrightarrow> all_zero (take 512 tar @ subrange 512 1024 tar @ drop 1024 tar)" by simp
  with assms show ?thesis by (simp only: list_all_append simp_thms)
qed

text \<open>The walk at the end of the archive, and at an entry.\<close>

lemma walk_at:
  "subrange offset (offset + TAR_BLOCK_BYTES) tar = take 512 (drop offset tar)"
  "subrange (offset + 512) (offset + 1024) tar = subrange 512 1024 (drop offset tar)"
  by (simp_all add: subrange_def TAR_BLOCK_BYTES_def add.commute)

lemma walk_zero:
  assumes "offset < length tar" and "all_zero (take 512 (drop offset tar))" and "512 dvd length (drop offset tar)"
  shows "tar_walk t tar package offset = Inr () \<longleftrightarrow> tar_layout t (drop offset tar)"
proof -
  let ?rest = "drop offset tar"
  have "tar_walk t tar package offset = Inr () \<longleftrightarrow>
      1024 \<le> length ?rest \<and> all_zero (subrange 512 1024 ?rest) \<and> all_zero (drop 1024 ?rest)"
    using assms(1,2) walk_at [of offset tar]
    by (subst tar_walk.simps) (auto simp: Let_def TAR_BLOCK_BYTES_def fail_if_def add.commute)
  with assms(2,3) show ?thesis by (simp add: tar_layout_zero_iff all_zero_blocks)
qed

lemma walk_misfit:
  assumes "offset < length tar" and "\<not> all_zero (take 512 (drop offset tar))" and "512 \<le> length (drop offset tar)"
    and "case at_entry_size t (take 512 (drop offset tar)) of Inl _ \<Rightarrow> True
      | Inr n \<Rightarrow> length (drop offset tar) < 512 + (unat n + 511) div 512 * 512"
  shows "tar_walk t tar package offset = Inr () \<longleftrightarrow> tar_layout t (drop offset tar)"
  using assms walk_at(1) [of offset tar]
  by (subst tar_walk.simps)
    (auto simp: Let_def tar_layout_entry_iff tar_padded_def tar_next_def TAR_BLOCK_BYTES_def ok_or_def
      split: option.splits sum.splits)

lemma walk_sizes:
  assumes "offset + 512 + (unat n + 511) div 512 * 512 \<le> m" and "m < 2 ^ 64"
  shows "tar_padded n = Some ((unat n + 511) div 512 * 512)"
    and "tar_next offset ((unat n + 511) div 512 * 512) = Some (offset + 512 + (unat n + 511) div 512 * 512)"
proof -
  have "(unat n + 511) div 512 * 512 < 2 ^ 64" using assms by simp
  then have "unat n + 511 < 2 ^ 64" by simp
  then show "tar_padded n = Some ((unat n + 511) div 512 * 512)"
    by (simp add: tar_padded_def TAR_BLOCK_BYTES_def)
  show "tar_next offset ((unat n + 511) div 512 * 512) = Some (offset + 512 + (unat n + 511) div 512 * 512)"
    using assms by (simp add: tar_next_def TAR_BLOCK_BYTES_def)
qed

lemma tar_walk_layout:
  "512 dvd length tar \<Longrightarrow> 512 dvd offset \<Longrightarrow> offset \<le> length tar \<Longrightarrow> length tar < 2 ^ 64 \<Longrightarrow>
   tar_walk t tar package offset = Inr () \<longleftrightarrow> tar_layout t (drop offset tar)"
proof (induction t tar package offset rule: tar_walk.induct)
  case (1 t tar package offset)
  let ?rest = "drop offset tar"
  have dvd: "512 dvd length ?rest" using 1(2,3) by (simp add: dvd_diff_nat)
  consider (over) "length tar \<le> offset" | (zero) "offset < length tar" "all_zero (take 512 ?rest)"
    | (misfit) "offset < length tar" "\<not> all_zero (take 512 ?rest)" "case at_entry_size t (take 512 ?rest) of
        Inl _ \<Rightarrow> True | Inr n \<Rightarrow> length ?rest < 512 + (unat n + 511) div 512 * 512"
    | (entry) n where "offset < length tar" "\<not> all_zero (take 512 ?rest)" "at_entry_size t (take 512 ?rest) = Inr n"
        "512 + (unat n + 511) div 512 * 512 \<le> length ?rest"
    by (cases "at_entry_size t (take 512 ?rest)") fastforce+
  then show ?case
  proof cases
    case over
    then have "\<not> tar_layout t ?rest" using tar_layout_length by fastforce
    with over show ?thesis by (simp add: tar_walk.simps)
  next
    case zero
    with dvd show ?thesis by (intro walk_zero)
  next
    case misfit
    with dvd show ?thesis by (intro walk_misfit) (simp_all add: dvd_imp_le)
  next
    case (entry n)
    let ?m = "(unat n + 511) div 512 * 512"
    from entry have next': "offset + 512 + ?m \<le> length tar" by simp
    note sizes = walk_sizes [OF next' 1(5)]
    have "tar_walk t tar package (offset + 512 + ?m) = Inr () \<longleftrightarrow> tar_layout t (drop (offset + 512 + ?m) tar)"
    proof (rule 1(1) [OF entry(1) refl _ _ _ _ _ 1(2)])
      show "\<not> all_zero (subrange offset (offset + TAR_BLOCK_BYTES) tar)"
        using entry(2) walk_at(1) [of offset tar] by simp
      show "ok_or (tar_padded n) (package @ '' source archive physical size overflowed'') = Inr ?m"
        using sizes by simp
      show "512 dvd offset + 512 + ?m" using 1(3) by (simp add: dvd_add)
    qed (use entry walk_at(1) [of offset tar] sizes next' 1(5) in simp_all)
    moreover have "tar_walk t tar package offset = tar_walk t tar package (offset + 512 + ?m)"
      using entry walk_at(1) [of offset tar] sizes next' by (subst tar_walk.simps) (simp add: Let_def)
    moreover have "drop (offset + 512 + ?m) tar = drop (512 + ?m) ?rest"
      by (simp add: add.assoc add.commute)
    ultimately show ?thesis
      using entry dvd by (simp add: tar_layout_entry_iff dvd_imp_le)
  qed
qed

text \<open>
  C30: \<open>validate_tar_termination\<close> accepts exactly the canonical tar layout. A byte string that fits in
  memory passes if and only if it is a sequence of entries padded to whole blocks, closed by at least
  two zero blocks that reach its end: nothing can hide after the terminator or in a truncated entry,
  and no well-formed file is refused.
\<close>

theorem tar_termination_layout:
  assumes "length tar < 2 ^ 64"
  shows "validate_tar_termination t tar package = Inr () \<longleftrightarrow> tar_layout t tar"
proof (cases "length tar < 1024 \<or> length tar mod 512 \<noteq> 0")
  case True
  then have "\<not> tar_layout t tar" using tar_layout_length by fastforce
  with True show ?thesis by (auto simp: validate_tar_termination_def TAR_BLOCK_BYTES_def)
next
  case False
  then have "validate_tar_termination t tar package = tar_walk t tar package 0"
    by (simp add: validate_tar_termination_def TAR_BLOCK_BYTES_def)
  moreover have "512 dvd length tar" using False by (simp add: dvd_eq_mod_eq_0)
  ultimately show ?thesis using tar_walk_layout [of tar 0 t package] assms by simp
qed

section \<open>What an inspected archive guarantees\<close>

definition safe_relative_path :: "string \<Rightarrow> bool" where
  "safe_relative_path p \<longleftrightarrow>
     list_all safe_part (split_char (CHR ''/'') p) \<and>
     list_all (\<lambda>c. c \<notin> {char_nul, char_cr, char_lf, char_backslash}) p"

definition canonical_file :: "ArchiveFile \<Rightarrow> bool" where
  "canonical_file f \<longleftrightarrow>
     am_entry_type (af_metadata f) = 48 \<and> am_mode (af_metadata f) \<in> {420, 493} \<and>
     am_mtime (af_metadata f) = CARGO_ARCHIVE_MTIME \<and>
     cargo_zero_field (am_uid (af_metadata f)) \<and> cargo_zero_field (am_gid (af_metadata f)) \<and>
     am_username (af_metadata f) = [] \<and> am_groupname (af_metadata f) = []"

definition body_bytes :: "archive_files \<Rightarrow> nat" where
  "body_bytes files = sum_list (map (\<lambda>(_, f). length (af_body f)) files)"

definition archive_inv :: "archive_files \<times> nat \<times> u64 \<Rightarrow> bool" where
  "archive_inv st \<longleftrightarrow> (case st of (files, count, total_size) \<Rightarrow>
     bt_ok files \<and> length files = count \<and> count \<le> MAX_CRATE_FILES \<and>
     body_bytes files = unat total_size \<and> unat total_size \<le> MAX_CRATE_UNPACKED_BYTES \<and>
     list_all (\<lambda>(p, f). safe_relative_path p \<and> canonical_file f) files)"

lemma cargo_archive_metadata_Inr:
  "cargo_archive_metadata t header package = Inr m \<Longrightarrow> canonical_file \<lparr>af_body = b, af_metadata = m\<rparr>"
  by (auto simp: cargo_archive_metadata_def Let_def res_simps canonical_file_def
      CARGO_ARCHIVE_MODES_def)

lemma validate_archive_path_relative:
  assumes "validate_archive_path path prefix package = Inr ()" and "path = prefix @ ''/'' @ rel"
  shows "safe_relative_path rel"
proof -
  have "split_char (CHR ''/'') path = split_char (CHR ''/'') prefix @ split_char (CHR ''/'') rel"
    using assms(2) split_char_join by simp
  with assms show ?thesis
    by (auto simp: validate_archive_path_def res_simps safe_relative_path_def list_all_iff
        list_ex_iff)
qed

lemma body_bytes_insert:
  "map_of files k = None \<Longrightarrow> body_bytes (bt_insert k f files) = length (af_body f) + body_bytes files"
  unfolding body_bytes_def by (induction k f files rule: bt_insert.induct) (auto split: if_splits)

lemma inspect_entry_Inr:
  assumes "inspect_entry t package prefix e (files, count, tot) = Inr st'"
  shows "\<exists>entry sz tot' path md rel body. e = Inr entry \<and> Suc count \<le> MAX_CRATE_FILES \<and>
    checked_add tot sz = Some tot' \<and> unat tot' \<le> MAX_CRATE_UNPACKED_BYTES \<and>
    validate_archive_path path prefix package = Inr () \<and>
    cargo_archive_metadata t (te_header entry) package = Inr md \<and> path = prefix @ ''/'' @ rel \<and>
    length body = unat sz \<and> map_of files rel = None \<and>
    st' = (bt_insert rel \<lparr>af_body = body, af_metadata = md\<rparr> files, Suc count, tot')"
  using assms unfolding inspect_entry_def Let_def prod.case
  by (simp add: bindR_Inr fail_if_Inr ok_or_Inr map_err_Inr strip_prefix_Some linorder_not_less) blast

lemma inspect_entry_inv:
  assumes "archive_inv st" and "inspect_entry t package prefix e st = Inr st'"
  shows "archive_inv st'"
proof -
  obtain files count tot where st: "st = (files, count, tot)" by (cases st) auto
  obtain entry :: tar_entry and sz tot' path md rel body where
    c: "Suc count \<le> MAX_CRATE_FILES" "checked_add tot sz = Some tot'"
      "unat tot' \<le> MAX_CRATE_UNPACKED_BYTES" "validate_archive_path path prefix package = Inr ()"
      "cargo_archive_metadata t (te_header entry) package = Inr md" "path = prefix @ ''/'' @ rel"
      "length body = unat sz" "map_of files rel = None"
    and st': "st' = (bt_insert rel \<lparr>af_body = body, af_metadata = md\<rparr> files, Suc count, tot')"
    using inspect_entry_Inr [OF assms(2) [unfolded st]] by blast
  have inv: "bt_ok files" "length files = count" "body_bytes files = unat tot"
    "list_all (\<lambda>(p, f). safe_relative_path p \<and> canonical_file f) files"
    using assms(1) by (simp_all add: st archive_inv_def)
  from c(2) have tot': "unat tot' = unat tot + unat sz" by (simp add: checked_add_Some)
  have "list_all (\<lambda>(p, f). safe_relative_path p \<and> canonical_file f)
      (bt_insert rel \<lparr>af_body = body, af_metadata = md\<rparr> files)"
    using inv(4) cargo_archive_metadata_Inr [OF c(5)] validate_archive_path_relative [OF c(4,6)]
    by (auto simp: list_all_iff bt_insert_entries [OF inv(1)])
  with c inv tot' show ?thesis
    by (simp add: st' archive_inv_def bt_insert_ok bt_insert_length body_bytes_insert)
qed

lemma inspect_entries_inv:
  "archive_inv st \<Longrightarrow> inspect_entries t package prefix es st = Inr st' \<Longrightarrow> archive_inv st'"
  by (induction es arbitrary: st) (auto simp: res_simps dest: inspect_entry_inv)

lemma parse_vcs_info_Inr [res_simps]:
  "parse_vcs_info t files policy = Inr vcs \<longleftrightarrow>
   (\<exists>f. map_of files ''.cargo_vcs_info.json'' = Some f \<and> at_vcs t (af_body f) = Inr vcs) \<and>
   length (vg_sha1 (vi_git vcs)) = 40 \<and> list_all is_ascii_lower_hex (vg_sha1 (vi_git vcs)) \<and>
   \<not> vg_dirty (vi_git vcs) \<and> vi_path_in_vcs vcs = pp_path_in_vcs policy"
  by (auto simp: parse_vcs_info_def res_simps)

text \<open>The commit of a \<open>.cargo_vcs_info.json\<close> among the files, when it is clean and in the package's path.\<close>

definition archive_source :: "archive_tools \<Rightarrow> package_policy \<Rightarrow> archive_files \<Rightarrow> string \<Rightarrow> bool" where
  "archive_source t policy files commit \<longleftrightarrow>
     (case map_of files ''.cargo_vcs_info.json'' of
        None \<Rightarrow> False
      | Some f \<Rightarrow> at_vcs t (af_body f) =
          Inr \<lparr>vi_git = \<lparr>vg_sha1 = commit, vg_dirty = False\<rparr>, vi_path_in_vcs = pp_path_in_vcs policy\<rparr>)"

lemma inspect_archive_Inr:
  assumes "inspect_archive_entries_with_limit t archive policy ver commit limit = Inr files"
  shows "archive \<noteq> [] \<and> length archive \<le> MAX_CRATE_BYTES"
    and "\<exists>tot. archive_inv (files, length files, tot)"
    and "\<exists>tar. at_gunzip t archive (limit + 1) = Inr (tar, length archive) \<and> length tar \<le> limit \<and>
      validate_tar_termination t tar (pp_package policy) = Inr ()"
    and "\<exists>sha. archive_source t policy files sha \<and> (\<forall>c. commit = Some c \<longrightarrow> sha = c)"
proof -
  obtain tar es count tot vcs where
    a: "archive \<noteq> []" "length archive \<le> MAX_CRATE_BYTES"
      "decompress_single_gzip t archive (pp_package policy) limit = Inr tar"
      "validate_tar_termination t tar (pp_package policy) = Inr ()"
      "inspect_entries t (pp_package policy) (pp_package policy @ ''-'' @ ver) es ([], 0, 0) =
        Inr (files, count, tot)"
      "parse_vcs_info t files policy = Inr vcs" "\<forall>c. commit = Some c \<longrightarrow> vg_sha1 (vi_git vcs) = c"
    using assms unfolding inspect_archive_entries_with_limit_def Let_def
    by (auto simp: bindR_Inr fail_if_Inr map_err_Inr linorder_not_less split: prod.splits option.splits)
  show "archive \<noteq> [] \<and> length archive \<le> MAX_CRATE_BYTES" using a(1,2) by simp
  have "archive_inv ([], 0, 0)" by (simp add: archive_inv_def body_bytes_def)
  from inspect_entries_inv [OF this a(5)] have inv: "archive_inv (files, count, tot)" .
  then have "length files = count" by (simp add: archive_inv_def)
  with inv show "\<exists>tot. archive_inv (files, length files, tot)" by blast
  show "\<exists>tar. at_gunzip t archive (limit + 1) = Inr (tar, length archive) \<and> length tar \<le> limit \<and>
      validate_tar_termination t tar (pp_package policy) = Inr ()"
    using a(3,4) by (auto simp: decompress_single_gzip_def res_simps split: prod.splits)
  have "archive_source t policy files (vg_sha1 (vi_git vcs))"
    using a(6) by (cases vcs; cases "vi_git vcs") (auto simp: archive_source_def res_simps)
  with a(7) show "\<exists>sha. archive_source t policy files sha \<and> (\<forall>c. commit = Some c \<longrightarrow> sha = c)"
    by blast
qed

section \<open>Reference tools and an example archive\<close>

text \<open>
  A reading of GNU tar headers with stored compression, and an archive of one file, to instantiate
  the parameters.
\<close>

definition octal :: "bytes \<Rightarrow> nat" where
  "octal bs = foldl (\<lambda>acc b. 8 * acc + (unat b - 48)) 0 (takeWhile (\<lambda>b. b \<noteq> 0) bs)"

definition ref_size :: "bytes \<Rightarrow> u64 result" where
  "ref_size header = Inr (of_nat (octal (subrange 124 136 header)))"

function ref_entries :: "bytes \<Rightarrow> tar_entry result list" where
  "ref_entries bs =
     (if length bs < 512 \<or> all_zero (take 512 bs) then []
      else let n = octal (subrange 124 136 (take 512 bs))
        in Inr \<lparr>te_header = take 512 bs,
             te_path_bytes = takeWhile (\<lambda>b. b \<noteq> 0) (take 100 bs),
             te_read = (\<lambda>k. Inr (take k (take n (drop 512 bs))))\<rparr>
           # ref_entries (drop (512 + (n + 511) div 512 * 512) bs))"
  by pat_completeness auto

termination
  by (relation "measure length") auto

declare ref_entries.simps [simp del]

definition ref_tools :: archive_tools where
  "ref_tools =
     \<lparr>at_gunzip = (\<lambda>a n. case a of
         [] \<Rightarrow> Inl ''empty stream''
       | b # bs \<Rightarrow> if b = 31 then Inr (take n bs, length a) else Inl ''invalid gzip header''),
      at_entries = (\<lambda>bs. Inr (ref_entries bs)),
      at_size = ref_size, at_entry_size = ref_size,
      at_is_gnu = (\<lambda>h. subrange 257 265 h = as_bytes (''ustar  '' @ [char_nul])),
      at_mode = (\<lambda>h. Inr (of_nat (octal (subrange 100 108 h)))),
      at_mtime = (\<lambda>h. Inr (of_nat (octal (subrange 136 148 h)))),
      at_username = (\<lambda>h. Some (takeWhile (\<lambda>b. b \<noteq> 0) (subrange 265 297 h))),
      at_groupname = (\<lambda>h. Some (takeWhile (\<lambda>b. b \<noteq> 0) (subrange 297 329 h))),
      at_link_name = (\<lambda>h. Some (takeWhile (\<lambda>b. b \<noteq> 0) (subrange 157 257 h))),
      at_sha256 = (\<lambda>bs. replicate 30 0 @ [of_nat (length bs div 256), of_nat (length bs)]),
      at_vcs = (\<lambda>bs. Inr
         \<lparr>vi_git = \<lparr>vg_sha1 = of_bytes bs, vg_dirty = False\<rparr>, vi_path_in_vcs = []\<rparr>)\<rparr>"

definition pad_to :: "nat \<Rightarrow> bytes \<Rightarrow> bytes" where
  "pad_to n bs = bs @ replicate (n - length bs) 0"

definition example_header :: "string \<Rightarrow> bytes" where
  "example_header name = pad_to 512
     (pad_to 100 (as_bytes name) @ pad_to 8 (as_bytes ''0000644'') @ GNU_OCTAL_ZERO @ GNU_OCTAL_ZERO
      @ pad_to 12 (as_bytes ''00000000050'') @ pad_to 12 (as_bytes ''10461020230'') @ replicate 8 32
      @ [48] @ replicate 100 0 @ pad_to 8 (as_bytes ''ustar  ''))"

definition example_commit :: string where
  "example_commit = replicate 40 (CHR ''a'')"

definition example_tar :: bytes where
  "example_tar =
     example_header ''yaml-sigil-traits-0.6.0/.cargo_vcs_info.json''
     @ pad_to 512 (as_bytes example_commit) @ replicate (512 * 2) 0"

definition example_archive :: bytes where
  "example_archive = 31 # example_tar"

definition example_checksum :: string where
  "example_checksum = hex (at_sha256 ref_tools example_archive)"

definition example_registry :: "unit registry" where
  "example_registry =
     \<lparr>rg_exact_version = (\<lambda>p v. okE (Some
        \<lparr>rv_num = v, rv_yanked = False, rv_checksum = example_checksum\<rparr>)),
      rg_download = (\<lambda>p v. okE example_archive)\<rparr>"

text \<open>The parts of the example header, and the example through each stage of the inspection.\<close>

abbreviation example_path :: string where
  "example_path \<equiv> ''yaml-sigil-traits-0.6.0/.cargo_vcs_info.json''"

abbreviation example_head :: bytes where
  "example_head \<equiv> example_header example_path"

lemma example_head_length: "length example_head = 512"
  by (simp add: example_header_def pad_to_def GNU_OCTAL_ZERO_def)

lemma example_head_fields:
  "take 100 example_head = pad_to 100 (as_bytes example_path)"
  "subrange 100 108 example_head = pad_to 8 (as_bytes ''0000644'')"
  "subrange 108 116 example_head = GNU_OCTAL_ZERO"
  "subrange 116 124 example_head = GNU_OCTAL_ZERO"
  "subrange 124 136 example_head = pad_to 12 (as_bytes ''00000000050'')"
  "subrange 136 148 example_head = pad_to 12 (as_bytes ''10461020230'')"
  "example_head ! 156 = 48"
  "subrange 157 257 example_head = replicate 100 0"
  "subrange 257 265 example_head = pad_to 8 (as_bytes ''ustar  '')"
  "subrange 265 297 example_head = replicate 32 0"
  "subrange 297 329 example_head = replicate 32 0"
  "subrange 329 337 example_head = replicate 8 0"
  "subrange 337 345 example_head = replicate 8 0"
  by (simp_all add: example_header_def pad_to_def GNU_OCTAL_ZERO_def subrange_def nth_append)

lemma example_octals:
  "octal (pad_to 8 (as_bytes ''0000644'')) = 420"
  "octal (pad_to 12 (as_bytes ''00000000050'')) = 40"
  "octal (pad_to 12 (as_bytes ''10461020230'')) = 1153704088"
  "pad_to 8 (as_bytes ''ustar  '') = as_bytes (''ustar  '' @ [char_nul])"
  by code_simp+

definition example_metadata :: ArchiveMetadata where
  "example_metadata =
     \<lparr>am_header_sha256 = hex (at_sha256 ref_tools example_head), am_entry_type = 48, am_mode = 420,
      am_uid = GNU_OCTAL_ZERO, am_gid = GNU_OCTAL_ZERO, am_mtime = CARGO_ARCHIVE_MTIME,
      am_username = [], am_groupname = [], am_device_major = GNU_NUL_ZERO,
      am_device_minor = GNU_NUL_ZERO\<rparr>"

definition example_files :: archive_files where
  "example_files =
     [(''.cargo_vcs_info.json'', \<lparr>af_body = as_bytes example_commit, af_metadata = example_metadata\<rparr>)]"

lemma example_commit_length: "length (as_bytes example_commit) = 40"
  by (simp add: example_commit_def)

lemma example_head_nonzero: "\<not> all_zero example_head"
proof
  assume "all_zero example_head"
  then have "example_head ! 156 = 0"
    using example_head_length by (simp add: list_all_length)
  with example_head_fields(7) show False by simp
qed

lemma example_head_size: "ref_size example_head = Inr 40"
  by (simp only: ref_size_def example_head_fields example_octals) simp

lemma example_layout: "tar_layout ref_tools example_tar"
  unfolding example_tar_def
proof (rule tar_layout.tar_entry [OF example_head_length example_head_nonzero])
  show "at_entry_size ref_tools example_head = Inr 40"
    by (simp add: ref_tools_def example_head_size)
  show "length (pad_to 512 (as_bytes example_commit)) = (unat (40 :: u64) + 511) div 512 * 512"
    using example_commit_length by (simp add: pad_to_def)
  show "tar_layout ref_tools (replicate (512 * 2) 0)" by (rule tar_layout.tar_end) simp
qed

lemma example_tar_length: "length example_tar = 2048"
  using example_head_length example_commit_length by (simp add: example_tar_def pad_to_def)

lemma example_termination: "validate_tar_termination ref_tools example_tar package = Inr ()"
  using tar_walk_layout [of example_tar 0 ref_tools package] example_layout example_tar_length
  by (simp add: validate_tar_termination_def TAR_BLOCK_BYTES_def)

lemma example_cargo_metadata:
  "cargo_archive_metadata ref_tools example_head package = Inr example_metadata"
proof -
  have "at_is_gnu ref_tools example_head" "at_mode ref_tools example_head = Inr 420"
    "at_mtime ref_tools example_head = Inr CARGO_ARCHIVE_MTIME"
    "at_username ref_tools example_head = Some []" "at_groupname ref_tools example_head = Some []"
    "at_link_name ref_tools example_head = Some []"
    by (simp_all add: ref_tools_def example_head_fields example_octals CARGO_ARCHIVE_MTIME_def)
  moreover have "cargo_zero_field GNU_OCTAL_ZERO" "cargo_zero_field (replicate 8 0)"
    "replicate 8 0 = GNU_NUL_ZERO"
    by (simp_all add: cargo_zero_field_def GNU_NUL_ZERO_def)
  ultimately show ?thesis
    by (simp add: cargo_archive_metadata_def example_head_fields CARGO_ARCHIVE_MODES_def
        example_metadata_def)
qed

lemma example_paths:
  "takeWhile (\<lambda>b. b \<noteq> 0) (pad_to 100 (as_bytes example_path)) = as_bytes example_path"
  "from_utf8 (as_bytes example_path) = Inr example_path"
  "validate_archive_path example_path ''yaml-sigil-traits-0.6.0'' package = Inr ()"
  "strip_prefix example_path ''yaml-sigil-traits-0.6.0/'' = Some ''.cargo_vcs_info.json''"
  "length (as_bytes example_path) = 44"
  by code_simp+

lemma example_raw_path: "validate_raw_header_path example_head example_path package = Inr ()"
  using example_paths(1,5)
  by (simp add: validate_raw_header_path_def example_head_fields Let_def del: of_as_bytes)
    (simp add: pad_to_def fail_if_def list_ex_iff)

lemma ref_entries_block:
  "length bs \<ge> 512 \<Longrightarrow> \<not> all_zero (take 512 bs) \<Longrightarrow>
   ref_entries bs = Inr \<lparr>te_header = take 512 bs,
       te_path_bytes = takeWhile (\<lambda>b. b \<noteq> 0) (take 100 bs),
       te_read = (\<lambda>k. Inr (take k (take (octal (subrange 124 136 (take 512 bs))) (drop 512 bs))))\<rparr>
     # ref_entries (drop (512 + (octal (subrange 124 136 (take 512 bs)) + 511) div 512 * 512) bs)"
  by (subst ref_entries.simps) (simp add: Let_def)

lemma example_entries:
  "ref_entries example_tar =
     [Inr \<lparr>te_header = example_head, te_path_bytes = as_bytes example_path,
        te_read = (\<lambda>k. Inr (take k (as_bytes example_commit)))\<rparr>]"
proof -
  let ?rest = "pad_to 512 (as_bytes example_commit) @ replicate (512 * 2) 0"
  have t: "take 512 example_tar = example_head" "drop 512 example_tar = ?rest"
    "take 100 example_tar = take 100 example_head"
    using example_head_length by (simp_all add: example_tar_def)
  have body: "take 40 (drop 512 example_tar) = as_bytes example_commit"
    using example_commit_length by (simp add: t pad_to_def)
  have "drop 1024 example_tar = drop 512 (drop 512 example_tar)" by simp
  also have "\<dots> = drop 512 ?rest" by (simp only: t)
  also have "\<dots> = replicate 1024 0" using example_commit_length by (simp add: pad_to_def)
  finally have tail: "drop 1024 example_tar = replicate 1024 0" .
  have end': "ref_entries (replicate 1024 0) = []"
    by (subst ref_entries.simps) (simp add: list_all_iff)
  show ?thesis
    using example_tar_length example_head_nonzero
    by (subst ref_entries_block)
      (simp_all add: t(1,3) body tail end' example_head_fields example_octals example_paths
        del: take_take)
qed

lemma example_inspection_entries:
  "inspect_entries ref_tools ''yaml-sigil-traits'' ''yaml-sigil-traits-0.6.0'' (ref_entries example_tar)
     ([], 0, 0) = Inr (example_files, 1, 40)"
proof -
  have "inspect_entry ref_tools ''yaml-sigil-traits'' ''yaml-sigil-traits-0.6.0''
      (Inr \<lparr>te_header = example_head, te_path_bytes = as_bytes example_path,
        te_read = (\<lambda>k. Inr (take k (as_bytes example_commit)))\<rparr>) ([], 0, 0)
      = Inr (example_files, 1, 40)"
    using example_paths example_raw_path example_cargo_metadata example_head_size
      example_commit_length
    by (simp add: inspect_entry_def Let_def MAX_CRATE_FILES_def MAX_CRATE_UNPACKED_BYTES_def
        example_files_def ref_tools_def [THEN arg_cong [where f = at_size]] checked_add_def)
  then show ?thesis by (simp add: example_entries)
qed

lemma example_vcs:
  "parse_vcs_info ref_tools example_files TRAITS_PACKAGE =
     Inr \<lparr>vi_git = \<lparr>vg_sha1 = example_commit, vg_dirty = False\<rparr>, vi_path_in_vcs = []\<rparr>"
proof -
  have "length example_commit = 40" "list_all is_ascii_lower_hex example_commit" by code_simp+
  then show ?thesis
    by (simp add: res_simps example_files_def ref_tools_def TRAITS_PACKAGE_def)
qed

lemma example_inspection:
  "inspect_archive_entries ref_tools example_archive TRAITS_PACKAGE ''0.6.0'' example_commit =
   Inr example_files"
proof -
  have "decompress_single_gzip ref_tools example_archive ''yaml-sigil-traits''
      MAX_CRATE_DECOMPRESSED_BYTES = Inr example_tar"
    using example_tar_length
    by (simp add: decompress_single_gzip_def ref_tools_def example_archive_def
        MAX_CRATE_DECOMPRESSED_BYTES_def)
  moreover have "at_entries ref_tools example_tar = Inr (ref_entries example_tar)"
    by (simp add: ref_tools_def)
  moreover have "length example_archive = 2049" "example_archive \<noteq> []"
    using example_tar_length by (simp_all add: example_archive_def)
  moreover have "pp_package TRAITS_PACKAGE = ''yaml-sigil-traits''" by (simp add: TRAITS_PACKAGE_def)
  ultimately show ?thesis
    using example_termination example_inspection_entries example_vcs
    by (simp add: inspect_archive_entries_def inspect_archive_entries_with_limit_def
        MAX_CRATE_BYTES_def)
qed

theorem tar_termination_layout_witness:
  "validate_tar_termination ref_tools example_tar ''yaml-sigil-traits'' = Inr () \<longleftrightarrow>
   tar_layout ref_tools example_tar"
  by (rule tar_termination_layout) (simp add: example_tar_length)



text \<open>
  C21: \<open>require_archive\<close> binds a published version to a commit. When it succeeds, the registry served
  one record with exactly that version, not yanked, whose checksum is the SHA-256 of the downloaded
  bytes, and those bytes are an archive whose VCS record names exactly the given commit, with a clean
  tree and the package's own path.
\<close>

theorem require_archive_binds:
  assumes "require_archive t registry policy ver commit w = (Inr (checksum, archive, files), w')"
  shows "\<exists>record w1. rg_exact_version registry (pp_package policy) ver w = (Inr (Some record), w1) \<and>
    rg_download registry (pp_package policy) ver w1 = (Inr archive, w') \<and>
    rv_num record = ver \<and> \<not> rv_yanked record \<and> rv_checksum record = checksum \<and>
    is_checksum checksum \<and> checksum = hex (at_sha256 t archive) \<and>
    archive_source t policy files commit"
proof -
  have inspected: "inspect_archive_entries t archive policy ver commit = Inr files"
    using assms by (auto simp: require_archive_def Let_def res_simps)
  then have "archive_source t policy files commit"
    using inspect_archive_Inr(4) unfolding inspect_archive_entries_def by metis
  with assms show ?thesis by (auto simp: require_archive_def Let_def res_simps)
qed

lemma example_required:
  "require_archive ref_tools example_registry TRAITS_PACKAGE ''0.6.0'' example_commit () =
     (Inr (example_checksum, example_archive, example_files), ())"
proof -
  have "is_checksum (hex (replicate 30 0 @ [of_nat (2049 div 256), of_nat 2049]))" by code_simp
  moreover have "length example_archive = 2049"
    using example_tar_length by (simp add: example_archive_def)
  ultimately have "is_checksum example_checksum"
    by (simp add: example_checksum_def ref_tools_def)
  then show ?thesis
    using example_inspection
    by (simp add: require_archive_def example_registry_def okE_def bindE_def Let_def liftE_def
        fail_ifE_def flip: example_checksum_def)
qed

theorem require_archive_binds_witness:
  "\<exists>record w1. rg_exact_version example_registry (pp_package TRAITS_PACKAGE) ''0.6.0'' () =
       (Inr (Some record), w1) \<and>
    rg_download example_registry (pp_package TRAITS_PACKAGE) ''0.6.0'' w1 = (Inr example_archive, ()) \<and>
    rv_num record = ''0.6.0'' \<and> \<not> rv_yanked record \<and> rv_checksum record = example_checksum \<and>
    is_checksum example_checksum \<and> example_checksum = hex (at_sha256 ref_tools example_archive) \<and>
    archive_source ref_tools TRAITS_PACKAGE example_files example_commit"
  by (rule require_archive_binds [OF example_required])

end
