(* ===== verification/Support.thy ===== *)
theory Support
  imports GithubPayloads Release CrateArchive
begin

text \<open>
  \<open>xtask/src/github/support.rs\<close>: the proposal that opens a support line, the reviewed inventory of
  policy blobs, and the check of a selected version against the live release tags. \<open>json_tools\<close> holds
  the \<open>serde_json\<close> functions these operations use.
\<close>

record json_tools =
  js_to_vec :: "json \<Rightarrow> bytes result"
  js_registry :: "bytes \<Rightarrow> RegistryVersion result"
  js_inventory :: "string \<Rightarrow> Inventory result"
  js_pretty :: "Inventory \<Rightarrow> string result"

definition SEED_PATH :: string where
  "SEED_PATH = ''.github/support-policy-paths.txt''"

definition MAX_TAGS :: nat where
  "MAX_TAGS = 4096"

definition tag_prefixes :: "string list" where
  "tag_prefixes = [pp_tag_prefix TRAITS_PACKAGE]"

definition require_path :: "string \<Rightarrow> unit result" where
  "require_path path =
     fail_if
       (path = [] \<or> starts_with path ''/'' \<or> starts_with path ''.github/support-lines/'' \<or>
        list_ex (\<lambda>part. part \<in> {[], ''.'', ''..''}) (split_char (CHR ''/'') path) \<or>
        \<not> list_all (\<lambda>c. is_ascii_alphanumeric c \<or> c \<in> {CHR ''-'', CHR ''.'', CHR ''_'', CHR ''/''}) path)
       ''invalid support policy path or self-referential inventory''"

definition blob_row :: "string \<Rightarrow> string \<Rightarrow> string result" where
  "blob_row path row =
     bindR (ok_or (split_once char_tab row) ''policy path is absent'') (\<lambda>(md, actual).
     let fields = split_char (CHR '' '') md
     in bindR (fail_if
       (actual \<noteq> path \<or> length fields \<noteq> 3 \<or> fields ! 0 \<notin> {''100644'', ''100755''} \<or>
        fields ! 1 \<noteq> ''blob'' \<or> \<not> is_sha (fields ! 2))
       ''support policy path is not one regular Git blob'') (\<lambda>_.
     Inr (fields ! 2)))"

definition blob :: "'w os \<Rightarrow> string \<Rightarrow> string \<Rightarrow> string \<Rightarrow> ('w, string) io" where
  "blob os' root commit path =
     bindE (liftE (require_path path)) (\<lambda>_.
     bindE (fail_ifE (\<not> is_sha commit) ''policy commit must be a full lowercase SHA'') (\<lambda>_.
     bindE (git os' root [''ls-tree'', commit, ''--'', path]) (\<lambda>row.
     liftE (blob_row path row))))"

text \<open>The loop over the seed, on the blobs gathered so far; they are a \<open>BTreeMap\<close>.\<close>

primrec seed_blobs ::
  "'w os \<Rightarrow> string \<Rightarrow> string \<Rightarrow> string list \<Rightarrow> (string \<times> string) list \<Rightarrow>
   ('w, (string \<times> string) list) io" where
  "seed_blobs os' root main [] blobs = okE blobs"
| "seed_blobs os' root main (path # paths) blobs =
     bindE (liftE (require_path path)) (\<lambda>_.
     bindE (blob os' root main path) (\<lambda>b.
     bindE (fail_ifE (map_of blobs path \<noteq> None) ''duplicate support policy seed path'') (\<lambda>_.
     seed_blobs os' root main paths (bt_insert path b blobs))))"

definition seed_inventory ::
  "'w os \<Rightarrow> string \<Rightarrow> release_line \<Rightarrow> string \<Rightarrow> string \<Rightarrow> ('w, Inventory) io" where
  "seed_inventory os' root l anchor main =
     bindE (git os' root [''show'', main @ '':'' @ SEED_PATH]) (\<lambda>seed.
     bindE (seed_blobs os' root main
       (filter (\<lambda>line. line \<noteq> [] \<and> \<not> starts_with line ''#'') (lines seed)) []) (\<lambda>blobs.
     bindE (fail_ifE (blobs = [] \<or> 256 < length blobs)
       ''support policy inventory must contain 1 through 256 paths'') (\<lambda>_.
     okE \<lparr>in_schema_version = 1, in_base_ref = base_ref l, in_anchor = anchor,
          in_policy_commit = main, in_enforce = True, in_blobs = blobs\<rparr>)))"

definition require_repository :: "'w os \<Rightarrow> string option \<Rightarrow> ('w, unit) io" where
  "require_repository os' explicit =
     bindE (readE (os_var os' ''GITHUB_ACTIONS'')) (\<lambda>actions.
     bindE (if actions = Some ''true'' then
         bindE (readE (os_var os' ''GITHUB_REF'')) (\<lambda>ref.
         bindE (fail_ifE (ref \<noteq> Some ''refs/heads/main'')
           ''release policy executes only from protected main'') (\<lambda>_.
         bindE (readE (os_var os' ''GITHUB_REPOSITORY'')) (\<lambda>repository.
         bindE (liftE (ok_or repository ''GITHUB_REPOSITORY is required'')) (\<lambda>actual.
         bindE (fail_ifE (case explicit of None \<Rightarrow> False | Some v \<Rightarrow> v \<noteq> actual)
           ''repository argument differs from GitHub's repository identity'') (\<lambda>_.
         okE actual)))))
       else liftE (ok_or explicit ''local start-support requires --repository'')) (\<lambda>observed.
     fail_ifE (observed \<noteq> REPOSITORY) ''repository differs from compiled release policy''))"

section \<open>Release tags\<close>

definition refs_path :: "string \<Rightarrow> string" where
  "refs_path suffix = ''repos/'' @ REPOSITORY @ ''/git/'' @ suffix"

text \<open>The versions of the annotated release tags; other names under the prefix are skipped.\<close>

primrec annotated_versions :: "semver \<Rightarrow> string \<Rightarrow> GitRef list \<Rightarrow> version list result" where
  "annotated_versions sv prefix [] = Inr []"
| "annotated_versions sv prefix (reference # references) =
     bindR (ok_or (strip_prefix (gr_name reference) prefix) ''unexpected release tag prefix'') (\<lambda>raw.
     bindR (case canonical_version sv raw of
         None \<Rightarrow> Inr []
       | Some v \<Rightarrow>
           bindR (fail_if (go_kind (gr_object reference) \<noteq> ''tag'' \<or>
                \<not> is_sha (go_sha (gr_object reference)))
             ''release progression requires annotated release tags'') (\<lambda>_. Inr [v])) (\<lambda>head.
     bindR (annotated_versions sv prefix references) (\<lambda>vs. Inr (head @ vs))))"

definition require_fresh_progression ::
  "semver \<Rightarrow> 'j serde \<Rightarrow> ('w, 'j) transport \<Rightarrow> release_line \<Rightarrow> version \<Rightarrow> ('w, unit) io" where
  "require_fresh_progression sv de gh l selected =
     (if l = Main then okE ()
      else
        let prefix = tag_prefixes ! 0
        in bindE (get gh (de_refs de) (refs_path (''matching-refs/tags/'' @ prefix))) (\<lambda>references.
           bindE (fail_ifE (MAX_TAGS < length references)
             ''release tag inventory exceeds its bound'') (\<lambda>_.
           bindE (liftE (annotated_versions sv (''refs/tags/'' @ prefix) references)) (\<lambda>published.
           liftE (require_advancement sv l selected published)))))"

definition select_successor :: "semver \<Rightarrow> GitRef list \<Rightarrow> release_line \<Rightarrow> version \<Rightarrow> version result" where
  "select_successor sv tags l selected =
     bindR (fail_if (MAX_TAGS < length tags) ''release tag inventory exceeds its bound'') (\<lambda>_.
     bindR (tag_versions sv (''refs/tags/'' @ tag_prefixes ! 0) (map gr_name tags)) (\<lambda>versions.
     bindR (fail_if (max_by (sv_lt sv) (filter (stable_on_line l) versions) \<noteq> Some selected)
       ''activation must use the line's latest tagged stable version'') (\<lambda>_.
     ok_or (max_by (sv_lt sv) (filter (\<lambda>v. is_ok (require_successor l v)) versions))
       ''main has no tagged stable successor outside the old line; an RC is insufficient'')))"

text \<open>One tag prefix of \<open>published_source\<close>: the ref, its annotated object, and agreement on the source.\<close>

definition published_tag ::
  "semver \<Rightarrow> 'j serde \<Rightarrow> ('w, 'j) transport \<Rightarrow> version \<Rightarrow> string \<Rightarrow> string option \<Rightarrow>
   ('w, string option) io" where
  "published_tag sv de gh v prefix source =
     (let name = prefix @ sv_show sv v in
     bindE (get gh (de_support_ref de) (refs_path (''ref/tags/'' @ name))) (\<lambda>reference.
     bindE (fail_ifE (gr_name reference \<noteq> ''refs/tags/'' @ name \<or>
         go_kind (gr_object reference) \<noteq> ''tag'' \<or> \<not> is_sha (go_sha (gr_object reference)))
       ''activation requires annotated release tags'') (\<lambda>_.
     bindE (get gh (de_support_tag de) (refs_path (''tags/'' @ go_sha (gr_object reference)))) (\<lambda>tag.
     bindE (fail_ifE (st_sha tag \<noteq> go_sha (gr_object reference) \<or> st_tag tag \<noteq> name \<or>
         go_kind (st_object tag) \<noteq> ''commit'' \<or> \<not> is_sha (go_sha (st_object tag)) \<or>
         ta_name (st_tagger tag) \<noteq> APP_LOGIN \<or> ta_email (st_tagger tag) \<noteq> APP_EMAIL)
       ''activation release tag differs from the compiled App policy'') (\<lambda>_.
     bindE (fail_ifE (case source of None \<Rightarrow> False | Some s \<Rightarrow> s \<noteq> go_sha (st_object tag))
       ''release package tags disagree on source'') (\<lambda>_.
     okE (Some (go_sha (st_object tag)))))))))"

primrec published_tags ::
  "semver \<Rightarrow> 'j serde \<Rightarrow> ('w, 'j) transport \<Rightarrow> version \<Rightarrow> string list \<Rightarrow> string option \<Rightarrow>
   ('w, string option) io" where
  "published_tags sv de gh v [] source = okE source"
| "published_tags sv de gh v (prefix # prefixes) source =
     bindE (published_tag sv de gh v prefix source) (published_tags sv de gh v prefixes)"

definition published_source ::
  "semver \<Rightarrow> 'j serde \<Rightarrow> ('w, 'j) transport \<Rightarrow> 'w os \<Rightarrow> string \<Rightarrow> version \<Rightarrow> string \<Rightarrow>
   (string \<Rightarrow> version \<Rightarrow> ('w, unit) io) \<Rightarrow> ('w, string) io" where
  "published_source sv de gh os' root v main verify =
     bindE (published_tags sv de gh v tag_prefixes None) (\<lambda>found.
     bindE (liftE (ok_or found ''compiled package policy has no release tags'')) (\<lambda>source.
     bindE (map_errE (\<lambda>_. ''published source is not on current main; fetch the exact history before retrying'')
       (git os' root [''merge-base'', ''--is-ancestor'', source, main])) (\<lambda>_.
     bindE (verify source v) (\<lambda>_.
     okE source))))"

section \<open>The proposal\<close>

text \<open>A fresh crates.io client for one call.\<close>

definition with_crates_io :: "('w \<times> crates_io, 'a) io \<Rightarrow> ('w, 'a) io" where
  "with_crates_io m = (\<lambda>w. case m (w, crates_io_new) of (r, (w', _)) \<Rightarrow> (r, w'))"

definition verify_packages ::
  "release_tools \<Rightarrow> archive_tools \<Rightarrow> json_tools \<Rightarrow> 'w os \<Rightarrow> string \<Rightarrow> version \<Rightarrow> ('w, unit) io" where
  "verify_packages t at js os' source v =
     with_crates_io
       (bindE (require_archive at (crates_io_registry os' (js_registry js)) TRAITS_PACKAGE
         (rt_show t v) source) (\<lambda>_. okE ()))"

definition main_ref_path :: string where
  "main_ref_path = refs_path ''ref/heads/main''"

text \<open>The local checkout is the exact clean commit protected main names.\<close>

definition require_main_checkout :: "'w os \<Rightarrow> string \<Rightarrow> string \<Rightarrow> ('w, unit) io" where
  "require_main_checkout os' root sha =
     bindE (os_canonicalize os' root) (\<lambda>here.
     bindE (git os' root [''rev-parse'', ''--show-toplevel'']) (\<lambda>top.
     bindE (os_canonicalize os' top) (\<lambda>there.
     bindE (if here \<noteq> there then okE True
       else bindE (git os' root [''rev-parse'', ''HEAD'']) (\<lambda>head.
         if head \<noteq> sha then okE True
         else bindE (git os' root [''status'', ''--porcelain=v1'', ''--untracked-files=all'']) (\<lambda>status.
           okE (status \<noteq> [])))) (\<lambda>bad.
     fail_ifE bad ''start-support requires an exact clean current-main checkout''))))"

definition require_no_active_line ::
  "'j serde \<Rightarrow> ('w, 'j) transport \<Rightarrow> 'w os \<Rightarrow> string \<Rightarrow> string \<Rightarrow> ('w, unit) io" where
  "require_no_active_line de gh os' root sha =
     bindE (get gh (de_refs de) (refs_path ''matching-refs/heads/support/'')) (\<lambda>active.
     bindE (if active \<noteq> [] then okE True
       else bindE (git os' root [''ls-tree'', ''--name-only'', sha, ''.github/support-lines/'']) (\<lambda>inventories.
         okE (inventories \<noteq> []))) (\<lambda>bad.
     fail_ifE bad
       ''an existing support ref or inventory must be retired before opening another line''))"

definition print_proposal ::
  "json_tools \<Rightarrow> semver \<Rightarrow> 'w os \<Rightarrow> release_line \<Rightarrow> version \<Rightarrow> version \<Rightarrow> string \<Rightarrow> Inventory \<Rightarrow> ('w, unit) io" where
  "print_proposal js sv os' l v successor anchor inventory =
     bindE (modifyE (os_print os' (''Eligible after stable main publication ''
       @ sv_show sv successor @ ''; anchor '' @ anchor @ ''.''))) (\<lambda>_.
     bindE (modifyE (os_print os'
       ''Review the protection transaction before executing this absent-ref push:'')) (\<lambda>_.
     bindE (modifyE (os_print os' (''git push --force-with-lease='' @ base_ref l @ '': origin ''
       @ anchor @ '':'' @ base_ref l))) (\<lambda>_.
     bindE (modifyE (os_print os' (''Proposed .github/support-lines/'' @ show_u64 (v_major v) @ ''.''
       @ show_u64 (v_minor v) @ ''.json:''))) (\<lambda>_.
     bindE (liftE (js_pretty js inventory)) (\<lambda>text.
     modifyE (os_print os' text))))))"

definition start ::
  "release_tools \<Rightarrow> archive_tools \<Rightarrow> json_tools \<Rightarrow> bytes serde \<Rightarrow> 'w os \<Rightarrow> string \<Rightarrow> version \<Rightarrow>
   string option \<Rightarrow> ('w, unit) io" where
  "start t at js de os' root v repository =
     (let sv = rt_semver t; gh = gh_transport os' (js_to_vec js); l = Support (v_major v) (v_minor v) in
     bindE (require_repository os' repository) (\<lambda>_.
     bindE (check_manifest t os' root) (\<lambda>_.
     bindE (fail_ifE (v_pre v \<noteq> [] \<or> v_build v \<noteq> [])
       ''support activation requires a published stable version'') (\<lambda>_.
     bindE (liftE (from_base_ref (base_ref l))) (\<lambda>_.
     bindE (gh_new os') (\<lambda>_.
     bindE (get gh (de_support_ref de) main_ref_path) (\<lambda>main.
     bindE (fail_ifE (gr_name main \<noteq> ''refs/heads/main'' \<or> go_kind (gr_object main) \<noteq> ''commit'' \<or>
         \<not> is_sha (go_sha (gr_object main))) ''main is not one exact commit ref'') (\<lambda>_.
     let sha = go_sha (gr_object main) in
     bindE (require_main_checkout os' root sha) (\<lambda>_.
     bindE (require_no_active_line de gh os' root sha) (\<lambda>_.
     bindE (get gh (de_refs de) (refs_path (''matching-refs/tags/'' @ tag_prefixes ! 0))) (\<lambda>tags.
     bindE (liftE (select_successor sv tags l v)) (\<lambda>successor.
     bindE (published_source sv de gh os' root v sha (verify_packages t at js os')) (\<lambda>anchor.
     bindE (published_source sv de gh os' root successor sha (verify_packages t at js os')) (\<lambda>_.
     bindE (seed_inventory os' root l anchor sha) (\<lambda>inventory.
     bindE (get gh (de_support_ref de) main_ref_path) (\<lambda>current.
     bindE (fail_ifE (gr_name current \<noteq> gr_name main \<or> go_kind (gr_object current) \<noteq> ''commit'' \<or>
         go_sha (gr_object current) \<noteq> sha)
       ''protected main changed during proposal generation'') (\<lambda>_.
     print_proposal js sv os' l v successor anchor inventory)))))))))))))))))"

section \<open>What the checks establish\<close>

definition policy_path :: "string \<Rightarrow> bool" where
  "policy_path p \<longleftrightarrow>
     \<not> starts_with p ''.github/support-lines/'' \<and>
     list_all (\<lambda>c. c \<noteq> [] \<and> c \<noteq> ''.'' \<and> c \<noteq> ''..'') (split_char (CHR ''/'') p) \<and>
     list_all (\<lambda>c. is_ascii_alphanumeric c \<or> c \<in> {CHR ''-'', CHR ''.'', CHR ''_'', CHR ''/''}) p"

lemma require_path_Inr [res_simps]: "require_path p = Inr u \<longleftrightarrow> policy_path p"
proof -
  have "list_all (\<lambda>c. c \<noteq> [] \<and> c \<noteq> ''.'' \<and> c \<noteq> ''..'') (split_char (CHR ''/'') p) \<Longrightarrow>
      p \<noteq> [] \<and> \<not> starts_with p ''/''"
    by (cases p) (auto simp: starts_with_iff)
  then show ?thesis
    by (auto simp: require_path_def res_simps policy_path_def list_all_iff list_ex_iff)
qed

lemma blob_Inr:
  assumes "blob os' root commit path w = (Inr sha, w')"
  shows "policy_path path" and "is_sha commit" and "is_sha sha"
    and "\<exists>mode. mode \<in> {''100644'', ''100755''} \<and>
      git os' root [''ls-tree'', commit, ''--'', path] w =
        (Inr (mode @ '' blob '' @ sha @ char_tab # path), w')"
proof -
  obtain row md actual where b: "policy_path path" "is_sha commit"
    "git os' root [''ls-tree'', commit, ''--'', path] w = (Inr row, w')"
    "row = md @ char_tab # actual" "actual = path"
    and f: "length (split_char (CHR '' '') md) = 3"
      "split_char (CHR '' '') md ! 0 \<in> {''100644'', ''100755''}"
      "split_char (CHR '' '') md ! 1 = ''blob''" "is_sha (split_char (CHR '' '') md ! 2)"
      "sha = split_char (CHR '' '') md ! 2"
    using assms
    by (auto simp: blob_def blob_row_def Let_def bindE_Inr liftE_Inr fail_ifE_Inr bindR_Inr ok_or_Inr
        fail_if_Inr require_path_Inr split_once_Some if_Inl_Inr split: prod.splits)
  show "policy_path path" "is_sha commit" "is_sha sha" using b f by simp_all
  from f(1) obtain a b' c where abc: "split_char (CHR '' '') md = [a, b', c]"
    by (auto simp: length_Suc_conv numeral_3_eq_3)
  then have "md = join '' '' [a, b', c]" by (metis join_split_char)
  with abc b f show "\<exists>mode. mode \<in> {''100644'', ''100755''} \<and>
      git os' root [''ls-tree'', commit, ''--'', path] w =
        (Inr (mode @ '' blob '' @ sha @ char_tab # path), w')"
    by (intro exI [of _ a]) auto
qed

lemma stable_on_line_Support:
  "stable_on_line (Support a b) v \<longleftrightarrow>
   v_major v = a \<and> v_minor v = b \<and> v_pre v = [] \<and> v_build v = []"
  by (auto simp: stable_on_line_def)

lemma require_successor_Support:
  "is_ok (require_successor (Support a b) v) \<longleftrightarrow>
   (a, b) < (v_major v, v_minor v) \<and> v_pre v = [] \<and> v_build v = []"
  by (auto simp: require_successor_def fail_if_def Let_def)

definition tagged :: "semver \<Rightarrow> GitRef list \<Rightarrow> version \<Rightarrow> bool" where
  "tagged sv tags v \<longleftrightarrow>
     ''refs/tags/v'' @ sv_show sv v \<in> set (map gr_name tags) \<and> sv_parse sv (sv_show sv v) = Inr v"

lemma select_successor_Inr:
  assumes "select_successor sv tags l v = Inr s"
  shows "\<exists>vs. (\<forall>u. u \<in> set vs \<longleftrightarrow> tagged sv tags u) \<and>
    max_by (sv_lt sv) (filter (stable_on_line l) vs) = Some v \<and>
    max_by (sv_lt sv) (filter (\<lambda>u. is_ok (require_successor l u)) vs) = Some s"
proof -
  obtain vs where vs: "tag_versions sv ''refs/tags/v'' (map gr_name tags) = Inr vs"
    "max_by (sv_lt sv) (filter (stable_on_line l) vs) = Some v"
    "max_by (sv_lt sv) (filter (\<lambda>u. is_ok (require_successor l u)) vs) = Some s"
    using assms
    by (auto simp: select_successor_def bindR_Inr ok_or_Inr fail_if_Inr tag_prefixes_def TRAITS_PACKAGE_def)
  from tag_versions_set [OF vs(1)] have "u \<in> set vs \<longleftrightarrow> tagged sv tags u" for u
    by (simp add: tagged_def)
  with vs(2,3) show ?thesis by blast
qed

text \<open>
  C31: a support line opens only at the end of its history and behind a newer main. When
  \<open>select_successor\<close> accepts a version, it is a tagged stable release of the line and no tagged stable
  release of the line is newer; and the successor it returns is a tagged stable release of a later
  line, newer than the selected version.
\<close>

theorem activation_baseline:
  assumes "semver_laws sv" and "select_successor sv tags (Support a b) v = Inr s"
  shows "tagged sv tags v \<and> stable_on_line (Support a b) v \<and>
    (\<forall>u. tagged sv tags u \<longrightarrow> stable_on_line (Support a b) u \<longrightarrow> u = v \<or> sv_lt sv u v) \<and>
    tagged sv tags s \<and> v_pre s = [] \<and> v_build s = [] \<and> (a, b) < (v_major s, v_minor s) \<and>
    sv_lt sv v s"
proof -
  have ord: "strict_linear (sv_lt sv)"
    using semver_laws.irrefl [OF assms(1)] semver_laws.trans [OF assms(1)]
      semver_laws.total [OF assms(1)] by unfold_locales blast+
  obtain vs where mem: "\<And>u. u \<in> set vs \<longleftrightarrow> tagged sv tags u"
    and v: "max_by (sv_lt sv) (filter (stable_on_line (Support a b)) vs) = Some v"
    and s: "max_by (sv_lt sv) (filter (\<lambda>u. is_ok (require_successor (Support a b) u)) vs) = Some s"
    using select_successor_Inr [OF assms(2)] by blast
  note mv = strict_linear.max_by_Some [OF ord v] and ms = strict_linear.max_by_Some(1) [OF ord s]
  from mv(1) have 1: "tagged sv tags v" "stable_on_line (Support a b) v" by (simp_all add: mem)
  from mv(2) have 2: "u = v \<or> sv_lt sv u v" if "tagged sv tags u" "stable_on_line (Support a b) u" for u
    using that by (simp add: mem)
  from ms have 3: "tagged sv tags s" "v_pre s = []" "v_build s = []" "(a, b) < (v_major s, v_minor s)"
    by (auto simp: mem require_successor_Support)
  have "core v < core s"
    using 1(2) 3(4) by (auto simp: stable_on_line_Support)
  then have "sv_lt sv v s" by (rule semver_laws.lt_core [OF assms(1)])
  with 1 2 3 show ?thesis by blast
qed

definition example_tags :: "GitRef list" where
  "example_tags = map (\<lambda>n. \<lparr>gr_name = n, gr_object = \<lparr>go_sha = replicate 40 (CHR ''a''), go_kind = ''tag''\<rparr>\<rparr>)
     [''refs/tags/v1alpha1'', ''refs/tags/v0.5.1'', ''refs/tags/v0.6.0'', ''refs/tags/v0.5.0'']"

theorem activation_baseline_witness:
  "tagged semver_ref example_tags (release_version 0 5 1) \<and>
   sv_lt semver_ref (release_version 0 5 1) (release_version 0 6 0)"
proof -
  have "select_successor semver_ref example_tags (Support 0 5) (release_version 0 5 1) =
      Inr (release_version 0 6 0)"
    by code_simp
  from activation_baseline [OF ref.semver_laws_axioms this] show ?thesis by simp
qed

text \<open>
  A policy blob is what \<open>git\<close> recorded for exactly one regular file. When \<open>blob\<close> returns an object
  identifier, the path is a normalized policy path outside the inventories, the commit and the
  identifier are full object names, and \<open>git ls-tree\<close> printed one row with a regular file mode, that
  identifier and exactly that path.
\<close>

theorem blob_exact:
  assumes "blob os' root commit path w = (Inr sha, w')"
  shows "policy_path path \<and> is_sha commit \<and> is_sha sha \<and>
    (\<exists>mode. mode \<in> {''100644'', ''100755''} \<and>
      git os' root [''ls-tree'', commit, ''--'', path] w =
        (Inr (mode @ '' blob '' @ sha @ char_tab # path), w'))"
  using blob_Inr [OF assms] by blast

definition example_blob_os :: "unit os" where
  "example_blob_os = scripted_os (script_of
     [([''git'', ''ls-tree'', replicate 40 (CHR ''a''), ''--'', ''policy.txt''],
       ''100644 blob '' @ replicate 40 (CHR ''b'') @ char_tab # ''policy.txt'' @ [char_lf])])
     (\<lambda>k. None) (\<lambda>p. None)"

theorem blob_exact_witness:
  "policy_path ''policy.txt'' \<and> is_sha (replicate 40 (CHR ''b''))"
proof -
  have "blob example_blob_os ''/repo'' (replicate 40 (CHR ''a'')) ''policy.txt'' () =
      (Inr (replicate 40 (CHR ''b'')), ())"
    by code_simp
  from blob_exact [OF this] show ?thesis by simp
qed

end
