(* ===== verification/Provenance.thy ===== *)
theory Provenance
  imports Support
begin

text \<open>
  \<open>xtask/src/github/provenance.rs\<close>: the binding of a release source to protected main and, on a
  support line, to the reviewed inventory and the line's immutable anchor. \<open>load\<close> checks the Git object
  chain, \<open>verify\<close> re-reads the live refs through the transport, and \<open>rebind\<close> does the same from an
  anonymous fetch.
\<close>

datatype operation = Fresh | Recover

record RebindArgs =
  ra_repository :: "string option"
  ra_base_ref :: string
  ra_operation :: operation
  ra_source_root :: string
  ra_source_sha :: string
  ra_version :: version

record Binding =
  bn_line :: release_line
  bn_operation :: operation
  bn_main :: string
  bn_source :: string
  bn_anchor :: "string option"

section \<open>Git evidence\<close>

definition ancestor :: "'w os \<Rightarrow> string \<Rightarrow> string \<Rightarrow> string \<Rightarrow> ('w, unit) io" where
  "ancestor os' root older newer =
     map_errE (\<lambda>_. ''recorded commit is not on the required protected lineage'')
       (bindE (git os' root [''merge-base'', ''--is-ancestor'', older, newer]) (\<lambda>_. okE ()))"

fun inventory_path :: "release_line \<Rightarrow> string result" where
  "inventory_path (Support major minor) =
     Inr (''.github/support-lines/'' @ show_u64 major @ ''.'' @ show_u64 minor @ ''.json'')"
| "inventory_path Main = Inl ''main has no support inventory''"

text \<open>The visitor over a JSON object's entries, in document order.\<close>

primrec unique_blobs_from ::
  "(string \<times> string) list \<Rightarrow> (string \<times> string) list \<Rightarrow> (string \<times> string) list result" where
  "unique_blobs_from [] res = Inr res"
| "unique_blobs_from (entry # entries) res =
     (let (path, sha) = entry
      in bindR (fail_if (256 \<le> length res \<or> map_of res path \<noteq> None)
           ''duplicate or excessive policy paths'') (\<lambda>_.
         unique_blobs_from entries (bt_insert path sha res)))"

definition unique_blobs :: "(string \<times> string) list \<Rightarrow> (string \<times> string) list result" where
  "unique_blobs entries = unique_blobs_from entries []"

text \<open>\<open>js_inventory\<close> gives the fields with \<open>blobs\<close> as the document lists them.\<close>

definition decode_inventory :: "json_tools \<Rightarrow> string \<Rightarrow> Inventory result" where
  "decode_inventory js data =
     bindR (js_inventory js data) (\<lambda>raw.
     bindR (unique_blobs (in_blobs raw)) (\<lambda>blobs. Inr (raw\<lparr>in_blobs := blobs\<rparr>)))"

definition validate_inventory :: "release_line \<Rightarrow> Inventory \<Rightarrow> unit result" where
  "validate_inventory l iv =
     bindR (fail_if
       (in_schema_version iv \<noteq> 1 \<or> in_base_ref iv \<noteq> base_ref l \<or> \<not> is_sha (in_anchor iv) \<or>
        \<not> is_sha (in_policy_commit iv) \<or> in_blobs iv = [] \<or> 256 < length (in_blobs iv))
       ''support inventory identity or path count is invalid'') (\<lambda>_.
     forR (in_blobs iv) (\<lambda>(path, sha).
       bindR (require_path path) (\<lambda>_.
       fail_if (\<not> is_sha sha) ''support inventory blob is not a full object ID'')))"

definition inventory :: "json_tools \<Rightarrow> 'w os \<Rightarrow> string \<Rightarrow> string \<Rightarrow> release_line \<Rightarrow> ('w, Inventory) io" where
  "inventory js os' root commit l =
     bindE (liftE (inventory_path l)) (\<lambda>path.
     bindE (git os' root [''ls-tree'', commit, ''--'', path]) (\<lambda>tree.
     bindE (fail_ifE
       (\<not> starts_with tree ''100644 blob '' \<or> \<not> ends_with tree (char_tab # path) \<or> char_lf \<in> set tree)
       ''support inventory is not one regular Git blob'') (\<lambda>_.
     bindE (git os' root [''show'', commit @ '':'' @ path]) (\<lambda>data.
     bindE (fail_ifE (128 * 1024 < length data) ''support inventory exceeds its bound'') (\<lambda>_.
     bindE (liftE (map_err (\<lambda>e. ''invalid support inventory: '' @ e) (decode_inventory js data))) (\<lambda>iv.
     bindE (liftE (validate_inventory l iv)) (\<lambda>_.
     okE iv)))))))"

definition historical_paths ::
  "json_tools \<Rightarrow> 'w os \<Rightarrow> string \<Rightarrow> release_line \<Rightarrow> Inventory \<Rightarrow> ('w, (string \<times> string) list) io" where
  "historical_paths js os' root l recorded =
     bindE (liftE (inventory_path l)) (\<lambda>path.
     bindE (git os' root [''ls-tree'', in_policy_commit recorded, ''--'', path]) (\<lambda>row.
     if row = [] then
       bindE (fail_ifE (\<not> in_enforce recorded)
         ''initial historical inventory must enforce its seed'') (\<lambda>_.
       bindE (seed_inventory os' root l (in_anchor recorded) (in_policy_commit recorded)) (\<lambda>seed.
       okE (in_blobs seed)))
     else
       bindE (inventory js os' root (in_policy_commit recorded) l) (\<lambda>historical.
       bindE (fail_ifE
         (in_anchor historical \<noteq> in_anchor recorded \<or> in_enforce historical \<noteq> in_enforce recorded)
         ''historical inventory authority differs'') (\<lambda>_.
       okE (in_blobs historical)))))"

definition historical_chain ::
  "json_tools \<Rightarrow> 'w os \<Rightarrow> string \<Rightarrow> string \<Rightarrow> string \<Rightarrow> release_line \<Rightarrow> Inventory \<Rightarrow> ('w, unit) io" where
  "historical_chain js os' root main source l recorded =
     bindE (ancestor os' root (in_policy_commit recorded) main) (\<lambda>_.
     bindE (historical_paths js os' root l recorded) (\<lambda>paths.
     bindE (fail_ifE (bt_keys (in_blobs recorded) \<noteq> bt_keys paths)
       ''source chose a different historical required path set'') (\<lambda>_.
     forE (in_blobs recorded) (\<lambda>(path, expected).
       bindE (blob os' root source path) (\<lambda>at_source.
       bindE (if at_source \<noteq> expected then okE True
         else bindE (blob os' root (in_policy_commit recorded) path) (\<lambda>at_policy.
           okE (at_policy \<noteq> expected))) (\<lambda>bad.
       fail_ifE bad (''historical support blob chain is inconsistent at '' @ path)))))))"

section \<open>Binding\<close>

definition require_fresh_paths ::
  "'w os \<Rightarrow> string \<Rightarrow> string \<Rightarrow> Inventory \<Rightarrow> Inventory \<Rightarrow> ('w, unit) io" where
  "require_fresh_paths os' root main active recorded =
     bindE (fail_ifE
       (\<not> in_enforce recorded \<or> bt_keys (in_blobs recorded) \<noteq> bt_keys (in_blobs active))
       ''fresh source inventory differs from main's required path set'') (\<lambda>_.
     forE (in_blobs recorded) (\<lambda>(path, expected).
       bindE (blob os' root main path) (\<lambda>b.
       fail_ifE (b \<noteq> expected) (''fresh support policy differs from main at '' @ path))))"

definition load_anchor ::
  "json_tools \<Rightarrow> 'w os \<Rightarrow> string \<Rightarrow> string \<Rightarrow> string \<Rightarrow> release_line \<Rightarrow> operation \<Rightarrow> ('w, string) io" where
  "load_anchor js os' root main source l op =
     bindE (liftE (inventory_path l)) (\<lambda>path.
     bindE (git os' root [''ls-tree'', ''-r'', ''--name-only'', main, ''--'', ''.github/support-lines/''])
       (\<lambda>inventories.
     bindE (fail_ifE (inventories \<noteq> path)
       ''main must select exactly one active support inventory'') (\<lambda>_.
     bindE (inventory js os' root main l) (\<lambda>active.
     bindE (inventory js os' root source l) (\<lambda>recorded.
     bindE (fail_ifE (in_anchor active \<noteq> in_anchor recorded)
       ''source inventory changed the protected activation anchor'') (\<lambda>_.
     bindE (ancestor os' root (in_anchor active) source) (\<lambda>_.
     bindE (ancestor os' root (in_anchor active) main) (\<lambda>_.
     bindE (git os' root [''merge-base'', source, main]) (\<lambda>fork.
     bindE (fail_ifE (fork \<noteq> in_anchor active)
       ''support source fork point differs from its immutable anchor'') (\<lambda>_.
     bindE (historical_chain js os' root main source l recorded) (\<lambda>_.
     bindE (if op = Fresh \<and> in_enforce active
         then require_fresh_paths os' root main active recorded else okE ()) (\<lambda>_.
     okE (in_anchor active)))))))))))))"

definition binding_load ::
  "json_tools \<Rightarrow> 'w os \<Rightarrow> string \<Rightarrow> string \<Rightarrow> string \<Rightarrow> release_line \<Rightarrow> operation \<Rightarrow> ('w, Binding) io" where
  "binding_load js os' root main source l op =
     bindE (fail_ifE (\<not> is_sha main \<or> \<not> is_sha source)
       ''provenance requires exact commit identities'') (\<lambda>_.
     bindE (if l = Main then okE None
       else bindE (load_anchor js os' root main source l op) (\<lambda>a. okE (Some a))) (\<lambda>anchor.
     okE \<lparr>bn_line = l, bn_operation = op, bn_main = main, bn_source = source, bn_anchor = anchor\<rparr>))"

definition read_ref :: "'j serde \<Rightarrow> ('w, 'j) transport \<Rightarrow> string \<Rightarrow> ('w, string) io" where
  "read_ref de gh base =
     bindE (liftE (ok_or (strip_prefix base ''refs/'') ''invalid protected ref'')) (\<lambda>branch.
     bindE (get gh (de_support_ref de) (refs_path (''ref/'' @ branch))) (\<lambda>reference.
     bindE (fail_ifE
       (gr_name reference \<noteq> base \<or> go_kind (gr_object reference) \<noteq> ''commit'' \<or>
        \<not> is_sha (go_sha (gr_object reference)))
       ''protected base is not one exact commit ref'') (\<lambda>_.
     okE (go_sha (gr_object reference)))))"

definition compare_path :: "string \<Rightarrow> string \<Rightarrow> string" where
  "compare_path source tip = ''repos/'' @ REPOSITORY @ ''/compare/'' @ source @ ''...'' @ tip"

definition compare :: "'j serde \<Rightarrow> ('w, 'j) transport \<Rightarrow> string \<Rightarrow> string \<Rightarrow> ('w, Comparison) io" where
  "compare de gh source tip = get gh (de_base_comparison de) (compare_path source tip)"

definition verify_anchor ::
  "'j serde \<Rightarrow> ('w, 'j) transport \<Rightarrow> string \<Rightarrow> string \<Rightarrow> string \<Rightarrow> ('w, unit) io" where
  "verify_anchor de gh anchor main commit =
     bindE (compare de gh commit main) (\<lambda>comparison.
     fail_ifE
       (go_sha (cm_base_commit comparison) \<noteq> commit \<or>
        go_sha (cm_merge_base_commit comparison) \<noteq> anchor)
       ''protected support lineage has a different activation anchor'')"

definition binding_verify :: "'j serde \<Rightarrow> ('w, 'j) transport \<Rightarrow> Binding \<Rightarrow> ('w, unit) io" where
  "binding_verify de gh b =
     bindE (read_ref de gh (base_ref (bn_line b))) (\<lambda>base.
     bindE (fail_ifE (bn_operation b = Fresh \<and> base \<noteq> bn_source b)
       ''fresh release source is no longer the exact protected base tip'') (\<lambda>_.
     bindE (compare de gh (bn_source b) base) (\<lambda>comparison.
     bindE (fail_ifE
       (cm_status comparison \<notin> {''ahead'', ''identical''} \<or>
        go_sha (cm_base_commit comparison) \<noteq> bn_source b \<or>
        go_sha (cm_merge_base_commit comparison) \<noteq> bn_source b)
       ''release source is no longer on the protected base lineage'') (\<lambda>_.
     bindE (case bn_anchor b of
         None \<Rightarrow> okE ()
       | Some anchor \<Rightarrow> forE [bn_source b, base] (verify_anchor de gh anchor (bn_main b))) (\<lambda>_.
     bindE (read_ref de gh (base_ref (bn_line b))) (\<lambda>again.
     bindE (fail_ifE (again \<noteq> base)
       ''protected release base moved during provenance binding'') (\<lambda>_.
     bindE (read_ref de gh ''refs/heads/main'') (\<lambda>main.
     fail_ifE (main \<noteq> bn_main b)
       ''executing release policy is no longer exact current main''))))))))"

definition verify_git :: "'w os \<Rightarrow> string \<Rightarrow> Binding \<Rightarrow> string \<Rightarrow> ('w, unit) io" where
  "verify_git os' root b base =
     bindE (fail_ifE (bn_operation b = Fresh \<and> base \<noteq> bn_source b)
       ''fresh release requires the exact protected base tip'') (\<lambda>_.
     bindE (ancestor os' root (bn_source b) base) (\<lambda>_.
     case bn_anchor b of
       None \<Rightarrow> okE ()
     | Some anchor \<Rightarrow>
         bindE (git os' root [''merge-base'', base, bn_main b]) (\<lambda>fork.
         fail_ifE (fork \<noteq> anchor) ''protected support tip changed its activation anchor'')))"

section \<open>Anonymous rebind\<close>

definition exact_root :: "'w os \<Rightarrow> string \<Rightarrow> ('w, string) io" where
  "exact_root os' root =
     bindE (os_canonicalize os' root) (\<lambda>actual.
     bindE (git os' root [''rev-parse'', ''--show-toplevel'']) (\<lambda>shown.
     bindE (os_canonicalize os' shown) (\<lambda>top.
     bindE (if actual \<noteq> top then okE True
       else bindE (git os' root [''status'', ''--porcelain=v1'', ''--untracked-files=all'']) (\<lambda>status.
         okE (status \<noteq> []))) (\<lambda>bad.
     bindE (fail_ifE bad ''release checkout must be its exact clean Git root'') (\<lambda>_.
     okE actual)))))"

text \<open>The fetch command: every \<open>GIT_\<close> variable and every token removed, empty configuration.\<close>

definition fetch_command :: "string list \<Rightarrow> string \<Rightarrow> string \<Rightarrow> release_line \<Rightarrow> command" where
  "fetch_command variables root remote l =
     (let c = foldl (\<lambda>c k. env_remove k c) (command_new ''git'')
            (filter (\<lambda>k. is_ok (from_utf8 (as_bytes k)) \<and> starts_with k ''GIT_'') variables);
          c = env_remove ''GIT_TOKEN'' (env_remove ''GITHUB_TOKEN'' (env_remove ''GH_TOKEN'' c));
          c = env_set ''GIT_CONFIG_SYSTEM'' ''/dev/null'' (env_set ''GIT_CONFIG_GLOBAL'' ''/dev/null'' c);
          c = env_set ''GIT_ASKPASS'' ''/bin/false'' (env_set ''GIT_TERMINAL_PROMPT'' ''0''
            (env_set ''GIT_CONFIG_NOSYSTEM'' ''1'' c));
          c = cmd_args [''-c'', ''credential.helper='', ''fetch'', ''--quiet'', ''--no-tags'', remote,
            ''+refs/heads/main:refs/remotes/origin/main''] (current_dir root c)
      in if l \<noteq> Main then cmd_args [''+'' @ base_ref l @ '':'' @ tracking_ref l] c else c)"

definition fetch :: "'w os \<Rightarrow> string \<Rightarrow> string \<Rightarrow> release_line \<Rightarrow> ('w, unit) io" where
  "fetch os' root remote l =
     bindE (readE (os_vars os')) (\<lambda>variables.
     bindE (map_errE (\<lambda>e. ''fetch protected history: '' @ ie_text e)
       (os_output os' (fetch_command variables root remote l) None VALIDATION_OUTPUT_LIMITS)) (\<lambda>out.
     fail_ifE (\<not> out_success out) ''anonymous protected-history fetch failed''))"

fun debug_operation :: "operation \<Rightarrow> string" where
  "debug_operation Fresh = ''Fresh''"
| "debug_operation Recover = ''Recover''"

text \<open>The part of \<open>rebind\<close> in the scratch repository, once both checkouts are known.\<close>

definition rebind_scratch ::
  "json_tools \<Rightarrow> 'w os \<Rightarrow> string \<Rightarrow> string \<Rightarrow> RebindArgs \<Rightarrow> release_line \<Rightarrow> ('w, unit) io" where
  "rebind_scratch js os' policy scratch args l =
     (let remote = ''https://github.com/'' @ REPOSITORY @ ''.git'' in
     bindE (git os' scratch [''init'', ''--quiet'']) (\<lambda>_.
     bindE (fetch os' scratch remote l) (\<lambda>_.
     bindE (git os' scratch [''rev-parse'', ''refs/remotes/origin/main'']) (\<lambda>main.
     bindE (git os' scratch [''rev-parse'', tracking_ref l]) (\<lambda>base.
     bindE (git os' policy [''rev-parse'', ''HEAD'']) (\<lambda>head.
     bindE (fail_ifE (head \<noteq> main) ''executing policy is no longer exact current main'') (\<lambda>_.
     bindE (binding_load js os' scratch main (ra_source_sha args) l (ra_operation args)) (\<lambda>binding.
     bindE (verify_git os' scratch binding base) (\<lambda>_.
     bindE (fetch os' scratch remote l) (\<lambda>_.
     bindE (git os' scratch [''rev-parse'', ''refs/remotes/origin/main'']) (\<lambda>main'.
     bindE (if main' \<noteq> main then okE True
       else bindE (git os' scratch [''rev-parse'', tracking_ref l]) (\<lambda>base'. okE (base' \<noteq> base))) (\<lambda>moved.
     bindE (fail_ifE moved ''protected refs moved during policy rebind'') (\<lambda>_.
     modifyE (os_print os' (''Bound '' @ ra_base_ref args @ '' source '' @ ra_source_sha args
       @ '' to main '' @ main @ '' ('' @ debug_operation (ra_operation args) @ '').'')))))))))))))))"

definition rebind ::
  "release_tools \<Rightarrow> json_tools \<Rightarrow> 'w os \<Rightarrow> string \<Rightarrow> RebindArgs \<Rightarrow> ('w, unit) io" where
  "rebind t js os' root args =
     bindE (require_repository os' (ra_repository args)) (\<lambda>_.
     bindE (check_manifest t os' root) (\<lambda>_.
     bindE (liftE (from_base_ref (ra_base_ref args))) (\<lambda>l.
     bindE (liftE (require_version (rt_semver t) l (ra_version args))) (\<lambda>_.
     bindE (check_manifest t os' (ra_source_root args)) (\<lambda>_.
     bindE (manifest_version t os' (ra_source_root args)) (\<lambda>v.
     bindE (fail_ifE (v \<noteq> ra_version args) ''rebound source version differs from qualification'') (\<lambda>_.
     bindE (exact_root os' root) (\<lambda>policy.
     bindE (exact_root os' (ra_source_root args)) (\<lambda>source.
     bindE (fail_ifE
       (policy = source \<or> path_starts_with policy source \<or> path_starts_with source policy)
       ''policy and source require separate, non-nested roots'') (\<lambda>_.
     bindE (if \<not> is_sha (ra_source_sha args) then okE True
       else bindE (git os' source [''rev-parse'', ''HEAD'']) (\<lambda>head.
         okE (head \<noteq> ra_source_sha args))) (\<lambda>bad.
     bindE (fail_ifE bad ''source checkout differs from its qualified source'') (\<lambda>_.
     bindE (map_errE (\<lambda>e. ''create provenance checkout: '' @ e) (os_tempdir os')) (\<lambda>scratch.
     rebind_scratch js os' policy scratch args l)))))))))))))"

section \<open>Required paths\<close>

lemma unique_blobs_from_exact:
  assumes "bt_ok res"
  shows "case unique_blobs_from entries res of
      Inr m \<Rightarrow> length m = length res + length entries \<and> length m \<le> max 256 (length res) \<and>
        distinct (map fst entries) \<and> fst ` set entries \<inter> fst ` set res = {} \<and>
        bt_ok m \<and> set m = set res \<union> set entries
    | Inl _ \<Rightarrow> \<not> (distinct (map fst entries) \<and> fst ` set entries \<inter> fst ` set res = {} \<and>
        length res + length entries \<le> 256)"
  using assms
proof (induction entries arbitrary: res)
  case Nil
  then show ?case by simp
next
  case (Cons entry entries)
  obtain path sha where entry: "entry = (path, sha)" by fastforce
  show ?case
  proof (cases "256 \<le> length res \<or> map_of res path \<noteq> None")
    case True
    then have "path \<in> fst ` set res \<or> 256 \<le> length res"
      by (auto simp: map_of_eq_None_iff)
    with True entry show ?thesis by auto
  next
    case False
    then have fresh: "map_of res path = None" and room: "length res < 256" by auto
    then have absent: "path \<notin> fst ` set res" by (simp add: map_of_eq_None_iff)
    let ?res = "bt_insert path sha res"
    have ok: "bt_ok ?res" using Cons.prems by (rule bt_insert_ok)
    have len: "length ?res = Suc (length res)" by (rule bt_insert_length [OF fresh])
    have keys: "fst ` set ?res = insert path (fst ` set res)" by (rule bt_insert_set)
    have content: "set ?res = insert (path, sha) (set res)"
      using bt_insert_entries [OF Cons.prems] absent by force
    from False entry have step: "unique_blobs_from (entry # entries) res = unique_blobs_from entries ?res"
      by simp
    show ?thesis
      using Cons.IH [OF ok] room absent entry
      unfolding step len keys content by (auto split: sum.splits)
  qed
qed

text \<open>
  The required path set of an inventory. The object's entries are accepted exactly when no path
  occurs twice and there are at most 256; the result is then the sorted map of exactly those entries,
  whatever order the document lists them in.
\<close>

lemma unique_blobs_exact:
  "case unique_blobs entries of
     Inr m \<Rightarrow> distinct (map fst entries) \<and> length entries \<le> 256 \<and>
       sorted_wrt (<) (map fst m) \<and> set m = set entries
   | Inl _ \<Rightarrow> \<not> (distinct (map fst entries) \<and> length entries \<le> 256)"
  using unique_blobs_from_exact [of "[]" entries]
  by (auto simp: unique_blobs_def bt_ok_def split: sum.splits)

text \<open>What a validated inventory is.\<close>

definition inventory_ok :: "release_line \<Rightarrow> Inventory \<Rightarrow> bool" where
  "inventory_ok l iv \<longleftrightarrow>
     in_schema_version iv = 1 \<and> in_base_ref iv = base_ref l \<and>
     is_sha (in_anchor iv) \<and> is_sha (in_policy_commit iv) \<and>
     in_blobs iv \<noteq> [] \<and> length (in_blobs iv) \<le> 256 \<and> sorted_wrt (<) (map fst (in_blobs iv)) \<and>
     list_all (\<lambda>(path, sha). policy_path path \<and> is_sha sha) (in_blobs iv)"

lemma validate_inventory_ok:
  assumes "validate_inventory l iv = Inr ()" and "sorted_wrt (<) (map fst (in_blobs iv))"
  shows "inventory_ok l iv"
  using assms
  by (auto simp: validate_inventory_def inventory_ok_def res_simps list_all_iff split: prod.splits)

lemma decode_inventory_sorted:
  assumes "decode_inventory js data = Inr iv"
  shows "sorted_wrt (<) (map fst (in_blobs iv))"
proof -
  from assms obtain raw :: Inventory where "unique_blobs (in_blobs raw) = Inr (in_blobs iv)"
    by (cases "js_inventory js data") (auto simp: decode_inventory_def res_simps)
  with unique_blobs_from_exact [of "[]" "in_blobs raw"] show ?thesis
    by (auto simp: unique_blobs_def bt_ok_def)
qed

text \<open>
  C40: no malformed inventory is used. Whatever the repository and the JSON reader give, an inventory
  that \<open>inventory\<close> returns has schema 1, names its own line's branch, full object IDs as anchor, policy
  commit and blobs, and between one and 256 distinct policy paths in order, none absolute, none with a
  dot component and none inside the inventory directory itself.
\<close>

theorem inventory_well_formed:
  "case inventory js os' root commit l w of
     (Inl _, _) \<Rightarrow> True
   | (Inr iv, _) \<Rightarrow> inventory_ok l iv"
proof -
  have "inventory_ok l iv" if "inventory js os' root commit l w = (Inr iv, w')" for iv w'
  proof -
    from that obtain data where "decode_inventory js data = Inr iv" "validate_inventory l iv = Inr ()"
      by (auto simp: inventory_def res_simps)
    then show ?thesis by (auto intro: validate_inventory_ok decode_inventory_sorted)
  qed
  then show ?thesis by (auto split: prod.split sum.split)
qed

section \<open>The anonymous fetch\<close>

text \<open>The environment of a child, from the caller's and the edits of the command.\<close>

fun apply_edit :: "(string \<rightharpoonup> string) \<Rightarrow> env_edit \<Rightarrow> (string \<rightharpoonup> string)" where
  "apply_edit env (EnvSet k v) = env(k \<mapsto> v)"
| "apply_edit env (EnvRemove k) = env(k := None)"

definition child_env :: "(string \<rightharpoonup> string) \<Rightarrow> command \<Rightarrow> (string \<rightharpoonup> string)" where
  "child_env env c = foldl apply_edit env (cm_env c)"

lemma edited_env [simp]:
  "cm_env (env_remove k c) = cm_env c @ [EnvRemove k]"
  "cm_env (env_set k v c) = cm_env c @ [EnvSet k v]"
  by (simp_all add: env_remove_def env_set_def)

lemma removals_env: "cm_env (foldl (\<lambda>c k. env_remove k c) c ks) = cm_env c @ map EnvRemove ks"
  by (induction ks arbitrary: c) simp_all

lemma apply_removals:
  "foldl apply_edit env (map EnvRemove ks) = (\<lambda>k. if k \<in> set ks then None else env k)"
  by (induction ks arbitrary: env) (auto simp: fun_eq_iff)

definition FETCH_ENV :: "(string \<times> string) list" where
  "FETCH_ENV =
     [(''GIT_CONFIG_GLOBAL'', ''/dev/null''), (''GIT_CONFIG_SYSTEM'', ''/dev/null''),
      (''GIT_CONFIG_NOSYSTEM'', ''1''), (''GIT_TERMINAL_PROMPT'', ''0''), (''GIT_ASKPASS'', ''/bin/false'')]"

lemma fetch_env:
  "child_env env (fetch_command variables root remote l) =
   (let kept = (\<lambda>k. if k \<in> set variables \<and> is_ok (from_utf8 (as_bytes k)) \<and> starts_with k ''GIT_''
                  then None else env k)
    in kept(''GH_TOKEN'' := None, ''GITHUB_TOKEN'' := None, ''GIT_TOKEN'' := None,
       ''GIT_CONFIG_GLOBAL'' \<mapsto> ''/dev/null'', ''GIT_CONFIG_SYSTEM'' \<mapsto> ''/dev/null'',
       ''GIT_CONFIG_NOSYSTEM'' \<mapsto> ''1'', ''GIT_TERMINAL_PROMPT'' \<mapsto> ''0'',
       ''GIT_ASKPASS'' \<mapsto> ''/bin/false''))"
proof -
  have "cm_env (fetch_command variables root remote l) =
      map EnvRemove (filter (\<lambda>k. is_ok (from_utf8 (as_bytes k)) \<and> starts_with k ''GIT_'') variables)
      @ map EnvRemove [''GH_TOKEN'', ''GITHUB_TOKEN'', ''GIT_TOKEN'']
      @ map (\<lambda>(k, v). EnvSet k v) FETCH_ENV"
    by (simp add: fetch_command_def Let_def removals_env FETCH_ENV_def command_new_def)
  then show ?thesis
    by (simp add: child_env_def FETCH_ENV_def apply_removals Let_def)
qed



end
