(* ===== verification/LatestGuard.thy ===== *)
theory LatestGuard
  imports GithubPayloads
begin

text \<open>
  \<open>xtask/src/github/latest.rs\<close>: which Release carries GitHub's Latest mark. A guard captures the
  mark before a Release is created, decides whether the new one advances it, and reads it back.
\<close>

definition package_prefixes :: "string list" where
  "package_prefixes = [pp_tag_prefix TRAITS_PACKAGE]"

primrec release_order_from :: "semver \<Rightarrow> string \<Rightarrow> nat \<Rightarrow> string list \<Rightarrow> (version \<times> nat) result" where
  "release_order_from sv tag ordinal [] =
     Inl ''Latest tag is outside the compiled package family''"
| "release_order_from sv tag ordinal (prefix # prefixes) =
     (case strip_prefix tag prefix of
        Some raw \<Rightarrow>
          bindR (map_err (\<lambda>_. ''Latest tag has an invalid version'') (sv_parse sv raw)) (\<lambda>v.
          bindR (fail_if (sv_show sv v \<noteq> raw \<or> v_build v \<noteq> [])
            ''Latest tag has a noncanonical version'') (\<lambda>_.
          Inr (v, ordinal)))
      | None \<Rightarrow> release_order_from sv tag (ordinal + 1) prefixes)"

definition release_order :: "semver \<Rightarrow> string \<Rightarrow> (version \<times> nat) result" where
  "release_order sv tag = release_order_from sv tag 0 package_prefixes"

text \<open>The order of \<open>(Version, usize)\<close>.\<close>

definition order_less :: "semver \<Rightarrow> version \<times> nat \<Rightarrow> version \<times> nat \<Rightarrow> bool" where
  "order_less sv a b \<longleftrightarrow> sv_lt sv (fst a) (fst b) \<or> fst a = fst b \<and> snd a < snd b"

definition latest_path :: string where
  "latest_path = ''repos/'' @ REPOSITORY @ ''/releases/latest''"

definition read_latest ::
  "semver \<Rightarrow> 'j serde \<Rightarrow> ('w, 'j) transport \<Rightarrow> ('w, Latest option) io" where
  "read_latest sv de gh =
     bindE (get_optional gh (de_latest de) latest_path) (\<lambda>observed.
     case observed of
       None \<Rightarrow> okE None
     | Some latest \<Rightarrow>
         bindE (liftE (release_order sv (la_tag_name latest))) (\<lambda>(v, _).
         bindE (fail_ifE (la_id latest = 0 \<or> v_pre v \<noteq> [] \<or> v_build v \<noteq> [])
           ''Latest is not one canonical stable repository Release'') (\<lambda>_.
         okE (Some latest))))"

record Guard =
  gu_before :: "Latest option"
  gu_target :: string
  gu_advance :: bool

definition guard_advance ::
  "semver \<Rightarrow> release_line \<Rightarrow> version \<times> nat \<Rightarrow> Latest option \<Rightarrow> bool result" where
  "guard_advance sv l target before =
     (if \<not> make_latest l (fst target) then Inr False
      else case before of
        None \<Rightarrow> Inr True
      | Some latest \<Rightarrow>
          bindR (release_order sv (la_tag_name latest)) (\<lambda>order. Inr (order_less sv order target)))"

definition guard_capture ::
  "semver \<Rightarrow> 'j serde \<Rightarrow> ('w, 'j) transport \<Rightarrow> release_line \<Rightarrow> string \<Rightarrow> ('w, Guard) io" where
  "guard_capture sv de gh l tag =
     bindE (liftE (release_order sv tag)) (\<lambda>target.
     bindE (read_latest sv de gh) (\<lambda>before.
     bindE (fail_ifE (l \<noteq> Main \<and> (case before of None \<Rightarrow> False | Some b \<Rightarrow> la_tag_name b = tag))
       ''support release already holds Latest; reconcile that state before retrying'') (\<lambda>_.
     bindE (liftE (guard_advance sv l target before)) (\<lambda>advance.
     okE \<lparr>gu_before = before, gu_target = tag, gu_advance = advance\<rparr>))))"

definition request_value :: "Guard \<Rightarrow> string" where
  "request_value g = (if gu_advance g then ''true'' else ''false'')"

definition require_unchanged ::
  "semver \<Rightarrow> 'j serde \<Rightarrow> ('w, 'j) transport \<Rightarrow> Guard \<Rightarrow> ('w, unit) io" where
  "require_unchanged sv de gh g =
     bindE (read_latest sv de gh) (\<lambda>now.
     fail_ifE (now \<noteq> gu_before g)
       ''Latest changed before Release creation; requalify without mutation'')"

definition guard_verify ::
  "semver \<Rightarrow> 'j serde \<Rightarrow> ('w, 'j) transport \<Rightarrow> Guard \<Rightarrow> ('w, unit) io" where
  "guard_verify sv de gh g =
     bindE (read_latest sv de gh) (\<lambda>after.
     let matches = (if gu_advance g
           then (case after of None \<Rightarrow> False | Some latest \<Rightarrow> la_tag_name latest = gu_target g)
           else after = gu_before g)
     in fail_ifE (\<not> matches) ''Latest readback differs from the intended Release outcome'')"

section \<open>Latest never regresses\<close>

text \<open>The stable version a Latest mark stands for.\<close>

definition latest_version :: "semver \<Rightarrow> Latest \<Rightarrow> version \<Rightarrow> bool" where
  "latest_version sv latest v \<longleftrightarrow>
     la_tag_name latest = pp_tag_prefix TRAITS_PACKAGE @ sv_show sv v \<and>
     sv_parse sv (sv_show sv v) = Inr v \<and> la_id latest \<noteq> 0 \<and> v_pre v = [] \<and> v_build v = []"

lemma release_order_Inr [res_simps]:
  "release_order sv tag = Inr (v, n) \<longleftrightarrow>
   n = 0 \<and> tag = pp_tag_prefix TRAITS_PACKAGE @ sv_show sv v \<and>
   sv_parse sv (sv_show sv v) = Inr v \<and> v_build v = []"
  unfolding release_order_def package_prefixes_def
  by (auto simp: res_simps split: option.splits)

lemma latest_version_unique: "latest_version sv b u \<Longrightarrow> latest_version sv b v \<Longrightarrow> u = v"
  by (simp add: latest_version_def)

lemma latest_version_tag:
  assumes "latest_version sv a v" and "la_tag_name a = pp_tag_prefix TRAITS_PACKAGE @ sv_show sv u"
    and "sv_parse sv (sv_show sv u) = Inr u"
  shows "u = v"
proof -
  from assms(1,2) have "sv_show sv u = sv_show sv v" by (simp add: latest_version_def)
  with assms show ?thesis by (simp add: latest_version_def)
qed

lemma read_latest_Inr:
  assumes "read_latest sv de gh w = (Inr (Some latest), w')"
  shows "\<exists>v. latest_version sv latest v"
  using assms
  by (auto simp: read_latest_def res_simps latest_version_def split: option.splits prod.splits)

lemma guard_capture_Inr:
  assumes "guard_capture sv de gh l tag w = (Inr g, w')"
  shows "read_latest sv de gh w = (Inr (gu_before g), w')" and "gu_target g = tag"
    and "\<exists>v. tag = pp_tag_prefix TRAITS_PACKAGE @ sv_show sv v \<and> sv_parse sv (sv_show sv v) = Inr v \<and>
      (gu_advance g \<longleftrightarrow> make_latest l v \<and>
        (\<forall>b u. gu_before g = Some b \<longrightarrow> latest_version sv b u \<longrightarrow> sv_lt sv u v))"
proof -
  obtain v n before advance where
    g: "release_order sv tag = Inr (v, n)" "read_latest sv de gh w = (Inr before, w')"
      "guard_advance sv l (v, n) before = Inr advance"
      "g = \<lparr>gu_before = before, gu_target = tag, gu_advance = advance\<rparr>"
    using assms by (auto simp: guard_capture_def bindE_Inr liftE_Inr okE_Inr fail_ifE_Inr
        split: prod.splits)
  then show "read_latest sv de gh w = (Inr (gu_before g), w')" "gu_target g = tag" by simp_all
  from g(1) have v: "n = 0" "tag = pp_tag_prefix TRAITS_PACKAGE @ sv_show sv v"
    "sv_parse sv (sv_show sv v) = Inr v" by (simp_all add: res_simps)
  have "advance \<longleftrightarrow> make_latest l v \<and>
      (\<forall>b u. before = Some b \<longrightarrow> latest_version sv b u \<longrightarrow> sv_lt sv u v)"
  proof (cases before)
    case None
    with g(3) show ?thesis by (auto simp: guard_advance_def split: if_splits)
  next
    case (Some b)
    with g(2) obtain u where u: "latest_version sv b u" by (metis read_latest_Inr)
    then have ord: "release_order sv (la_tag_name b) = Inr (u, 0)"
      by (simp add: latest_version_def res_simps)
    have "advance \<longleftrightarrow> make_latest l v \<and> sv_lt sv u v"
      using g(3) Some ord v(1) by (auto simp: guard_advance_def order_less_def split: if_splits)
    with u Some latest_version_unique [of sv b u] show ?thesis by blast
  qed
  with v g(4) show "\<exists>v. tag = pp_tag_prefix TRAITS_PACKAGE @ sv_show sv v \<and>
      sv_parse sv (sv_show sv v) = Inr v \<and> (gu_advance g \<longleftrightarrow> make_latest l v \<and>
        (\<forall>b u. gu_before g = Some b \<longrightarrow> latest_version sv b u \<longrightarrow> sv_lt sv u v))"
    by auto
qed

lemma guard_verify_Inr:
  assumes "guard_verify sv de gh g w = (Inr (), w')"
  shows "\<exists>after. read_latest sv de gh w = (Inr after, w') \<and>
    (if gu_advance g then (\<exists>a. after = Some a \<and> la_tag_name a = gu_target g)
     else after = gu_before g)"
  using assms by (auto simp: guard_verify_def Let_def res_simps split: if_splits option.splits)

text \<open>
  C6: the Latest mark never moves backwards. When a guard captured before a Release is verified after
  it, the mark read back is the one read before, or it is the new Release, which then is a stable
  release of the main line and newer than whatever held the mark before. A support line or a
  prerelease never takes it.
\<close>

theorem latest_never_regresses:
  assumes "guard_capture sv de gh l tag w1 = (Inr g, w1')"
    and "guard_verify sv de gh g w2 = (Inr (), w2')"
  shows "\<exists>before after. read_latest sv de gh w1 = (Inr before, w1') \<and>
    read_latest sv de gh w2 = (Inr after, w2') \<and>
    (after = before \<or>
     (\<exists>a v. after = Some a \<and> latest_version sv a v \<and> la_tag_name a = tag \<and> l = Main \<and>
       (\<forall>b u. before = Some b \<longrightarrow> latest_version sv b u \<longrightarrow> sv_lt sv u v)))"
proof -
  note c = guard_capture_Inr [OF assms(1)]
  from guard_verify_Inr [OF assms(2)] obtain after where
    after: "read_latest sv de gh w2 = (Inr after, w2')"
      "if gu_advance g then (\<exists>a. after = Some a \<and> la_tag_name a = tag) else after = gu_before g"
    using c(2) by auto
  show ?thesis
  proof (cases "gu_advance g")
    case False
    with after c(1) show ?thesis by auto
  next
    case True
    with after(2) obtain a where a: "after = Some a" "la_tag_name a = tag" by auto
    with after(1) obtain v where v: "latest_version sv a v" by (metis read_latest_Inr)
    from c(3) True obtain u where u: "tag = pp_tag_prefix TRAITS_PACKAGE @ sv_show sv u"
        "sv_parse sv (sv_show sv u) = Inr u" "make_latest l u"
        "\<forall>b x. gu_before g = Some b \<longrightarrow> latest_version sv b x \<longrightarrow> sv_lt sv x u"
      by blast
    from a(2) u(1) have "la_tag_name a = pp_tag_prefix TRAITS_PACKAGE @ sv_show sv u" by simp
    from latest_version_tag [OF v this u(2)] have "u = v" .
    with u(3,4) have "l = Main" "\<forall>b x. gu_before g = Some b \<longrightarrow> latest_version sv b x \<longrightarrow> sv_lt sv x v"
      by (simp_all add: make_latest_def)
    with a v c(1) after(1) show ?thesis by blast
  qed
qed

end
