(* ===== verification/ReleaseEvidence.thy ===== *)
theory ReleaseEvidence
  imports Provenance LatestGuard
begin

text \<open>
  The evidence checks of \<open>xtask/src/github.rs\<close>: what the release pull request, its commits, their
  signature, the original workflow run, the annotated tag and the Release must look like, the section
  of the changelog that becomes the Release's body, and the live refs of protected main.
\<close>

section \<open>The release\<close>

record ReleaseSpec =
  sp_binding :: "Binding option"
  sp_line :: release_line
  sp_version :: version
  sp_tag :: string
  sp_body :: string
  sp_source :: string
  sp_tagger_date :: string

definition tag_message :: "semver \<Rightarrow> ReleaseSpec \<Rightarrow> string" where
  "tag_message sv spec =
     ''Release '' @ pp_package TRAITS_PACKAGE @ '' '' @ sv_show sv (sp_version spec)"

section \<open>The original run\<close>

definition original_run_matches :: "Workflow \<Rightarrow> WorkflowRun \<Rightarrow> string \<Rightarrow> u64 \<Rightarrow> u64 \<Rightarrow> bool" where
  "original_run_matches workflow run source run_id attempt \<longleftrightarrow>
     wr_id run = run_id \<and> wr_run_attempt run = attempt \<and> wr_workflow_id run = wf_id workflow \<and>
     wr_path run = RELEASE_WORKFLOW_PATH \<and> wr_event run = ''push'' \<and> wr_status run = ''completed'' \<and>
     wr_conclusion run \<in> {Some ''success'', Some ''failure'', Some ''cancelled'', Some ''timed_out'',
       Some ''action_required''} \<and>
     wr_head_branch run = Some ''main'' \<and> wr_head_sha run = source \<and>
     rp_full_name (wr_repository run) = REPOSITORY"

definition validate_original_run_payload ::
  "Workflow \<Rightarrow> WorkflowRun \<Rightarrow> WorkflowRun \<Rightarrow> ArtifactInventory \<Rightarrow> string \<Rightarrow> u64 \<Rightarrow> u64 \<Rightarrow> unit result" where
  "validate_original_run_payload workflow run current_run artifacts source run_id attempt =
     bindR (fail_if
       (wf_id workflow \<noteq> RELEASE_WORKFLOW_ID \<or> wf_path workflow \<noteq> RELEASE_WORKFLOW_PATH \<or>
        wf_state workflow \<noteq> ''active'')
       ''replacement publication workflow identity differs'') (\<lambda>_.
     bindR (fail_if
       (\<not> original_run_matches workflow run source run_id attempt \<or>
        \<not> original_run_matches workflow current_run source run_id attempt \<or>
        wr_status run \<noteq> wr_status current_run \<or> wr_conclusion run \<noteq> wr_conclusion current_run)
       ''original publication run does not bind the recovery source'') (\<lambda>_.
     fail_if (ai_total_count artifacts \<noteq> 0 \<or> ai_artifacts artifacts \<noteq> [])
       ''original publication run retained an artifact''))"

definition run_path :: "u64 \<Rightarrow> string" where
  "run_path run_id = ''repos/'' @ REPOSITORY @ ''/actions/runs/'' @ show_u64 run_id"

definition validate_original_run ::
  "'j serde \<Rightarrow> ('w, 'j) transport \<Rightarrow> string \<Rightarrow> u64 \<Rightarrow> u64 \<Rightarrow> ('w, unit) io" where
  "validate_original_run de gh source run_id attempt =
     bindE (get gh (de_workflow de)
       (''repos/'' @ REPOSITORY @ ''/actions/workflows/'' @ show_u64 RELEASE_WORKFLOW_ID)) (\<lambda>workflow.
     bindE (get gh (de_run de) (run_path run_id @ ''/attempts/'' @ show_u64 attempt)) (\<lambda>run.
     bindE (get gh (de_run de) (run_path run_id)) (\<lambda>current_run.
     bindE (get gh (de_artifacts de) (run_path run_id @ ''/artifacts?per_page=1'')) (\<lambda>artifacts.
     liftE (validate_original_run_payload workflow run current_run artifacts source run_id attempt)))))"

section \<open>The pull request and its head\<close>

definition merged_release_pull :: "release_line \<Rightarrow> PullRequest \<Rightarrow> bool" where
  "merged_release_pull l pull \<longleftrightarrow>
     0 < pr_number pull \<and> pr_state pull = ''closed'' \<and> pr_merged_at pull \<noteq> None \<and>
     ''refs/heads/'' @ ps_reference (pr_base pull) = base_ref l \<and>
     rp_full_name (ps_repo (pr_base pull)) = REPOSITORY"

definition select_merged_pull_request ::
  "PullRequest list \<Rightarrow> release_line \<Rightarrow> PullRequest option result" where
  "select_merged_pull_request pulls l =
     bindR (fail_if (100 \<le> length pulls)
       ''commit association inventory is incomplete or oversized'') (\<lambda>_.
     let matches = filter (merged_release_pull l) pulls
     in bindR (fail_if (1 < length matches)
       ''release source has ambiguous pull request associations'') (\<lambda>_.
     Inr (case matches of [] \<Rightarrow> None | pull # _ \<Rightarrow> Some pull)))"

definition validate_commit :: "Commit \<Rightarrow> string \<Rightarrow> bool \<Rightarrow> unit result" where
  "validate_commit commit expected_sha require_release_paths =
     bindR (fail_if
       (co_sha commit \<noteq> expected_sha \<or> length (co_parents commit) \<noteq> 1 \<or>
        \<not> is_sha (go_sha (cb_tree (co_commit commit))) \<or>
        \<not> vf_verified (cb_verification (co_commit commit)) \<or>
        vf_reason (cb_verification (co_commit commit)) \<noteq> ''valid'' \<or>
        \<not> list_ex (\<lambda>line. line = DCO_TRAILER) (lines (cb_message (co_commit commit))))
       ''release commit signature, parent, or DCO binding differs'') (\<lambda>_.
     if require_release_paths then
       bindR (fail_if
         (length (co_files commit) \<noteq> length RELEASE_PATHS \<or>
          list_ex (\<lambda>f. cf_status f \<noteq> ''modified'' \<or> cf_previous_filename f \<noteq> None) (co_files commit))
         ''release commit file status differs from exact modifications'') (\<lambda>_.
       fail_if (set (map cf_filename (co_files commit)) \<noteq> set RELEASE_PATHS)
         ''release commit changed files outside the release transaction'')
     else Inr ())"

definition validate_release_head :: "Commit \<Rightarrow> Commit \<Rightarrow> PullRequest \<Rightarrow> unit result" where
  "validate_release_head source head pull =
     bindR (fail_if
       (rp_full_name (ps_repo (pr_head pull)) \<noteq> REPOSITORY \<or> co_sha head \<noteq> ps_sha (pr_head pull) \<or>
        length (co_parents source) \<noteq> 1 \<or> length (co_parents head) \<noteq> 1 \<or>
        go_sha (co_parents head ! 0) \<noteq> ps_sha (pr_base pull) \<or>
        go_sha (co_parents source ! 0) \<noteq> ps_sha (pr_base pull) \<or>
        go_sha (cb_tree (co_commit source)) \<noteq> go_sha (cb_tree (co_commit head)))
       ''release PR is not one current commit with the exact merged tree'') (\<lambda>_.
     validate_commit head (ps_sha (pr_head pull)) True)"

definition signature_request :: "u64 \<Rightarrow> json" where
  "signature_request pull_number =
     JObj [(''query'', JStr RELEASE_SIGNATURE_QUERY),
           (''variables'', JObj [(''owner'', JStr ''NVIDIA''), (''name'', JStr ''yaml-sigil-traits''),
              (''number'', JNum pull_number)])]"

definition select_signature :: "SignatureEnvelope \<Rightarrow> string \<Rightarrow> string \<Rightarrow> VerifiedSignature result" where
  "select_signature response expected_oid expected_merge_oid =
     bindR (fail_if (se_errors response \<noteq> None) ''release signature query returned errors'') (\<lambda>_.
     bindR (ok_or (sd_repository (se_data response)) ''release signature repository is missing'')
       (\<lambda>repository.
     bindR (ok_or (sr_pull_request repository) ''release signature pull request is missing'') (\<lambda>pull.
     bindR (fail_if (map_option sm_oid (sp_merge_commit pull) \<noteq> Some expected_merge_oid)
       ''release pull request merge commit differs'') (\<lambda>_.
     let commits = sp_commits pull
     in bindR (fail_if
       (sx_total_count commits \<noteq> 1 \<or> length (sx_nodes commits) \<noteq> 1 \<or>
        si_has_next_page (sx_page_info commits) \<or>
        sc_oid (sn_commit (sx_nodes commits ! 0)) \<noteq> expected_oid)
       ''release signature inventory is incomplete or changed'') (\<lambda>_.
     ok_or (sc_signature (sn_commit (sx_nodes commits ! 0)))
       ''release pull request head signer is missing'')))))"

definition read_release_head_signature ::
  "'j serde \<Rightarrow> ('w, 'j) transport \<Rightarrow> u64 \<Rightarrow> string \<Rightarrow> string \<Rightarrow> ('w, VerifiedSignature) io" where
  "read_release_head_signature de gh pull_number expected_oid expected_merge_oid =
     bindE (fail_ifE (pull_number = 0) ''release pull request number is invalid'') (\<lambda>_.
     bindE (liftE (require_sha expected_oid ''release pull request head'')) (\<lambda>_.
     bindE (liftE (require_sha expected_merge_oid ''release merge commit'')) (\<lambda>_.
     bindE (graphql gh (de_signatures de) (signature_request pull_number)) (\<lambda>response.
     liftE (select_signature response expected_oid expected_merge_oid)))))"

definition expected_account :: "User option \<Rightarrow> string \<Rightarrow> unit result" where
  "expected_account val label =
     bindR (ok_or val (''release '' @ label @ '' account is missing'')) (\<lambda>account.
     fail_if
       (us_id account \<noteq> RELEASE_SIGNER_ID \<or> us_login account \<noteq> RELEASE_SIGNER_LOGIN \<or>
        us_kind account \<noteq> ''User'')
       (''release '' @ label @ '' does not match the verified signer''))"

definition validate_release_head_signature :: "Commit \<Rightarrow> VerifiedSignature \<Rightarrow> unit result" where
  "validate_release_head_signature commit signature =
     bindR (fail_if
       (vs_kind signature \<notin> {''GpgSignature'', ''SshSignature'', ''SmimeSignature''} \<or>
        \<not> vs_is_valid signature \<or> vs_state signature \<noteq> ''VALID'' \<or> vs_was_signed_by_github signature)
       ''release pull request head is not directly GitHub Verified'') (\<lambda>_.
     bindR (ok_or (vs_signer signature) ''release pull request head signer is missing'') (\<lambda>signer.
     bindR (fail_if
       (ss_database_id signer \<noteq> Some RELEASE_SIGNER_ID \<or> ss_login signer \<noteq> RELEASE_SIGNER_LOGIN \<or>
        ss_kind signer \<noteq> ''User'')
       ''release pull request head signer identity differs'') (\<lambda>_.
     bindR (expected_account (co_author commit) ''author'') (\<lambda>_.
     bindR (expected_account (co_committer commit) ''committer'') (\<lambda>_.
     bindR (ok_or (vs_email signature) ''release signature email is missing'') (\<lambda>signature_email.
     bindR (fail_if
       (gs_name (cb_author (co_commit commit)) \<noteq> RELEASE_AUTHOR_NAME \<or>
        gs_email (cb_author (co_commit commit)) \<noteq> RELEASE_AUTHOR_EMAIL \<or>
        gs_email (cb_author (co_commit commit)) \<noteq> signature_email \<or>
        gs_email (cb_committer (co_commit commit)) \<noteq> signature_email)
       ''release signature email or raw author identity differs'') (\<lambda>_.
     let author_dco = ''Signed-off-by: '' @ gs_name (cb_author (co_commit commit)) @ '' <'' @
           gs_email (cb_author (co_commit commit)) @ ''>''
     in fail_if
       (author_dco \<noteq> DCO_TRAILER \<or>
        \<not> list_ex (\<lambda>line. line = author_dco) (lines (cb_message (co_commit commit))))
       ''release commit lacks the exact raw-author DCO sign-off'')))))))"

section \<open>Tag and Release objects\<close>

definition validate_app_scope_payload :: "InstallationRepositories \<Rightarrow> unit result" where
  "validate_app_scope_payload installation =
     fail_if (ir_total_count installation \<noteq> 1 \<or>
         map rp_full_name (ir_repositories installation) \<noteq> [REPOSITORY])
       ''finalizer token is not scoped to exactly this repository''"

definition validate_tag_object :: "semver \<Rightarrow> AnnotatedTag \<Rightarrow> ReleaseSpec \<Rightarrow> unit result" where
  "validate_tag_object sv tag spec =
     fail_if
       (\<not> is_sha (at_sha tag) \<or> at_tag tag \<noteq> sp_tag spec \<or> at_message tag \<noteq> tag_message sv spec \<or>
        go_kind (at_object tag) \<noteq> ''commit'' \<or> go_sha (at_object tag) \<noteq> sp_source spec \<or>
        gs_name (at_tagger tag) \<noteq> APP_LOGIN \<or> gs_email (at_tagger tag) \<noteq> APP_EMAIL \<or>
        gs_date (at_tagger tag) \<noteq> sp_tagger_date spec)
       ''annotated tag conflicts with deterministic release policy''"

definition validate_release :: "GitHubRelease \<Rightarrow> ReleaseSpec \<Rightarrow> unit result" where
  "validate_release release spec =
     (let expected_prerelease = (v_pre (sp_version spec) \<noteq> [])
      in fail_if
        (gh_id release = 0 \<or> gh_tag_name release \<noteq> sp_tag spec \<or>
         gh_target_commitish release \<noteq> sp_source spec \<or> gh_name release \<noteq> sp_tag spec \<or>
         gh_body release \<noteq> sp_body spec \<or> gh_draft release \<or>
         gh_prerelease release \<noteq> expected_prerelease \<or> \<not> gh_immutable release \<or>
         us_login (gh_author release) \<noteq> APP_LOGIN \<or> us_id (gh_author release) \<noteq> APP_ID \<or>
         us_kind (gh_author release) \<noteq> ''Bot'' \<or> gh_assets release \<noteq> [])
        ''GitHub Release is not exact, immutable, and zero-asset'')"

section \<open>The body of the Release\<close>

definition is_changelog_heading :: "string \<Rightarrow> string \<Rightarrow> bool" where
  "is_changelog_heading line heading \<longleftrightarrow>
     (case strip_prefix line heading of
        None \<Rightarrow> False
      | Some suffix \<Rightarrow> suffix = [] \<or> starts_with suffix ''('' \<or> starts_with suffix '' - '')"

text \<open>The loop over the lines, with \<open>inside\<close> and the lines gathered so far.\<close>

fun section_lines :: "string \<Rightarrow> bool \<Rightarrow> string list \<Rightarrow> string list \<Rightarrow> (bool \<times> string list) result" where
  "section_lines heading inside gathered [] = Inr (inside, gathered)"
| "section_lines heading inside gathered (line # rest) =
     (if is_changelog_heading line heading then
        if inside then Inl ''release changelog heading is duplicated''
        else section_lines heading True gathered rest
      else if inside \<and> starts_with line ''## '' then Inr (inside, gathered)
      else if inside then section_lines heading inside (gathered @ [line]) rest
      else section_lines heading inside gathered rest)"

definition changelog_section :: "string \<Rightarrow> string \<Rightarrow> string result" where
  "changelog_section changelog heading =
     bindR (section_lines heading False [] (lines changelog)) (\<lambda>(inside, gathered).
     bindR (fail_if (\<not> inside) ''release changelog heading is missing'') (\<lambda>_.
     let body = trim (join nl gathered)
     in bindR (fail_if (body = []) ''release changelog section is empty'') (\<lambda>_.
     Inr (body @ nl))))"

definition release_body :: "semver \<Rightarrow> 'w os \<Rightarrow> string \<Rightarrow> version \<Rightarrow> ('w, string) io" where
  "release_body sv os' root v =
     bindE (map_errE (\<lambda>e. ''read changelog: '' @ e)
       (os_read_manifest os' root (pp_changelog TRAITS_PACKAGE))) (\<lambda>changelog.
     liftE (changelog_section changelog (''## ['' @ sv_show sv v @ '']'')))"

section \<open>Live refs\<close>

definition require_live_policy_main :: "'j serde \<Rightarrow> ('w, 'j) transport \<Rightarrow> string \<Rightarrow> ('w, unit) io" where
  "require_live_policy_main de gh policy_sha =
     bindE (get gh (de_ref de) (refs_path ''ref/heads/main'')) (\<lambda>reference.
     fail_ifE
       (gr_name reference \<noteq> ''refs/heads/main'' \<or> go_kind (gr_object reference) \<noteq> ''commit'' \<or>
        go_sha (gr_object reference) \<noteq> policy_sha)
       ''protected main differs from the staged policy SHA'')"

definition require_ancestor_of_policy ::
  "'j serde \<Rightarrow> ('w, 'j) transport \<Rightarrow> string \<Rightarrow> string \<Rightarrow> ('w, unit) io" where
  "require_ancestor_of_policy de gh source policy_sha =
     bindE (get gh (de_comparison de) (compare_path source policy_sha @ ''?per_page=1&page=1''))
       (\<lambda>comparison.
     let status_is_exact =
       (if source = policy_sha then cm_status comparison = ''identical''
        else cm_status comparison = ''ahead'')
     in fail_ifE
       (\<not> status_is_exact \<or> go_sha (cm_base_commit comparison) \<noteq> source \<or>
        go_sha (cm_merge_base_commit comparison) \<noteq> source)
       ''release source is not on the protected current-main lineage'')"

end
