(* ===== verification/Finalize.thy ===== *)
theory Finalize
  imports ReleaseEvidence
begin

text \<open>
  The finalizer of \<open>xtask/src/github.rs\<close>: after the crate is published it reconciles the annotated
  tag and the immutable Release with what the source determines. Everything outside is a parameter:
  the transport \<open>gh\<close> with the decoders \<open>de\<close>, the registry \<open>reg\<close>, the machine \<open>os'\<close>, the library
  parsers \<open>t\<close> and the archive readers \<open>at\<close>.
\<close>

section \<open>Context\<close>

record Context =
  cx_line :: release_line
  cx_binding :: "Binding option"
  cx_source :: string
  cx_event :: string
  cx_sha :: string

definition context_rebind :: "'j serde \<Rightarrow> ('w, 'j) transport \<Rightarrow> Context \<Rightarrow> ('w, unit) io" where
  "context_rebind de gh cx =
     (case cx_binding cx of
        Some binding \<Rightarrow> binding_verify de gh binding
      | None \<Rightarrow>
          bindE (require_ancestor_of_policy de gh (cx_source cx) (cx_sha cx)) (\<lambda>_.
          require_live_policy_main de gh (cx_sha cx)))"

definition spec_rebind :: "'j serde \<Rightarrow> ('w, 'j) transport \<Rightarrow> ReleaseSpec \<Rightarrow> string \<Rightarrow> ('w, unit) io" where
  "spec_rebind de gh spec main =
     (case sp_binding spec of
        Some binding \<Rightarrow> binding_verify de gh binding
      | None \<Rightarrow>
          bindE (require_ancestor_of_policy de gh (sp_source spec) main) (\<lambda>_.
          require_live_policy_main de gh main))"

section \<open>Source and registry\<close>

definition validate_source_version ::
  "release_tools \<Rightarrow> 'w os \<Rightarrow> string \<Rightarrow> version \<Rightarrow> ('w, unit) io" where
  "validate_source_version t os' root v =
     bindE (liftE (validate_selected_release_version v)) (\<lambda>_.
     bindE (if v_build v = [] then
         bindE (manifest_version t os' root) (\<lambda>found. okE (found = v))
       else okE False) (\<lambda>exact.
     fail_ifE (\<not> exact) ''finalizer version differs from exact source''))"

definition verify_published_source ::
  "release_tools \<Rightarrow> archive_tools \<Rightarrow> 'w registry \<Rightarrow> Context \<Rightarrow> version \<Rightarrow> ('w, unit) io" where
  "verify_published_source t at reg cx v =
     bindE (require_archive at reg TRAITS_PACKAGE (rt_show t v) (cx_source cx)) (\<lambda>(_, archive, _).
     bindE (liftE (archive_vcs_commit at archive TRAITS_PACKAGE (rt_show t v))) (\<lambda>commit.
     fail_ifE (commit \<noteq> cx_source cx) ''published archive VCS source differs''))"

definition REGISTRY_ATTEMPTS :: nat where
  "REGISTRY_ATTEMPTS = 60"

text \<open>The loop \<open>for attempt in 1..=ATTEMPTS\<close>, over the attempts that remain.\<close>

primrec registry_attempts :: "'w os \<Rightarrow> 'w registry \<Rightarrow> string \<Rightarrow> nat list \<Rightarrow> ('w, unit) io" where
  "registry_attempts os' reg ver [] = failE ''bounded registry wait always returns''"
| "registry_attempts os' reg ver (attempt # rest) =
     bindE (rg_exact_version reg (pp_package TRAITS_PACKAGE) ver) (\<lambda>found.
     if found \<noteq> None then okE ()
     else if attempt = REGISTRY_ATTEMPTS then
       failE (''crates.io did not expose '' @ pp_package TRAITS_PACKAGE @ '' '' @ ver
         @ '' within ten minutes'')
     else bindE (modifyE (os_sleep os' 10)) (\<lambda>_. registry_attempts os' reg ver rest))"

definition wait_for_registry :: "'w os \<Rightarrow> 'w registry \<Rightarrow> string \<Rightarrow> ('w, unit) io" where
  "wait_for_registry os' reg ver = registry_attempts os' reg ver [1..<Suc REGISTRY_ATTEMPTS]"

definition await_publication ::
  "release_tools \<Rightarrow> archive_tools \<Rightarrow> 'w os \<Rightarrow> string \<Rightarrow> 'w registry \<Rightarrow> Context \<Rightarrow> version \<Rightarrow> ('w, unit) io" where
  "await_publication t at os' root reg cx v =
     bindE (validate_source_version t os' root v) (\<lambda>_.
     bindE (wait_for_registry os' reg (rt_show t v)) (\<lambda>_.
     verify_published_source t at reg cx v))"

definition verify_app_scope :: "'j serde \<Rightarrow> ('w, 'j) transport \<Rightarrow> string \<Rightarrow> ('w, unit) io" where
  "verify_app_scope de gh observed_slug =
     bindE (fail_ifE (observed_slug \<noteq> APP_SLUG) ''finalizer App slug differs from compiled policy'') (\<lambda>_.
     bindE (get gh (de_installation de) ''installation/repositories?per_page=100'') (\<lambda>installation.
     liftE (validate_app_scope_payload installation)))"

section \<open>The tag\<close>

definition tag_ref_path :: "ReleaseSpec \<Rightarrow> string" where
  "tag_ref_path spec = refs_path (''ref/tags/'' @ percent_encode (sp_tag spec))"

definition inspect_tag ::
  "semver \<Rightarrow> 'j serde \<Rightarrow> ('w, 'j) transport \<Rightarrow> ReleaseSpec \<Rightarrow> ('w, string option) io" where
  "inspect_tag sv de gh spec =
     bindE (get_optional gh (de_ref de) (tag_ref_path spec)) (\<lambda>found.
     case found of
       None \<Rightarrow> okE None
     | Some reference \<Rightarrow>
         bindE (fail_ifE
           (gr_name reference \<noteq> ''refs/tags/'' @ sp_tag spec \<or>
            go_kind (gr_object reference) \<noteq> ''tag'' \<or> \<not> is_sha (go_sha (gr_object reference)))
           ''release tag ref is not one annotated tag'') (\<lambda>_.
         bindE (get gh (de_tag de) (refs_path (''tags/'' @ go_sha (gr_object reference)))) (\<lambda>tag.
         bindE (liftE (validate_tag_object sv tag spec)) (\<lambda>_.
         bindE (fail_ifE (at_sha tag \<noteq> go_sha (gr_object reference))
           ''annotated tag object readback differs'') (\<lambda>_.
         okE (Some (go_sha (gr_object reference))))))))"

definition require_exact_tag_object ::
  "semver \<Rightarrow> 'j serde \<Rightarrow> ('w, 'j) transport \<Rightarrow> ReleaseSpec \<Rightarrow> string \<Rightarrow> ('w, unit) io" where
  "require_exact_tag_object sv de gh spec expected_object_sha =
     bindE (liftE (require_sha expected_object_sha ''annotated tag object'')) (\<lambda>_.
     bindE (inspect_tag sv de gh spec) (\<lambda>found.
     case found of
       Some observed \<Rightarrow>
         fail_ifE (observed \<noteq> expected_object_sha) ''annotated tag ref changed to another object''
     | None \<Rightarrow> failE ''the exact annotated tag is missing''))"

definition tag_payload :: "semver \<Rightarrow> ReleaseSpec \<Rightarrow> json" where
  "tag_payload sv spec =
     JObj [(''tag'', JStr (sp_tag spec)), (''message'', JStr (tag_message sv spec)),
           (''object'', JStr (sp_source spec)), (''type'', JStr ''commit''),
           (''tagger'', JObj [(''name'', JStr APP_LOGIN), (''email'', JStr APP_EMAIL),
              (''date'', JStr (sp_tagger_date spec))])]"

definition ref_payload :: "ReleaseSpec \<Rightarrow> string \<Rightarrow> json" where
  "ref_payload spec sha =
     JObj [(''ref'', JStr (''refs/tags/'' @ sp_tag spec)), (''sha'', JStr sha)]"

text \<open>
  The steps of \<open>reconcile_tag\<close> when no tag is retained: reading the ref back after it was posted,
  exposing the tag object under its ref, and creating the object.
\<close>

definition confirm_tag ::
  "semver \<Rightarrow> 'j serde \<Rightarrow> ('w, 'j) transport \<Rightarrow> ReleaseSpec \<Rightarrow> string \<Rightarrow> string + GitRef \<Rightarrow> ('w, string) io" where
  "confirm_tag sv de gh spec object_sha mutation =
     bindE (case mutation of
         Inl e \<Rightarrow>
           bindE (inspect_tag sv de gh spec) (\<lambda>retained.
           fail_ifE (retained \<noteq> Some object_sha) e)
       | Inr _ \<Rightarrow> okE ()) (\<lambda>_.
     bindE (inspect_tag sv de gh spec) (\<lambda>retained.
     bindE (fail_ifE (retained \<noteq> Some object_sha)
       ''GitHub did not retain the exact annotated tag'') (\<lambda>_.
     okE object_sha)))"

definition expose_tag ::
  "semver \<Rightarrow> 'j serde \<Rightarrow> ('w, 'j) transport \<Rightarrow> ReleaseSpec \<Rightarrow> string \<Rightarrow> AnnotatedTag \<Rightarrow> ('w, string) io" where
  "expose_tag sv de gh spec policy_sha tag =
     bindE (liftE (validate_tag_object sv tag spec)) (\<lambda>_.
     bindE (spec_rebind de gh spec policy_sha) (\<lambda>_.
     bindE (attemptE (mutate gh (de_ref de) ''POST'' (refs_path ''refs'')
       (ref_payload spec (at_sha tag)))) (\<lambda>mutation.
     confirm_tag sv de gh spec (at_sha tag) mutation)))"

definition reconcile_tag ::
  "semver \<Rightarrow> 'j serde \<Rightarrow> ('w, 'j) transport \<Rightarrow> ReleaseSpec \<Rightarrow> string \<Rightarrow> ('w, string) io" where
  "reconcile_tag sv de gh spec policy_sha =
     bindE (inspect_tag sv de gh spec) (\<lambda>found.
     case found of
       Some object_sha \<Rightarrow> okE object_sha
     | None \<Rightarrow>
         bindE (spec_rebind de gh spec policy_sha) (\<lambda>_.
         bindE (mutate gh (de_tag de) ''POST'' (refs_path ''tags'') (tag_payload sv spec)) (\<lambda>tag.
         expose_tag sv de gh spec policy_sha tag)))"

section \<open>The Release\<close>

definition release_tag_path :: "ReleaseSpec \<Rightarrow> string" where
  "release_tag_path spec =
     ''repos/'' @ REPOSITORY @ ''/releases/tags/'' @ percent_encode (sp_tag spec)"

definition inspect_release :: "'j serde \<Rightarrow> ('w, 'j) transport \<Rightarrow> ReleaseSpec \<Rightarrow> ('w, bool) io" where
  "inspect_release de gh spec =
     bindE (get_optional gh (de_release de) (release_tag_path spec)) (\<lambda>found.
     case found of
       None \<Rightarrow> okE False
     | Some release \<Rightarrow> bindE (liftE (validate_release release spec)) (\<lambda>_. okE True))"

definition release_payload :: "ReleaseSpec \<Rightarrow> Guard \<Rightarrow> json" where
  "release_payload spec latest =
     JObj [(''tag_name'', JStr (sp_tag spec)), (''target_commitish'', JStr (sp_source spec)),
           (''name'', JStr (sp_tag spec)), (''body'', JStr (sp_body spec)), (''draft'', JBool False),
           (''prerelease'', JBool (v_pre (sp_version spec) \<noteq> [])),
           (''generate_release_notes'', JBool False), (''make_latest'', JStr (request_value latest))]"

definition releases_path :: string where
  "releases_path = ''repos/'' @ REPOSITORY @ ''/releases''"

text \<open>The steps of \<open>reconcile_release\<close> when no Release exists: creating it, and reading it back.\<close>

definition confirm_release ::
  "semver \<Rightarrow> 'j serde \<Rightarrow> ('w, 'j) transport \<Rightarrow> ReleaseSpec \<Rightarrow> string \<Rightarrow> Guard \<Rightarrow> string + GitHubRelease \<Rightarrow>
   ('w, unit) io" where
  "confirm_release sv de gh spec tag_object_sha latest mutation =
     bindE (case mutation of
         Inr release \<Rightarrow> liftE (validate_release release spec)
       | Inl e \<Rightarrow>
           bindE (inspect_release de gh spec) (\<lambda>retained. fail_ifE (\<not> retained) e)) (\<lambda>_.
     bindE (inspect_release de gh spec) (\<lambda>retained.
     bindE (fail_ifE (\<not> retained) ''GitHub did not retain the immutable zero-asset Release'') (\<lambda>_.
     bindE (require_exact_tag_object sv de gh spec tag_object_sha) (\<lambda>_.
     guard_verify sv de gh latest))))"

definition create_release ::
  "semver \<Rightarrow> 'j serde \<Rightarrow> ('w, 'j) transport \<Rightarrow> ReleaseSpec \<Rightarrow> string \<Rightarrow> string \<Rightarrow> Guard \<Rightarrow> ('w, unit) io" where
  "create_release sv de gh spec tag_object_sha policy_sha latest =
     bindE (spec_rebind de gh spec policy_sha) (\<lambda>_.
     bindE (require_exact_tag_object sv de gh spec tag_object_sha) (\<lambda>_.
     bindE (require_unchanged sv de gh latest) (\<lambda>_.
     bindE (attemptE (mutate gh (de_release de) ''POST'' releases_path
       (release_payload spec latest))) (\<lambda>mutation.
     confirm_release sv de gh spec tag_object_sha latest mutation))))"

definition reconcile_release ::
  "semver \<Rightarrow> 'j serde \<Rightarrow> ('w, 'j) transport \<Rightarrow> ReleaseSpec \<Rightarrow> string \<Rightarrow> string \<Rightarrow> ('w, unit) io" where
  "reconcile_release sv de gh spec tag_object_sha policy_sha =
     bindE (guard_capture sv de gh (sp_line spec) (sp_tag spec)) (\<lambda>latest.
     bindE (inspect_release de gh spec) (\<lambda>present.
     if present then
       bindE (require_exact_tag_object sv de gh spec tag_object_sha) (\<lambda>_.
       guard_verify sv de gh latest)
     else create_release sv de gh spec tag_object_sha policy_sha latest))"

section \<open>The finalizer\<close>

definition release_spec :: "release_tools \<Rightarrow> Context \<Rightarrow> version \<Rightarrow> string \<Rightarrow> string \<Rightarrow> ReleaseSpec" where
  "release_spec t cx v body date =
     \<lparr>sp_binding = cx_binding cx, sp_line = cx_line cx, sp_version = v,
      sp_tag = policy_tag TRAITS_PACKAGE (rt_show t v), sp_body = body, sp_source = cx_source cx,
      sp_tagger_date = date\<rparr>"

definition commit_path :: "string \<Rightarrow> string" where
  "commit_path sha = ''repos/'' @ REPOSITORY @ ''/commits/'' @ sha"

definition finalize ::
  "release_tools \<Rightarrow> archive_tools \<Rightarrow> 'j serde \<Rightarrow> 'w os \<Rightarrow> string \<Rightarrow> ('w, 'j) transport \<Rightarrow> 'w registry \<Rightarrow>
   Context \<Rightarrow> version \<Rightarrow> string \<Rightarrow> ('w, unit) io" where
  "finalize t at de os' root gh reg cx v observed_slug =
     bindE (validate_source_version t os' root v) (\<lambda>_.
     bindE (context_rebind de gh cx) (\<lambda>_.
     bindE (verify_published_source t at reg cx v) (\<lambda>_.
     bindE (verify_app_scope de gh observed_slug) (\<lambda>_.
     bindE (get gh (de_commit de) (commit_path (cx_source cx))) (\<lambda>commit.
     bindE (liftE (validate_commit commit (cx_source cx) True)) (\<lambda>_.
     bindE (release_body (rt_semver t) os' root v) (\<lambda>body.
     let spec = release_spec t cx v body (gs_date (cb_committer (co_commit commit)))
     in bindE (context_rebind de gh cx) (\<lambda>_.
        bindE (reconcile_tag (rt_semver t) de gh spec (cx_sha cx)) (\<lambda>tag_object_sha.
        bindE (reconcile_release (rt_semver t) de gh spec tag_object_sha (cx_sha cx)) (\<lambda>_.
        modifyE (os_print os' (''github: finalized immutable zero-asset '' @ sp_tag spec @ '' at ''
          @ sp_source spec))))))))))))"

end
