(* ===== verification/Qualify.thy ===== *)
theory Qualify
  imports Finalize Support
begin

text \<open>
  The qualification and the command line of \<open>xtask/src/github.rs\<close>: which dispatches may publish or
  finalize which source, the environment and the checkouts a command starts from, and \<open>run\<close>, which
  composes the commands from their parts.
\<close>

section \<open>Qualification\<close>

datatype QualificationMode = Push | Release_mode | Validate | Recover_mode | Publish

record Qualification =
  ql_qualified :: bool
  ql_source :: string
  ql_version :: "string option"
  ql_registry_state :: string
  ql_validation_only :: bool

definition ordinary :: "string \<Rightarrow> Qualification" where
  "ordinary source =
     \<lparr>ql_qualified = False, ql_source = source, ql_version = None,
      ql_registry_state = ''not-applicable'', ql_validation_only = False\<rparr>"

definition validation :: "string \<Rightarrow> Qualification" where
  "validation source =
     \<lparr>ql_qualified = False, ql_source = source, ql_version = None,
      ql_registry_state = ''not-applicable'', ql_validation_only = True\<rparr>"

definition show_bool :: "bool \<Rightarrow> string" where
  "show_bool b = (if b then ''true'' else ''false'')"

definition output_fields :: "Qualification \<Rightarrow> string \<Rightarrow> string \<Rightarrow> (string \<times> string) list" where
  "output_fields q base operation =
     [(''base_ref'', base), (''operation'', operation), (''qualified'', show_bool (ql_qualified q)),
      (''source'', ql_source q),
      (''version'', case ql_version q of None \<Rightarrow> [] | Some v \<Rightarrow> v),
      (''registry_state'', ql_registry_state q),
      (''validation_only'', show_bool (ql_validation_only q))]"

definition write_field :: "'w os \<Rightarrow> string \<Rightarrow> string \<times> string \<Rightarrow> ('w, unit) io" where
  "write_field os' file field =
     (let (name, val) = field in
      bindE (fail_ifE (list_ex (\<lambda>c. c = char_cr \<or> c = char_lf) val)
        ''release output contains a line break'') (\<lambda>_.
      map_errE (\<lambda>e. ''write GITHUB_OUTPUT: '' @ e)
        (os_append_write os' file (name @ ''='' @ val @ nl))))"

definition write_outputs :: "'w os \<Rightarrow> Qualification \<Rightarrow> string \<Rightarrow> string \<Rightarrow> ('w, unit) io" where
  "write_outputs os' q base operation =
     bindE (readE (os_var_os os' ''GITHUB_OUTPUT'')) (\<lambda>env.
     bindE (liftE (ok_or env ''GITHUB_OUTPUT is required'')) (\<lambda>path.
     bindE (map_errE (\<lambda>e. ''open GITHUB_OUTPUT: '' @ e) (os_append_open os' path)) (\<lambda>file.
     forE (output_fields q base operation) (write_field os' file))))"

section \<open>The modes\<close>

text \<open>The \<open>match\<close> on the mode; \<open>Some\<close> is its early return.\<close>

definition qualify_recovery ::
  "'j serde \<Rightarrow> 'w os \<Rightarrow> ('w, 'j) transport \<Rightarrow> Context \<Rightarrow> u64 option \<Rightarrow> u64 option \<Rightarrow> ('w, unit) io" where
  "qualify_recovery de os' gh cx original_run_id original_run_attempt =
     bindE (fail_ifE (cx_event cx \<noteq> ''workflow_dispatch'')
       ''recovery requires workflow_dispatch'') (\<lambda>_.
     bindE (liftE (ok_or (Option.bind original_run_id (\<lambda>n. if 0 < n then Some n else None))
       ''recovery requires original_run_id'')) (\<lambda>run_id.
     bindE (liftE (ok_or (Option.bind original_run_attempt (\<lambda>n. if 0 < n then Some n else None))
       ''recovery requires original_run_attempt'')) (\<lambda>attempt.
     if cx_line cx = Main then
       bindE (validate_original_run de gh (cx_source cx) run_id attempt) (\<lambda>_.
       require_ancestor_of_policy de gh (cx_source cx) (cx_sha cx))
     else
       modifyE (os_print os' (''Support recovery audit context: run '' @ show_u64 run_id @ '', attempt ''
         @ show_u64 attempt @ ''; package/source evidence supplies the binding.'')))))"

fun qualify_mode ::
  "'j serde \<Rightarrow> 'w os \<Rightarrow> ('w, 'j) transport \<Rightarrow> Context \<Rightarrow> QualificationMode \<Rightarrow> u64 option \<Rightarrow> u64 option \<Rightarrow>
   ('w, Qualification option) io" where
  "qualify_mode de os' gh cx Validate run_id attempt =
     bindE (fail_ifE
       (cx_event cx \<noteq> ''workflow_dispatch'' \<or> (cx_line cx = Main \<and> cx_sha cx \<noteq> cx_source cx) \<or>
        run_id \<noteq> None \<or> attempt \<noteq> None)
       ''validation requires one unbound exact-source workflow dispatch'') (\<lambda>_.
     okE (Some (validation (cx_source cx))))"
| "qualify_mode de os' gh cx Release_mode run_id attempt =
     bindE (fail_ifE
       (cx_line cx = Main \<or> cx_event cx \<noteq> ''workflow_dispatch'' \<or> run_id \<noteq> None \<or> attempt \<noteq> None)
       ''release dispatch requires one fresh support source'') (\<lambda>_. okE None)"
| "qualify_mode de os' gh cx Push run_id attempt =
     bindE (fail_ifE
       (cx_event cx \<noteq> ''push'' \<or> cx_line cx \<noteq> Main \<or> cx_sha cx \<noteq> cx_source cx \<or>
        run_id \<noteq> None \<or> attempt \<noteq> None)
       ''fresh qualification requires the exact push source'') (\<lambda>_. okE None)"
| "qualify_mode de os' gh cx Recover_mode run_id attempt =
     bindE (qualify_recovery de os' gh cx run_id attempt) (\<lambda>_. okE None)"
| "qualify_mode de os' gh cx Publish run_id attempt =
     bindE (fail_ifE
       (cx_event cx \<noteq> (if cx_line cx = Main then ''push'' else ''workflow_dispatch'') \<or>
        run_id \<noteq> None \<or> attempt \<noteq> None)
       ''post-approval publication requalification is malformed'') (\<lambda>_.
     bindE (if cx_line cx = Main then require_live_policy_main de gh (cx_source cx) else okE ()) (\<lambda>_.
     okE None))"

section \<open>The release pull request\<close>

text \<open>The release pull request of the source; \<open>None\<close> is an ordinary push.\<close>

definition qualify_pull ::
  "'j serde \<Rightarrow> ('w, 'j) transport \<Rightarrow> Context \<Rightarrow> QualificationMode \<Rightarrow> ('w, PullRequest option) io" where
  "qualify_pull de gh cx mode =
     bindE (get gh (de_pulls de) (commit_path (cx_source cx) @ ''/pulls?per_page=100&page=1'')) (\<lambda>pulls.
     bindE (liftE (select_merged_pull_request pulls (cx_line cx))) (\<lambda>selected.
     case selected of
       None \<Rightarrow>
         if mode = Push then okE None
         else failE ''recovery source is not a canonical release PR merge''
     | Some release_pr \<Rightarrow>
         if \<not> starts_with (ps_reference (pr_head release_pr)) RELEASE_BRANCH_PREFIX then
           if mode = Push then okE None
           else failE ''recovery source did not use a manual release branch''
         else okE (Some release_pr)))"

definition qualify_version ::
  "release_tools \<Rightarrow> 'w os \<Rightarrow> string \<Rightarrow> PullRequest \<Rightarrow> ('w, version) io" where
  "qualify_version t os' root pull =
     (let branch_version = drop (length RELEASE_BRANCH_PREFIX) (ps_reference (pr_head pull)) in
      bindE (liftE (map_err (\<lambda>e. ''release branch version is invalid: '' @ e)
        (sv_parse (rt_semver t) branch_version))) (\<lambda>v.
      bindE (liftE (validate_selected_release_version v)) (\<lambda>_.
      bindE (if v_build v \<noteq> [] then okE True
        else bindE (manifest_version t os' root) (\<lambda>found. okE (found \<noteq> v))) (\<lambda>differ.
      bindE (fail_ifE differ ''release branch and manifest versions differ'') (\<lambda>_.
      okE v)))))"

text \<open>The merged commit, the pull request's head and its signature; returns the merged commit.\<close>

definition qualify_commits ::
  "'j serde \<Rightarrow> ('w, 'j) transport \<Rightarrow> Context \<Rightarrow> PullRequest \<Rightarrow> ('w, Commit) io" where
  "qualify_commits de gh cx pull =
     bindE (get gh (de_commit de) (commit_path (cx_source cx))) (\<lambda>source_commit.
     bindE (liftE (validate_commit source_commit (cx_source cx) True)) (\<lambda>_.
     bindE (get gh (de_commit de) (commit_path (ps_sha (pr_head pull)))) (\<lambda>head_commit.
     bindE (liftE (validate_release_head source_commit head_commit pull)) (\<lambda>_.
     bindE (read_release_head_signature de gh (pr_number pull) (ps_sha (pr_head pull)) (cx_source cx))
       (\<lambda>head_signature.
     bindE (liftE (validate_release_head_signature head_commit head_signature)) (\<lambda>_.
     okE source_commit))))))"

definition qualify_registry ::
  "release_tools \<Rightarrow> archive_tools \<Rightarrow> 'w registry \<Rightarrow> Context \<Rightarrow> version \<Rightarrow> ('w, string) io" where
  "qualify_registry t at reg cx v =
     bindE (rg_exact_version reg (pp_package TRAITS_PACKAGE) (rt_show t v)) (\<lambda>found.
     case found of
       None \<Rightarrow> okE ''absent''
     | Some record \<Rightarrow>
         bindE (fail_ifE
           (rv_num record \<noteq> rt_show t v \<or> rv_yanked record \<or> \<not> is_checksum (rv_checksum record))
           ''crates.io returned a conflicting release record'') (\<lambda>_.
         bindE (require_archive at reg TRAITS_PACKAGE (rt_show t v) (cx_source cx)) (\<lambda>_.
         okE ''published'')))"

definition qualify_state :: "QualificationMode \<Rightarrow> string \<Rightarrow> unit result" where
  "qualify_state mode registry_state =
     bindR (fail_if (mode = Recover_mode \<and> registry_state = ''absent'')
       ''zero-package recovery is forbidden; start a fresh release from the current tip'') (\<lambda>_.
     fail_if (mode = Release_mode \<and> registry_state \<noteq> ''absent'')
       ''support version is already published; use recovery for incomplete finalization'')"

definition qualify_forge ::
  "semver \<Rightarrow> 'j serde \<Rightarrow> ('w, 'j) transport \<Rightarrow> ReleaseSpec \<Rightarrow> string \<Rightarrow> ('w, unit) io" where
  "qualify_forge sv de gh spec registry_state =
     bindE (inspect_tag sv de gh spec) (\<lambda>tag.
     bindE (inspect_release de gh spec) (\<lambda>release.
     bindE (fail_ifE ((tag \<noteq> None \<or> release) \<and> registry_state = ''absent'')
       ''forge objects coexist with absent crate publication'') (\<lambda>_.
     fail_ifE (release \<and> tag = None) ''immutable Release has no retained annotated tag'')))"

definition verify_binding :: "'j serde \<Rightarrow> ('w, 'j) transport \<Rightarrow> Context \<Rightarrow> ('w, unit) io" where
  "verify_binding de gh cx =
     (case cx_binding cx of None \<Rightarrow> okE () | Some binding \<Rightarrow> binding_verify de gh binding)"

definition qualify_release ::
  "release_tools \<Rightarrow> archive_tools \<Rightarrow> 'j serde \<Rightarrow> 'w os \<Rightarrow> string \<Rightarrow> ('w, 'j) transport \<Rightarrow> 'w registry \<Rightarrow>
   Context \<Rightarrow> QualificationMode \<Rightarrow> PullRequest \<Rightarrow> ('w, Qualification) io" where
  "qualify_release t at de os' root gh reg cx mode release_pr =
     bindE (qualify_version t os' root release_pr) (\<lambda>v.
     bindE (qualify_commits de gh cx release_pr) (\<lambda>source_commit.
     bindE (if mode \<in> {Release_mode, Publish}
         then require_fresh_progression (rt_semver t) de gh (cx_line cx) v else okE ()) (\<lambda>_.
     bindE (qualify_registry t at reg cx v) (\<lambda>registry_state.
     bindE (liftE (qualify_state mode registry_state)) (\<lambda>_.
     bindE (release_body (rt_semver t) os' root v) (\<lambda>body.
     let spec = release_spec t cx v body (gs_date (cb_committer (co_commit source_commit)))
     in bindE (qualify_forge (rt_semver t) de gh spec registry_state) (\<lambda>_.
        bindE (verify_binding de gh cx) (\<lambda>_.
        bindE (fail_ifE (mode = Publish \<and> registry_state \<noteq> ''absent'')
          ''release appeared on crates.io during environment approval'') (\<lambda>_.
        okE \<lparr>ql_qualified = True, ql_source = cx_source cx, ql_version = Some (rt_show t v),
             ql_registry_state = registry_state, ql_validation_only = False\<rparr>)))))))))"

definition qualify ::
  "release_tools \<Rightarrow> archive_tools \<Rightarrow> 'j serde \<Rightarrow> 'w os \<Rightarrow> string \<Rightarrow> ('w, 'j) transport \<Rightarrow> 'w registry \<Rightarrow>
   Context \<Rightarrow> QualificationMode \<Rightarrow> u64 option \<Rightarrow> u64 option \<Rightarrow> ('w, Qualification) io" where
  "qualify t at de os' root gh reg cx mode original_run_id original_run_attempt =
     bindE (check_manifest t os' root) (\<lambda>_.
     bindE (require_live_policy_main de gh (cx_sha cx)) (\<lambda>_.
     bindE (manifest_version t os' root) (\<lambda>v.
     bindE (liftE (require_version (rt_semver t) (cx_line cx) v)) (\<lambda>_.
     bindE (verify_binding de gh cx) (\<lambda>_.
     bindE (qualify_mode de os' gh cx mode original_run_id original_run_attempt) (\<lambda>early.
     case early of
       Some q \<Rightarrow> okE q
     | None \<Rightarrow>
         bindE (qualify_pull de gh cx mode) (\<lambda>pull.
         case pull of
           None \<Rightarrow> okE (ordinary (cx_source cx))
         | Some release_pr \<Rightarrow> qualify_release t at de os' root gh reg cx mode release_pr)))))))"

end
