(* ===== verification/GithubRun.thy ===== *)
theory GithubRun
  imports Qualify
begin

text \<open>
  The \<open>github\<close> command of \<open>xtask\<close>: the environment a release command accepts, the two separate exact
  checkouts, and \<open>run\<close> of \<open>xtask/src/github.rs\<close>. The registry client of one command is fresh, and the
  transport and the machine work beside its state.
\<close>

section \<open>Environment and checkouts\<close>

definition context_from_env :: "'w os \<Rightarrow> string \<Rightarrow> string \<Rightarrow> ('w, Context) io" where
  "context_from_env os' root source =
     bindE (liftE (require_sha source ''release source'')) (\<lambda>_.
     bindE (readE (\<lambda>w. os_var os' ''GITHUB_ACTIONS'' w \<noteq> Some ''true'' \<or>
         os_var os' ''GITHUB_REF'' w \<noteq> Some ''refs/heads/main'')) (\<lambda>outside.
     bindE (fail_ifE outside ''GitHub release commands run only in GitHub Actions'') (\<lambda>_.
     bindE (readE (os_var os' ''GITHUB_REPOSITORY'')) (\<lambda>repository.
     bindE (fail_ifE (repository \<noteq> Some REPOSITORY)
       ''GITHUB_REPOSITORY does not match compiled policy'') (\<lambda>_.
     bindE (readE (os_var os' ''GITHUB_EVENT_NAME'')) (\<lambda>event_name.
     bindE (liftE (ok_or event_name ''GITHUB_EVENT_NAME is required'')) (\<lambda>event.
     bindE (readE (os_var os' ''GITHUB_SHA'')) (\<lambda>workflow_sha.
     bindE (liftE (ok_or workflow_sha ''GITHUB_SHA is required'')) (\<lambda>sha.
     bindE (liftE (require_sha sha ''workflow SHA'')) (\<lambda>_.
     bindE (require_clean_source os' root source) (\<lambda>_.
     okE \<lparr>cx_line = Main, cx_binding = None, cx_source = source, cx_event = event, cx_sha = sha\<rparr>)))))))))))"

definition require_api_token :: "'w os \<Rightarrow> ('w, unit) io" where
  "require_api_token os' =
     bindE (readE (os_var_os os' ''GH_TOKEN'')) (\<lambda>token.
     fail_ifE (token = None \<or> token = Some [])
       ''GH_TOKEN is required and must be supplied through the environment'')"

definition exact_checkout :: "'w os \<Rightarrow> string \<Rightarrow> string \<Rightarrow> ('w, string) io" where
  "exact_checkout os' root sha =
     bindE (liftE (require_sha sha ''checkout commit'')) (\<lambda>_.
     bindE (require_clean_source os' root sha) (\<lambda>_.
     bindE (map_errE (\<lambda>e. ''canonicalize checkout: '' @ e) (os_canonicalize os' root)) (\<lambda>physical.
     bindE (map_errE (\<lambda>e. ''read checkout root: '' @ ie_text e)
       (os_output os' (cmd_args [''rev-parse'', ''--show-toplevel'']
          (current_dir root (command_new ''git''))) None VALIDATION_OUTPUT_LIMITS)) (\<lambda>out.
     bindE (fail_ifE (\<not> out_success out) ''checkout is not a Git worktree'') (\<lambda>_.
     bindE (liftE (map_err (\<lambda>e. ''decode checkout root: '' @ e) (from_utf8 (out_stdout out)))) (\<lambda>shown.
     bindE (map_errE (\<lambda>e. ''canonicalize Git root: '' @ e) (os_canonicalize os' (trim shown))) (\<lambda>top.
     bindE (fail_ifE (physical \<noteq> top)
       ''release checkout path is not its Git worktree root'') (\<lambda>_.
     okE physical))))))))"

definition require_separate_checkouts ::
  "'w os \<Rightarrow> string \<Rightarrow> string \<Rightarrow> string \<Rightarrow> string \<Rightarrow> ('w, unit) io" where
  "require_separate_checkouts os' policy_root source_root policy_sha source_sha =
     bindE (exact_checkout os' policy_root policy_sha) (\<lambda>policy.
     bindE (exact_checkout os' source_root source_sha) (\<lambda>source.
     fail_ifE (policy = source \<or> path_starts_with policy source \<or> path_starts_with source policy)
       ''release policy and source require separate, non-nested checkouts''))"

section \<open>Beside the registry client\<close>

definition beside_transport :: "('w, 'j) transport \<Rightarrow> ('w \<times> crates_io, 'j) transport" where
  "beside_transport gh =
     \<lparr>t_get = (\<lambda>path. beside (t_get gh path)),
      t_get_optional = (\<lambda>path. beside (t_get_optional gh path)),
      t_graphql = (\<lambda>payload. beside (t_graphql gh payload)),
      t_mutate = (\<lambda>verb path payload. beside (t_mutate gh verb path payload)),
      t_invalid = t_invalid gh\<rparr>"

section \<open>The command\<close>

datatype FinalizationPhase = Await | Reconcile

record QualifyArgs =
  qa_version :: "version option"
  qa_base_ref :: string
  qa_source_root :: string
  qa_mode :: QualificationMode
  qa_source :: string
  qa_original_run_id :: "u64 option"
  qa_original_run_attempt :: "u64 option"

record FinalizeArgs =
  fa_operation :: operation
  fa_base_ref :: string
  fa_source_root :: string
  fa_source :: string
  fa_version :: version
  fa_phase :: FinalizationPhase

datatype GithubReleaseCommand =
    RebindPolicy RebindArgs
  | StartSupport version "string option"
  | QualifyCommand QualifyArgs
  | FinalizeCommand FinalizeArgs

text \<open>The context of a command: the environment's, with the line and the loaded binding.\<close>

definition bound_context ::
  "json_tools \<Rightarrow> 'w os \<Rightarrow> Context \<Rightarrow> string \<Rightarrow> release_line \<Rightarrow> operation \<Rightarrow> ('w, Context) io" where
  "bound_context js os' cx source_root l op =
     bindE (binding_load js os' source_root (cx_sha cx) (cx_source cx) l op) (\<lambda>binding.
     okE (cx\<lparr>cx_line := l, cx_binding := Some binding\<rparr>))"

definition run_qualify ::
  "release_tools \<Rightarrow> archive_tools \<Rightarrow> json_tools \<Rightarrow> bytes serde \<Rightarrow> 'w os \<Rightarrow> string \<Rightarrow> QualifyArgs \<Rightarrow>
   ('w, unit) io" where
  "run_qualify t at js de os' root args =
     bindE (liftE (from_base_ref (qa_base_ref args))) (\<lambda>l.
     bindE (context_from_env os' (qa_source_root args) (qa_source args)) (\<lambda>env.
     bindE (bound_context js os' env (qa_source_root args) l
       (if qa_mode args = Recover_mode then Recover else Fresh)) (\<lambda>cx.
     bindE (require_separate_checkouts os' root (qa_source_root args) (cx_sha cx) (qa_source args)) (\<lambda>_.
     bindE (check_manifest t os' root) (\<lambda>_.
     bindE (case qa_version args of
         None \<Rightarrow> okE False
       | Some expected \<Rightarrow>
           bindE (attemptE (manifest_version t os' (qa_source_root args))) (\<lambda>found.
           okE (found \<noteq> Inr expected))) (\<lambda>changed.
     bindE (fail_ifE changed
       ''qualified source version changed across the authority boundary'') (\<lambda>_.
     bindE (require_api_token os') (\<lambda>_.
     bindE (gh_new os') (\<lambda>_.
     bindE (with_crates_io (qualify t at de (beside_os os') (qa_source_root args)
       (beside_transport (gh_transport os' (js_to_vec js))) (crates_io_registry os' (js_registry js))
       cx (qa_mode args) (qa_original_run_id args) (qa_original_run_attempt args))) (\<lambda>result.
     write_outputs os' result (qa_base_ref args)
       (if qa_mode args = Recover_mode then ''recover'' else ''fresh'')))))))))))"

definition rebind_args :: "FinalizeArgs \<Rightarrow> RebindArgs" where
  "rebind_args args =
     \<lparr>ra_repository = None, ra_base_ref = fa_base_ref args, ra_operation = fa_operation args,
      ra_source_root = fa_source_root args, ra_source_sha = fa_source args, ra_version = fa_version args\<rparr>"

definition run_finalize ::
  "release_tools \<Rightarrow> archive_tools \<Rightarrow> json_tools \<Rightarrow> bytes serde \<Rightarrow> 'w os \<Rightarrow> string \<Rightarrow> FinalizeArgs \<Rightarrow>
   ('w, unit) io" where
  "run_finalize t at js de os' root args =
     bindE (liftE (from_base_ref (fa_base_ref args))) (\<lambda>l.
     bindE (context_from_env os' (fa_source_root args) (fa_source args)) (\<lambda>env.
     bindE (liftE (require_version (rt_semver t) l (fa_version args))) (\<lambda>_.
     bindE (bound_context js os' env (fa_source_root args) l (fa_operation args)) (\<lambda>cx.
     bindE (require_separate_checkouts os' root (fa_source_root args) (cx_sha cx) (fa_source args)) (\<lambda>_.
     bindE (check_manifest t os' root) (\<lambda>_.
     case fa_phase args of
       Await \<Rightarrow>
         bindE (rebind t js os' root (rebind_args args)) (\<lambda>_.
         with_crates_io (await_publication t at (beside_os os') (fa_source_root args)
           (crates_io_registry os' (js_registry js)) cx (fa_version args)))
     | Reconcile \<Rightarrow>
         bindE (require_api_token os') (\<lambda>_.
         bindE (readE (os_var os' ''APP_SLUG'')) (\<lambda>slug.
         bindE (liftE (ok_or slug ''APP_SLUG is required for finalization'')) (\<lambda>observed_slug.
         bindE (gh_new os') (\<lambda>_.
         with_crates_io (finalize t at de (beside_os os') (fa_source_root args)
           (beside_transport (gh_transport os' (js_to_vec js)))
           (crates_io_registry os' (js_registry js)) cx (fa_version args) observed_slug)))))))))))"

fun github_run ::
  "release_tools \<Rightarrow> archive_tools \<Rightarrow> json_tools \<Rightarrow> bytes serde \<Rightarrow> 'w os \<Rightarrow> string \<Rightarrow>
   GithubReleaseCommand \<Rightarrow> ('w, unit) io" where
  "github_run t at js de os' root (RebindPolicy args) = rebind t js os' root args"
| "github_run t at js de os' root (StartSupport v repository) = start t at js de os' root v repository"
| "github_run t at js de os' root (QualifyCommand args) = run_qualify t at js de os' root args"
| "github_run t at js de os' root (FinalizeCommand args) = run_finalize t at js de os' root args"

end
