(* ===== verification/Checks.thy ===== *)
theory Checks
  imports Release "HOL-Library.Sublist"
begin

text \<open>
  The maintenance commands of \<open>xtask\<close>: the registry of checks of \<open>ci.rs\<close>, the tool probes and argument
  vectors of \<open>process.rs\<close>, and the feature selection of \<open>features.rs\<close>.
  What they need of the system beyond \<open>os\<close> is the record \<open>shell\<close>.
\<close>

section \<open>Plans\<close>

text \<open>
  An effect \<open>follows\<close> a plan when what its subprocesses show under \<open>g\<close> is a prefix of the plan in every
  case, and all of it, with a result that satisfies \<open>Q\<close>, when the effect succeeds.
\<close>

definition shown :: "('c \<Rightarrow> 'p list) \<Rightarrow> 'c list \<Rightarrow> 'p list" where
  "shown g d = concat (map g d)"

definition plan_post ::
  "('c \<Rightarrow> 'p list) \<Rightarrow> 'p list \<Rightarrow> ('a \<Rightarrow> bool) \<Rightarrow> 'c list \<Rightarrow> 'e + 'a \<Rightarrow> bool" where
  "plan_post g p Q d r = (case r of
     Inl _ \<Rightarrow> prefix (shown g d) p
   | Inr x \<Rightarrow> shown g d = p \<and> Q x)"

definition follows ::
  "('c \<Rightarrow> 'p list) \<Rightarrow> 'p list \<Rightarrow> ('a \<Rightarrow> bool) \<Rightarrow> ('w \<times> 'c list, 'e, 'a) eff \<Rightarrow> bool" where
  "follows g p Q m \<longleftrightarrow> emits (plan_post g p Q) m"

lemma shown_simps [simp]:
  "shown g [] = []" "shown g (c # d) = g c @ shown g d" "shown g (d @ e) = shown g d @ shown g e"
  by (simp_all add: shown_def)

lemma shown_nothing: "list_all (\<lambda>c. g c = []) d \<Longrightarrow> shown g d = []"
  by (induction d) simp_all

lemma follows_bindE:
  assumes "follows g p Q m" and "\<And>x. Q x \<Longrightarrow> follows g q R (f x)"
  shows "follows g (p @ q) R (bindE m f)"
  unfolding follows_def emits_def
proof (intro allI impI)
  fix w l r w' l'
  assume b: "bindE m f (w, l) = (r, w', l')"
  obtain r1 w1 l1 where m: "m (w, l) = (r1, (w1, l1))" by (cases "m (w, l)") auto
  then obtain d1 where d1: "l1 = l @ d1" "plan_post g p Q d1 r1"
    using emitsD [OF assms(1) [unfolded follows_def]] by blast
  show "\<exists>d. l' = l @ d \<and> plan_post g (p @ q) R d r"
  proof (cases r1)
    case (Inl e)
    with b m d1 show ?thesis by (auto simp: bindE_def plan_post_def)
  next
    case (Inr x)
    with d1(2) have p: "shown g d1 = p" "Q x" by (simp_all add: plan_post_def)
    from Inr b m have "f x (w1, l1) = (r, (w', l'))" by (simp add: bindE_def)
    then obtain d2 where d2: "l' = l1 @ d2" "plan_post g q R d2 r"
      using emitsD [OF assms(2) [OF p(2), unfolded follows_def]] by blast
    show ?thesis
    proof (intro exI conjI)
      show "l' = l @ d1 @ d2" using d1(1) d2(1) by simp
      show "plan_post g (p @ q) R (d1 @ d2) r"
        using d2(2) p(1) by (auto simp: plan_post_def split: sum.splits)
    qed
  qed
qed

lemma follows_weaken: "follows g p Q m \<Longrightarrow> (\<And>x. Q x \<Longrightarrow> R x) \<Longrightarrow> follows g p R m"
  unfolding follows_def by (erule emits_weaken) (auto simp: plan_post_def split: sum.splits)

lemma follows_silent: "(\<And>l. keeps (grown (\<lambda>c. g c = []) l) m) \<Longrightarrow> follows g [] (\<lambda>_. True) m"
  using runs_only_emits [of "\<lambda>c. g c = []" m] unfolding follows_def runs_only_def
  by (auto intro!: emits_weaken [of "\<lambda>d r. list_all (\<lambda>c. g c = []) d"]
      simp: plan_post_def shown_nothing split: sum.splits)

lemma follows_okE: "Q x \<Longrightarrow> follows g [] Q (okE x)"
  unfolding follows_def emits_def by (auto simp: okE_def plan_post_def)

lemma follows_pair [simp]: "follows g [] Q (Pair (Inr x)) \<longleftrightarrow> Q x"
  by (auto simp: follows_def emits_def plan_post_def)

lemma follows_readE: "(\<And>s. Q (h s)) \<Longrightarrow> follows g [] Q (readE h)"
  unfolding follows_def emits_def by (auto simp: readE_def plan_post_def)

lemma follows_map_errE: "follows g p Q m \<Longrightarrow> follows g p Q (map_errE h m)"
  unfolding follows_def
  by (rule emits_weaken [OF emits_map_errE], assumption)
    (auto simp: plan_post_def map_err_def split: sum.splits)

text \<open>After a step that may fail although its subprocess ran, the plan's element has been shown.\<close>

lemma follows_then: "follows g p Q m \<Longrightarrow> (\<And>x. Q x \<Longrightarrow> follows g [] R (f x)) \<Longrightarrow> follows g p R (bindE m f)"
  using follows_bindE [of g p Q m "[]" R f] by simp

lemma follows_after: "follows g [] Q m \<Longrightarrow> (\<And>x. Q x \<Longrightarrow> follows g p R (f x)) \<Longrightarrow> follows g p R (bindE m f)"
  using follows_bindE [of g "[]" Q m p R f] by simp

lemma follows_forE:
  assumes "\<And>x. follows g (plan x) (\<lambda>_. True) (f x)"
  shows "follows g (concat (map plan xs)) (\<lambda>_. True) (forE xs f)"
proof (induction xs)
  case Nil
  show ?case by (simp only: forE.simps list.map concat.simps) (rule follows_okE, simp)
next
  case (Cons x xs)
  show ?case
    by (simp only: forE.simps list.map concat.simps) (rule follows_bindE [OF assms Cons])
qed

lemma follows_one:
  "emits (\<lambda>d r. d = [c]) m \<Longrightarrow> follows g (g c) (\<lambda>_. True) m"
  unfolding follows_def by (erule emits_weaken) (auto simp: plan_post_def split: sum.splits)

section \<open>The shell\<close>

text \<open>
  \<open>sh_capture\<close> is \<open>Command::output\<close>, \<open>sh_exists\<close> is \<open>Path::try_exists\<close>, \<open>sh_remove\<close> is \<open>fs::remove_file\<close>,
  \<open>sh_is_file\<close> is \<open>Path::is_file\<close>; \<open>sh_canonicalize\<close> is \<open>Path::canonicalize\<close> with its \<open>io::Error\<close>, and
  \<open>sh_debug\<close> renders an \<open>OsString\<close> by \<open>Debug\<close>.
\<close>

record 'w shell =
  sh_capture :: "command \<Rightarrow> ('w, io_error, process_output) eff"
  sh_exists :: "string \<Rightarrow> ('w, io_error, bool) eff"
  sh_remove :: "string \<Rightarrow> ('w, io_error, unit) eff"
  sh_is_file :: "string \<Rightarrow> 'w \<Rightarrow> bool"
  sh_canonicalize :: "string \<Rightarrow> ('w, io_error, string) eff"
  sh_debug :: "string \<Rightarrow> string"

section \<open>Argument vectors\<close>

record CommandSpec =
  cs_program :: string
  cs_args :: "string list"
  cs_env :: "(string \<times> string) list"

definition spec_new :: "string \<Rightarrow> string list \<Rightarrow> CommandSpec" where
  "spec_new program args = \<lparr>cs_program = program, cs_args = args, cs_env = []\<rparr>"

definition cargo_program :: "'w os \<Rightarrow> 'w \<Rightarrow> string" where
  "cargo_program os' w = (case os_var_os os' ''CARGO'' w of
     Some value \<Rightarrow> if value \<noteq> [] then value else ''cargo''
   | None \<Rightarrow> ''cargo'')"

definition spec_env :: "string \<Rightarrow> string \<Rightarrow> CommandSpec \<Rightarrow> CommandSpec" where
  "spec_env name value spec = spec\<lparr>cs_env := cs_env spec @ [(name, value)]\<rparr>"

definition spec_command :: "CommandSpec \<Rightarrow> string \<Rightarrow> command" where
  "spec_command spec root =
     \<lparr>cm_program = cs_program spec, cm_args = cs_args spec, cm_dir = Some root,
      cm_env = map (\<lambda>(key, value). EnvSet key value) (cs_env spec)\<rparr>"

definition spec_run :: "'w os \<Rightarrow> 'w shell \<Rightarrow> string \<Rightarrow> CommandSpec \<Rightarrow> ('w, io_error, unit) eff" where
  "spec_run os' sh root spec =
     bindE (modifyE (os_print os' (''+ '' @ sh_debug sh (cs_program spec) @ '' ['' @
       join '', '' (map (sh_debug sh) (cs_args spec)) @ ''] (cwd '' @ root @ '')''))) (\<lambda>_.
     bindE (map_errE (\<lambda>e. e\<lparr>ie_text := ''failed to run '' @ sh_debug sh (cs_program spec) @ '': '' @ ie_text e\<rparr>)
       (os_status os' (spec_command spec root))) (\<lambda>(success, status).
     fail_ifE (\<not> success)
       (io_other (sh_debug sh (cs_program spec) @ '' failed with '' @ status))))"

section \<open>Probes\<close>

record Probe =
  pb_name :: string
  pb_command :: CommandSpec
  pb_install :: string

definition tool :: "string \<Rightarrow> string \<Rightarrow> Probe" where
  "tool name install =
     \<lparr>pb_name = name, pb_command = spec_new name [''--version''], pb_install = install\<rparr>"

definition cargo_tool :: "string \<Rightarrow> string \<Rightarrow> string \<Rightarrow> Probe" where
  "cargo_tool name subcommand install =
     \<lparr>pb_name = name, pb_command = spec_new (''cargo-'' @ subcommand) [subcommand, ''--version''],
      pb_install = install\<rparr>"

definition cargo_probe :: "string \<Rightarrow> Probe" where
  "cargo_probe cargo =
     \<lparr>pb_name = ''Cargo'', pb_command = spec_new cargo [''--version''],
      pb_install = ''Install Rust with rustup: https://rustup.rs/''\<rparr>"

definition probe_validate :: "Probe \<Rightarrow> io_error + process_output \<Rightarrow> io_error + unit" where
  "probe_validate probe answer = (case answer of
     Inr out \<Rightarrow>
       fail_if (\<not> out_success out) (io_other (pb_name probe @ '' is installed but unusable (''
         @ out_status out @ ''): '' @ trim (from_utf8_lossy (out_stderr out)) @ char_lf # pb_install probe))
   | Inl e \<Rightarrow>
       if ie_kind e = IO_NotFound
       then Inl \<lparr>ie_kind = IO_NotFound, ie_text = pb_name probe @ '' was not found.'' @ char_lf # pb_install probe\<rparr>
       else Inl (e\<lparr>ie_text := pb_name probe @ '' could not launch: '' @ ie_text e @ char_lf # pb_install probe\<rparr>))"

definition probe_require :: "'w shell \<Rightarrow> string \<Rightarrow> Probe \<Rightarrow> ('w, io_error, unit) eff" where
  "probe_require sh root probe =
     bindE (attemptE (sh_capture sh (spec_command (pb_command probe) root))) (\<lambda>answer.
     liftE (probe_validate probe answer))"

primrec require_probes ::
  "'w shell \<Rightarrow> string \<Rightarrow> Probe list \<Rightarrow> Probe list \<Rightarrow> ('w, io_error, Probe list) eff" where
  "require_probes sh root [] checked = okE checked"
| "require_probes sh root (probe # rest) checked =
     (if probe \<in> set checked then require_probes sh root rest checked
      else bindE (probe_require sh root probe) (\<lambda>_. require_probes sh root rest (checked @ [probe])))"

section \<open>Features\<close>

record FeatureArgs =
  fe_all_features :: bool
  fe_features :: "string list"
  fe_no_default_features :: bool

definition feature_args :: "FeatureArgs \<Rightarrow> string list" where
  "feature_args f =
     (if fe_all_features f \<or> fe_features f = [] \<and> \<not> fe_no_default_features f
      then [''--all-features''] else []) @
     (if fe_features f \<noteq> [] then [''--features'', join '','' (fe_features f)] else []) @
     (if fe_no_default_features f then [''--no-default-features''] else [])"

section \<open>The checks\<close>

datatype CheckStep =
    Step_Markdown | Step_Fmt | Step_PackageContent | Step_Check | Step_Clippy | Step_Test
  | Step_Machete | Step_Deny | Step_Audit

definition REGISTRY :: "CheckStep list" where
  "REGISTRY = [Step_Markdown, Step_Fmt, Step_PackageContent, Step_Check, Step_Clippy, Step_Test,
     Step_Machete, Step_Deny, Step_Audit]"

record CheckArgs =
  ca_only :: "CheckStep list"
  ca_exclude :: "CheckStep list"
  ca_features :: FeatureArgs

definition selected :: "CheckArgs \<Rightarrow> io_error + CheckStep list" where
  "selected args =
     (let steps = filter (\<lambda>step. step \<notin> set (ca_exclude args))
        (filter (\<lambda>step. ca_only args = [] \<or> step \<in> set (ca_only args)) REGISTRY)
      in bindR (fail_if (steps = [])
           \<lparr>ie_kind = IO_InvalidInput, ie_text = ''selection contains no checks''\<rparr>) (\<lambda>_. Inr steps))"

fun probes :: "string \<Rightarrow> CheckStep \<Rightarrow> Probe list" where
  "probes cargo Step_Markdown = [tool ''rumdl'' ''cargo install rumdl'']"
| "probes cargo Step_Fmt = [cargo_tool ''rustfmt'' ''fmt'' ''rustup component add rustfmt'']"
| "probes cargo Step_Clippy = [cargo_tool ''Clippy'' ''clippy'' ''rustup component add clippy'']"
| "probes cargo Step_Machete =
     [tool ''cargo-machete'' ''cargo install --locked cargo-machete --version 0.9.2'']"
| "probes cargo Step_Deny = [tool ''cargo-deny'' ''cargo install --locked cargo-deny --version 0.20.2'']"
| "probes cargo Step_Audit =
     [cargo_probe cargo,
      tool ''cargo-audit'' ''cargo +1.98.0 install --locked cargo-audit --version 0.22.2'']"
| "probes cargo _ = [cargo_probe cargo]"

text \<open>The commands that \<open>check\<close>, \<open>clippy\<close> and \<open>test\<close> share.\<close>

definition build_commands :: "string \<Rightarrow> FeatureArgs \<Rightarrow> CheckStep \<Rightarrow> string \<Rightarrow> CommandSpec list" where
  "build_commands cargo features step subcommand =
     (let targets = (if step \<noteq> Step_Test then [''--all-targets''] else []);
          lints = (if step = Step_Clippy then [''--'', ''-D'', ''warnings''] else [])
      in [spec_new cargo ([subcommand] @ targets @ feature_args features @ lints),
          spec_new cargo ([subcommand, ''--locked'', ''--manifest-path'', ''xtask/Cargo.toml'']
            @ targets @ [''--all-features''] @ lints)])"

fun step_commands :: "string \<Rightarrow> FeatureArgs \<Rightarrow> CheckStep \<Rightarrow> CommandSpec list" where
  "step_commands cargo features Step_Markdown = [spec_new ''rumdl'' [''check'', ''.'']]"
| "step_commands cargo features Step_Fmt =
     [spec_new cargo [''fmt'', ''--all'', ''--check''],
      spec_new cargo [''fmt'', ''--manifest-path'', ''xtask/Cargo.toml'', ''--all'', ''--check'']]"
| "step_commands cargo features Step_Check = build_commands cargo features Step_Check ''check''"
| "step_commands cargo features Step_Clippy = build_commands cargo features Step_Clippy ''clippy''"
| "step_commands cargo features Step_Test = build_commands cargo features Step_Test ''test''"
| "step_commands cargo features Step_Machete = [spec_new ''cargo-machete'' [''--with-metadata'']]"
| "step_commands cargo features Step_Deny =
     [spec_new ''cargo-deny''
        [''--all-features'', ''check'', ''bans'', ''licenses'', ''sources'', ''-D'', ''warnings''],
      spec_new ''cargo-deny''
        [''--manifest-path'', ''xtask/Cargo.toml'', ''--locked'', ''--all-features'', ''check'', ''bans'',
         ''licenses'', ''sources'', ''-D'', ''warnings'']]"
| "step_commands cargo features Step_Audit =
     [spec_new cargo [''audit''], spec_new cargo [''audit'', ''--file'', ''xtask/Cargo.lock'']]"
| "step_commands cargo features Step_PackageContent = []"

text \<open>
  The probes of a step are built when the iteration reaches it, so each reads \<open>CARGO\<close> then;
  \<open>require_unique\<close> goes on with the probes it has checked.
\<close>

primrec require_unique ::
  "'w os \<Rightarrow> 'w shell \<Rightarrow> string \<Rightarrow> CheckStep list \<Rightarrow> Probe list \<Rightarrow> ('w, io_error, unit) eff" where
  "require_unique os' sh root [] checked = okE ()"
| "require_unique os' sh root (step # steps) checked =
     bindE (readE (cargo_program os')) (\<lambda>cargo.
     bindE (require_probes sh root (probes cargo step) checked) (\<lambda>checked'.
     require_unique os' sh root steps checked'))"

definition run_step ::
  "release_tools \<Rightarrow> 'w os \<Rightarrow> 'w shell \<Rightarrow> string \<Rightarrow> FeatureArgs \<Rightarrow> CheckStep \<Rightarrow> ('w, io_error, unit) eff" where
  "run_step t os' sh root features step =
     bindE (if step = Step_PackageContent
       then bindE (map_errE io_other (check_manifest t os' root)) (\<lambda>_. package_content_run os' root)
       else okE ()) (\<lambda>_.
     bindE (if step = Step_Audit
       then bindE (sh_exists sh (root @ ''/Cargo.lock'')) (\<lambda>there.
         if there then okE ()
         else bindE (readE (cargo_program os')) (\<lambda>cargo.
           spec_run os' sh root (spec_new cargo [''generate-lockfile''])))
       else okE ()) (\<lambda>_.
     bindE (readE (cargo_program os')) (\<lambda>cargo.
     forE (step_commands cargo features step) (spec_run os' sh root))))"

definition ci_run ::
  "release_tools \<Rightarrow> 'w os \<Rightarrow> 'w shell \<Rightarrow> string \<Rightarrow> CheckArgs \<Rightarrow> ('w, io_error, unit) eff" where
  "ci_run t os' sh root args =
     bindE (liftE (selected args)) (\<lambda>steps.
     bindE (require_unique os' sh root steps []) (\<lambda>_.
     forE steps (run_step t os' sh root (ca_features args))))"


section \<open>The order of the checks\<close>

definition logged_shell :: "'w shell \<Rightarrow> ('w \<times> process_run list) shell" where
  "logged_shell sh =
     \<lparr>sh_capture = (\<lambda>c (w, l). case sh_capture sh c w of (r, w') \<Rightarrow> (r, (w', l @ [Captured c]))),
      sh_exists = (\<lambda>p. beside (sh_exists sh p)), sh_remove = (\<lambda>p. beside (sh_remove sh p)),
      sh_is_file = (\<lambda>p s. sh_is_file sh p (fst s)),
      sh_canonicalize = (\<lambda>p. beside (sh_canonicalize sh p)), sh_debug = sh_debug sh\<rparr>"

text \<open>
  What the runs of a check show: probes and the commands of the checks, but not the bounded
  subprocesses of the package inventory nor the command that writes a missing lockfile.
\<close>

fun visible :: "string \<Rightarrow> string \<Rightarrow> process_run \<Rightarrow> process_run list" where
  "visible cargo root (Bounded c i l) = []"
| "visible cargo root (Captured c) = [Captured c]"
| "visible cargo root (Inherited c) =
     (if c = spec_command (spec_new cargo [''generate-lockfile'']) root then [] else [Inherited c])"

definition probe_plan :: "string \<Rightarrow> Probe list \<Rightarrow> process_run list" where
  "probe_plan root ps = map (\<lambda>p. Captured (spec_command (pb_command p) root)) ps"

definition command_plan :: "string \<Rightarrow> CommandSpec list \<Rightarrow> process_run list" where
  "command_plan root cs = map (\<lambda>c. Inherited (spec_command c root)) cs"

text \<open>The probes of some steps, each once, in the order of their first use.\<close>

definition first_probes :: "Probe list \<Rightarrow> Probe list" where
  "first_probes ps = rev (remdups (rev ps))"

definition ci_plan :: "string \<Rightarrow> string \<Rightarrow> FeatureArgs \<Rightarrow> CheckStep list \<Rightarrow> process_run list" where
  "ci_plan cargo root features steps =
     probe_plan root (first_probes (concat (map (probes cargo) steps))) @
     command_plan root (concat (map (step_commands cargo features) steps))"

lemma first_probes_simps [simp]:
  "first_probes [] = []"
  "first_probes (ps @ [p]) = (if p \<in> set ps then first_probes ps else first_probes ps @ [p])"
  "set (first_probes ps) = set ps"
  by (simp_all add: first_probes_def)

lemma plan_appends [simp]:
  "probe_plan root (ps @ qs) = probe_plan root ps @ probe_plan root qs"
  "command_plan root (cs @ ds) = command_plan root cs @ command_plan root ds"
  "probe_plan root [] = []" "command_plan root [] = []"
  by (simp_all add: probe_plan_def command_plan_def)

lemma capture_shown: "emits (\<lambda>d r. d = [Captured c]) (sh_capture (logged_shell sh) c)"
  by (auto simp: emits_def logged_shell_def split: prod.splits)

lemma attempt_shown:
  "emits (\<lambda>d r. d = [c]) m \<Longrightarrow> emits (\<lambda>d r. d = [c]) (attemptE m)"
  by (rule emits_weaken [OF emits_attemptE], assumption) auto

lemma status_shown: "emits (\<lambda>d r. d = [Inherited c]) (os_status (logged_os os') c)"
  by (auto simp: emits_def logged_os_def split: prod.splits)

lemma logged_program [simp]: "cargo_program (logged_os os') (w, l) = cargo_program os' w"
  by (simp add: cargo_program_def logged_os_def)

lemma follows_liftE: "follows g [] (\<lambda>_. True) (liftE r)"
  by (rule follows_silent) (rule keeps_basic)

lemma probe_follows:
  "follows (visible cargo root) (probe_plan root [p]) (\<lambda>_. True) (probe_require (logged_shell sh) root p)"
proof -
  have "follows (visible cargo root) (probe_plan root [p]) (\<lambda>_. True)
      (attemptE (sh_capture (logged_shell sh) (spec_command (pb_command p) root)))"
    using follows_one [OF attempt_shown [OF capture_shown], of "visible cargo root"]
    by (simp add: probe_plan_def)
  then show ?thesis
    unfolding probe_require_def by (rule follows_then) (rule follows_liftE)
qed

lemma require_probes_follows:
  "\<exists>new. first_probes (before @ ps) = first_probes before @ new \<and>
     follows (visible cargo root) (probe_plan root new) (\<lambda>c. c = first_probes (before @ ps))
       (require_probes (logged_shell sh) root ps (first_probes before))"
proof (induction ps arbitrary: before)
  case Nil
  show ?case by (simp add: follows_okE)
next
  case (Cons p ps)
  from Cons.IH [of "before @ [p]"] obtain new where
    new: "first_probes (before @ p # ps) = first_probes (before @ [p]) @ new"
      "follows (visible cargo root) (probe_plan root new) (\<lambda>c. c = first_probes (before @ p # ps))
         (require_probes (logged_shell sh) root ps (first_probes (before @ [p])))"
    by auto
  show ?case
  proof (cases "p \<in> set before")
    case True
    with new show ?thesis by auto
  next
    case False
    have "follows (visible cargo root) (probe_plan root [p] @ probe_plan root new)
        (\<lambda>c. c = first_probes (before @ p # ps))
        (require_probes (logged_shell sh) root (p # ps) (first_probes before))"
      using False new(2) by (auto intro!: follows_bindE [OF probe_follows])
    with False new(1) show ?thesis by (auto intro!: exI [of _ "p # new"] simp flip: plan_appends)
  qed
qed

lemma require_unique_follows:
  assumes "\<And>w. cargo_program os' w = cargo"
  shows "\<exists>new. first_probes (before @ concat (map (probes cargo) steps)) = first_probes before @ new \<and>
     follows (visible cargo root) (probe_plan root new) (\<lambda>_. True)
       (require_unique (logged_os os') (logged_shell sh) root steps (first_probes before))"
proof (induction steps arbitrary: before)
  case Nil
  show ?case by (simp add: follows_okE)
next
  case (Cons step steps)
  obtain new where new: "first_probes (before @ probes cargo step) = first_probes before @ new"
      "follows (visible cargo root) (probe_plan root new)
         (\<lambda>c. c = first_probes (before @ probes cargo step))
         (require_probes (logged_shell sh) root (probes cargo step) (first_probes before))"
    using require_probes_follows by blast
  obtain more where
    more: "first_probes ((before @ probes cargo step) @ concat (map (probes cargo) steps)) =
        first_probes (before @ probes cargo step) @ more"
      "follows (visible cargo root) (probe_plan root more) (\<lambda>_. True)
         (require_unique (logged_os os') (logged_shell sh) root steps
           (first_probes (before @ probes cargo step)))"
    using Cons.IH by blast
  have "follows (visible cargo root) (probe_plan root new @ probe_plan root more) (\<lambda>_. True)
      (require_unique (logged_os os') (logged_shell sh) root (step # steps) (first_probes before))"
    unfolding require_unique.simps
  proof (rule follows_after)
    show "follows (visible cargo root) [] (\<lambda>c. c = cargo) (readE (cargo_program (logged_os os')))"
      using assms by (intro follows_readE) auto
  qed (use more(2) in \<open>auto intro!: follows_bindE [OF new(2)]\<close>)
  with new(1) more(1) show ?case by (auto intro!: exI [of _ "new @ more"])
qed


text \<open>A machine with its shell, and what a check run keeps of it.\<close>

locale shell_machine = listing_machine os' P F + machine os' P F for os' :: "'w os" and P F +
  fixes sh :: "'w shell"
  assumes capture: "P (Captured c) \<Longrightarrow> keeps F (sh_capture sh c)"
    and keeps_shell [keeps]: "keeps F (sh_exists sh p)" "keeps F (sh_remove sh p)"
      "keeps F (sh_canonicalize sh p)"
begin

lemma probe_keeps:
  "P (Captured (spec_command (pb_command probe) root)) \<Longrightarrow> keeps F (probe_require sh root probe)"
  unfolding probe_require_def by (intro keeps capture)

lemma spec_run_keeps: "P (Inherited (spec_command c root)) \<Longrightarrow> keeps F (spec_run os' sh root c)"
  unfolding spec_run_def by (intro keeps keeps_status)

lemma ci_run_keeps:
  assumes "\<And>c. P (Captured c)" and "\<And>c. P (Inherited c)"
  shows "keeps F (ci_run t os' sh root args)"
proof -
  have probes: "keeps F (require_probes sh root ps checked)" for ps checked
    by (induction ps arbitrary: checked) (auto intro!: keeps probe_keeps assms)
  have steps: "keeps F (require_unique os' sh root steps checked)" for steps checked
    by (induction steps arbitrary: checked) (auto intro!: keeps probes)
  have "keeps F (run_step t os' sh root features step)" for features step
    unfolding run_step_def Let_def by (intro keeps spec_run_keeps assms)
  then show ?thesis
    unfolding ci_run_def by (intro keeps steps)
qed

end

lemma logged_shell_machine:
  assumes "\<And>c i l. P (Bounded c i l)"
  shows "shell_machine (logged_os os') P (grown P l) (logged_shell sh)"
  using assms
  by unfold_locales (simp_all add: logged_shell_def keeps_grown_beside keeps_grown_append)

interpretation quiet: shell_machine "logged_os os'" "\<lambda>r. visible cargo root r = []"
    "grown (\<lambda>r. visible cargo root r = []) l" "logged_shell sh" for os' cargo root l sh
  by (rule logged_shell_machine) simp

lemma spec_run_follows:
  "follows (visible cargo root) (visible cargo root (Inherited (spec_command c root))) (\<lambda>_. True)
     (spec_run (logged_os os') (logged_shell sh) root c)"
  unfolding spec_run_def
proof (rule follows_after)
  show "follows (visible cargo root) [] (\<lambda>_. True) (modifyE (os_print (logged_os os') s))" for s
    by (rule follows_silent) (rule logged.keeps_modify)
  show "follows (visible cargo root) (visible cargo root (Inherited (spec_command c root))) (\<lambda>_. True)
      (bindE (map_errE h (os_status (logged_os os') (spec_command c root))) (\<lambda>(success, status).
         fail_ifE (\<not> success) (e status)))" for h e
    by (rule follows_then [OF follows_map_errE [OF follows_one [OF status_shown]]])
      (auto intro!: follows_silent keeps_basic split: prod.split)
qed

lemma step_command_args:
  assumes "c \<in> set (step_commands cargo features step)"
  shows "cs_args c \<noteq> [''generate-lockfile'']"
  using assms by (cases step) (auto simp: build_commands_def spec_new_def Let_def)

lemma step_command_visible:
  assumes "c \<in> set (step_commands cargo features step)"
  shows "visible cargo root (Inherited (spec_command c root)) = [Inherited (spec_command c root)]"
  using step_command_args [OF assms] by (auto simp: spec_command_def spec_new_def)

lemma commands_follow:
  assumes "\<And>c. c \<in> set cs \<Longrightarrow> visible cargo root (Inherited (spec_command c root)) = [Inherited (spec_command c root)]"
  shows "follows (visible cargo root) (command_plan root cs) (\<lambda>_. True)
    (forE cs (spec_run (logged_os os') (logged_shell sh) root))"
proof -
  have "concat (map (\<lambda>c. visible cargo root (Inherited (spec_command c root))) cs) = command_plan root cs"
    using assms by (induction cs) (simp_all add: command_plan_def)
  then show ?thesis
    using follows_forE [of "visible cargo root" _ "spec_run (logged_os os') (logged_shell sh) root" cs,
        OF spec_run_follows] by simp
qed

lemma run_step_follows:
  assumes "\<And>w. cargo_program os' w = cargo"
  shows "follows (visible cargo root) (command_plan root (step_commands cargo features step)) (\<lambda>_. True)
    (run_step t (logged_os os') (logged_shell sh) root features step)"
proof -
  have inventory: "follows (visible cargo root) [] (\<lambda>_. True)
      (if step = Step_PackageContent
       then bindE (map_errE io_other (check_manifest t (logged_os os') root))
         (\<lambda>_. package_content_run (logged_os os') root)
       else okE ())"
    by (intro follows_silent keeps quiet.check_manifest_keeps quiet.package_content_keeps)
  have cargo: "follows (visible cargo root) [] (\<lambda>c. c = cargo) (readE (cargo_program (logged_os os')))"
    using assms by (intro follows_readE) auto
  have lock: "follows (visible cargo root) [] (\<lambda>_. True)
      (spec_run (logged_os os') (logged_shell sh) root (spec_new cargo [''generate-lockfile'']))"
    using spec_run_follows [of cargo root "spec_new cargo [''generate-lockfile'']"] by simp
  have lockfile: "follows (visible cargo root) [] (\<lambda>_. True)
      (if step = Step_Audit
       then bindE (sh_exists (logged_shell sh) (root @ ''/Cargo.lock'')) (\<lambda>there.
         if there then okE ()
         else bindE (readE (cargo_program (logged_os os'))) (\<lambda>cargo.
           spec_run (logged_os os') (logged_shell sh) root (spec_new cargo [''generate-lockfile''])))
       else okE ())"
  proof (cases "step = Step_Audit")
    case True
    have there: "follows (visible cargo root) [] (\<lambda>_. True) (sh_exists (logged_shell sh) p)" for p
      by (rule follows_silent) (rule quiet.keeps_shell)
    from True show ?thesis
      by (auto intro!: follows_after [OF there] follows_after [OF cargo] lock follows_okE)
  qed (simp add: follows_okE)
  show ?thesis
    unfolding run_step_def
    by (rule follows_after [OF inventory], rule follows_after [OF lockfile], rule follows_after [OF cargo])
      (auto intro!: commands_follow step_command_visible)
qed

lemma ci_run_follows:
  assumes "\<And>w. cargo_program os' w = cargo" and "selected args = Inr steps"
  shows "follows (visible cargo root) (ci_plan cargo root (ca_features args) steps) (\<lambda>_. True)
    (ci_run t (logged_os os') (logged_shell sh) root args)"
proof -
  have probes: "follows (visible cargo root)
      (probe_plan root (first_probes (concat (map (probes cargo) steps)))) (\<lambda>_. True)
      (require_unique (logged_os os') (logged_shell sh) root steps [])"
    using require_unique_follows [OF assms(1), of "[]"] by auto
  have plan: "concat (map (\<lambda>s. command_plan root (step_commands cargo (ca_features args) s)) steps) =
      command_plan root (concat (map (step_commands cargo (ca_features args)) steps))"
    by (induction steps) simp_all
  have checks: "follows (visible cargo root)
      (command_plan root (concat (map (step_commands cargo (ca_features args)) steps))) (\<lambda>_. True)
      (forE steps (run_step t (logged_os os') (logged_shell sh) root (ca_features args)))"
    unfolding plan [symmetric] by (rule follows_forE) (rule run_step_follows [OF assms(1)])
  have steps: "follows (visible cargo root) [] (\<lambda>s. s = steps) (liftE (selected args))"
    using assms(2) by (auto simp: follows_def emits_def liftE_def plan_post_def)
  show ?thesis
    unfolding ci_run_def ci_plan_def
    by (rule follows_after [OF steps]) (auto intro!: follows_bindE [OF probes] checks)
qed


end
