(* ===== verification/Coverage.thy ===== *)
theory Coverage
  imports Checks
begin

text \<open>
  The coverage command of \<open>coverage.rs\<close> on Linux: a report is generated afresh, checked to be there,
  and opened in a browser on request.
\<close>

section \<open>Engines and commands\<close>

datatype CoverageEngine = LlvmCov | Tarpaulin

record CoverageOptions =
  co_engine :: CoverageEngine
  co_features :: FeatureArgs

fun coverage_index :: "CoverageEngine \<Rightarrow> string" where
  "coverage_index LlvmCov = ''target/coverage/llvm-cov/html/index.html''"
| "coverage_index Tarpaulin = ''target/coverage/tarpaulin/tarpaulin-report.html''"

fun coverage_probe :: "CoverageEngine \<Rightarrow> Probe" where
  "coverage_probe LlvmCov = cargo_tool ''cargo-llvm-cov'' ''llvm-cov''
     (''cargo install --locked cargo-llvm-cov'' @ char_lf # ''rustup component add llvm-tools-preview'')"
| "coverage_probe Tarpaulin = cargo_tool ''cargo-tarpaulin'' ''tarpaulin''
     ''cargo install --locked cargo-tarpaulin''"

definition coverage_commands :: "string \<Rightarrow> CoverageOptions \<Rightarrow> CommandSpec list" where
  "coverage_commands cargo options =
     (let commands = (case co_engine options of
            LlvmCov \<Rightarrow> [spec_env ''CARGO_LLVM_COV_SETUP'' ''no''
              (spec_new cargo [''llvm-cov'', ''clean'', ''--workspace''])]
          | Tarpaulin \<Rightarrow> []);
          test = (case co_engine options of
            LlvmCov \<Rightarrow> spec_env ''CARGO_LLVM_COV_SETUP'' ''no''
              (spec_new cargo [''llvm-cov'', ''test'', ''--package'', ''yaml-sigil-traits'', ''--lib'',
                 ''--tests'', ''--html'', ''--output-dir'', ''target/coverage/llvm-cov''])
          | Tarpaulin \<Rightarrow>
              spec_new cargo [''tarpaulin'', ''--package'', ''yaml-sigil-traits'', ''--lib'', ''--tests'',
                ''--target-dir'', ''target/coverage/tarpaulin/build'', ''--exclude-files'', ''xtask/*'',
                ''--out'', ''Html'', ''--output-dir'', ''target/coverage/tarpaulin'']);
          test = test\<lparr>cs_args := cs_args test @ feature_args (co_features options)\<rparr>
      in commands @ [test])"

section \<open>The report\<close>

text \<open>The closures \<open>generate\<close> and \<open>view\<close> are effects the function is given, as in the code.\<close>

definition generate_report ::
  "'w os \<Rightarrow> 'w shell \<Rightarrow> string \<Rightarrow> bool \<Rightarrow> ('w, io_error, unit) eff \<Rightarrow> ('w, io_error, unit) eff \<Rightarrow>
   ('w, io_error, unit) eff" where
  "generate_report os' sh path open_it generate view =
     bindE (attemptE (sh_remove sh path)) (\<lambda>answer.
     bindE (case answer of
         Inr _ \<Rightarrow> okE ()
       | Inl e \<Rightarrow>
           if ie_kind e = IO_NotFound then okE ()
           else failE (e\<lparr>ie_text := ''remove previous report '' @ path @ '': '' @ ie_text e\<rparr>)) (\<lambda>_.
     bindE generate (\<lambda>_.
     bindE (readE (sh_is_file sh path)) (\<lambda>there.
     bindE (fail_ifE (\<not> there)
         (io_other (''coverage completed without the expected report '' @ path))) (\<lambda>_.
     bindE (modifyE (os_print os' (''Wrote '' @ path))) (\<lambda>_.
     if open_it then view else okE ()))))))"

definition open_with_command :: "'w os \<Rightarrow> command \<Rightarrow> string \<Rightarrow> ('w, io_error, unit) eff" where
  "open_with_command os' c path =
     bindE (attemptE (os_status os' c)) (\<lambda>answer. case answer of
       Inr (success, status) \<Rightarrow>
         if success then okE ()
         else failE (io_other (''browser opener failed with '' @ status @ ''; open '' @ path @ '' manually''))
     | Inl e \<Rightarrow>
         if ie_kind e = IO_NotFound
         then modifyE (os_print os' (''No browser opener is available; open '' @ path @ '' manually.''))
         else failE (e\<lparr>ie_text := ''launch browser opener: '' @ ie_text e @ ''; open '' @ path @ '' manually''\<rparr>))"

definition open_canonical_path :: "'w os \<Rightarrow> string \<Rightarrow> ('w, io_error, unit) eff" where
  "open_canonical_path os' path = open_with_command os' (cmd_args [path] (command_new ''xdg-open'')) path"

definition open_in_browser :: "'w os \<Rightarrow> 'w shell \<Rightarrow> string \<Rightarrow> ('w, io_error, unit) eff" where
  "open_in_browser os' sh path = bindE (sh_canonicalize sh path) (open_canonical_path os')"

definition coverage_report :: "string \<Rightarrow> CoverageOptions \<Rightarrow> string" where
  "coverage_report root options = root @ ''/'' @ coverage_index (co_engine options)"

definition coverage_run ::
  "'w os \<Rightarrow> 'w shell \<Rightarrow> string \<Rightarrow> CoverageOptions \<Rightarrow> bool \<Rightarrow> ('w, io_error, unit) eff" where
  "coverage_run os' sh root options open_it =
     bindE (probe_require sh root (coverage_probe (co_engine options))) (\<lambda>_.
     let report = coverage_report root options in
     generate_report os' sh report open_it
       (bindE (readE (cargo_program os')) (\<lambda>cargo.
          forE (coverage_commands cargo options) (spec_run os' sh root)))
       (open_in_browser os' sh report))"

section \<open>Freshness\<close>

text \<open>\<open>gone\<close> holds when removing the previous report ended as the code accepts.\<close>

definition gone :: "'w shell \<Rightarrow> string \<Rightarrow> 'w \<Rightarrow> 'w \<Rightarrow> bool" where
  "gone sh path w w1 \<longleftrightarrow> (case sh_remove sh path w of
     (Inr _, w') \<Rightarrow> w1 = w'
   | (Inl e, w') \<Rightarrow> ie_kind e = IO_NotFound \<and> w1 = w')"

text \<open>The stages at which a report ends, one conclusion per exit of the function.\<close>

lemma removal_stages:
  assumes "generate_report os' sh path b gen view w = (r, w')"
  obtains (kept) e where "r = Inl e" "w' = snd (sh_remove sh path w)"
  | (removed) w1 where "gone sh path w w1"
      "bindE gen (\<lambda>_. bindE (readE (sh_is_file sh path)) (\<lambda>there.
         bindE (fail_ifE (\<not> there)
           (io_other (''coverage completed without the expected report '' @ path))) (\<lambda>_.
         bindE (modifyE (os_print os' (''Wrote '' @ path))) (\<lambda>_.
         if b then view else okE ())))) w1 = (r, w')"
proof -
  obtain answer w1 where removed: "sh_remove sh path w = (answer, w1)" by fastforce
  show thesis
  proof (cases "\<exists>e. answer = Inl e \<and> ie_kind e \<noteq> IO_NotFound")
    case True
    with removed assms have "\<exists>e. r = Inl e" "w' = w1"
      by (auto simp: generate_report_def bindE_def attemptE_def failE_def)
    with removed that(1) show ?thesis by auto
  next
    case False
    with removed have "gone sh path w w1" by (auto simp: gone_def split: sum.split)
    with False removed assms that(2) [of w1] show ?thesis
      by (cases answer) (auto simp: generate_report_def bindE_def attemptE_def okE_def)
  qed
qed

lemma report_stages:
  assumes "generate_report os' sh path b gen view w = (r, w')"
  obtains (kept) e where "r = Inl e" "w' = snd (sh_remove sh path w)"
  | (failed) w1 q e where "gone sh path w w1" "gen w1 = (q, w')" "r = Inl e"
  | (written) w1 w2 where "gone sh path w w1" "gen w1 = (Inr (), w2)" "sh_is_file sh path w2"
      "(if b then view else okE ()) (os_print os' (''Wrote '' @ path) w2) = (r, w')"
  using assms
proof (cases rule: removal_stages)
  case (removed w1)
  note effects = bindE_def readE_def fail_ifE_def liftE_def fail_if_def modifyE_def
  obtain q w2 where gen: "gen w1 = (q, w2)" by fastforce
  show ?thesis
  proof (cases "q = Inr () \<and> sh_is_file sh path w2")
    case True
    with gen removed have "(if b then view else okE ()) (os_print os' (''Wrote '' @ path) w2) = (r, w')"
      by (simp add: effects)
    with True gen written [OF removed(1)] show ?thesis by simp
  next
    case False
    with gen removed(2) have "w' = w2 \<and> (\<exists>e. r = Inl e)"
    proof (cases q)
      case (Inl e)
      with gen removed(2) show ?thesis by (auto simp: bindE_def)
    qed (auto simp: effects)
    with gen failed [OF removed(1)] show ?thesis by auto
  qed
qed (rule kept)

text \<open>A run that starts the browser opener.\<close>

fun opens :: "process_run \<Rightarrow> bool" where
  "opens (Inherited c) \<longleftrightarrow> cm_program c = ''xdg-open'' \<and> length (cm_args c) = 1"
| "opens _ \<longleftrightarrow> False"

definition opener :: "string \<Rightarrow> process_run" where
  "opener path = Inherited (cmd_args [path] (command_new ''xdg-open''))"

lemma logged_gone:
  "gone (logged_shell sh) path (w, l) (w1, l1) \<Longrightarrow> gone sh path w w1 \<and> l1 = l"
  by (auto simp: gone_def logged_shell_def beside_def split: prod.splits sum.splits)

lemma logged_spec_run:
  "spec_run (logged_os os') (logged_shell sh) root c (w, l) =
    (case spec_run os' sh root c w of (r, w') \<Rightarrow> (r, (w', l @ [Inherited (spec_command c root)])))"
  by (auto simp: spec_run_def bindE_def modifyE_def map_errE_def fail_ifE_def liftE_def logged_os_def
      logged_shell_def map_err_def split: prod.splits sum.splits)

lemma logged_commands:
  assumes "forE cs (spec_run (logged_os os') (logged_shell sh) root) (w, l) = (Inr (), (w', l'))"
  shows "forE cs (spec_run os' sh root) w = (Inr (), w') \<and> l' = l @ command_plan root cs"
  using assms
proof (induction cs arbitrary: w l)
  case Nil
  then show ?case by (simp add: okE_def)
next
  case (Cons c cs)
  obtain r1 w1 where one: "spec_run os' sh root c w = (r1, w1)" by fastforce
  with Cons.prems obtain u where ok: "r1 = Inr u"
    and rest: "forE cs (spec_run (logged_os os') (logged_shell sh) root)
        (w1, l @ [Inherited (spec_command c root)]) = (Inr (), (w', l'))"
    by (cases r1) (auto simp: bindE_def logged_spec_run)
  from Cons.IH [OF rest] one ok show ?case by (simp add: bindE_def command_plan_def)
qed

lemma commands_not_open:
  assumes "c \<in> set (coverage_commands cargo options)"
  shows "\<not> opens (Inherited (spec_command c root))"
  using assms by (cases "co_engine options")
    (auto simp: coverage_commands_def Let_def spec_command_def spec_new_def spec_env_def)

text \<open>What the coverage command keeps of a machine with its shell.\<close>

context shell_machine
begin

lemma coverage_run_keeps:
  assumes "\<And>c. P (Captured c)" and "\<And>c. P (Inherited c)"
  shows "keeps F (coverage_run os' sh root options open_it)"
  unfolding coverage_run_def generate_report_def open_in_browser_def open_canonical_path_def
    open_with_command_def Let_def
  by (intro keeps probe_keeps spec_run_keeps keeps_status assms)

end

lemma open_in_browser_log:
  assumes "open_in_browser (logged_os os') (logged_shell sh) path (w, l) = (r, (w', l'))"
  shows "l' = l \<and> (\<exists>e. r = Inl e) \<or> (\<exists>p. l' = l @ [opener p])"
  using assms
  by (auto simp: open_in_browser_def open_canonical_path_def open_with_command_def bindE_def attemptE_def
      logged_os_def logged_shell_def beside_def opener_def okE_def failE_def modifyE_def
      split: prod.splits sum.splits if_splits)

lemma no_opens: "list_all (\<lambda>c. \<not> opens c) l \<Longrightarrow> \<not> list_ex opens l"
  by (induction l) auto

lemma plan_not_open: "\<not> list_ex opens (command_plan root (coverage_commands cargo options))"
  by (rule no_opens) (auto simp: command_plan_def list_all_iff dest: commands_not_open [of _ _ _ root])

interpretation unopened: shell_machine "logged_os os'" "\<lambda>r. \<not> opens r" "grown (\<lambda>r. \<not> opens r) l"
    "logged_shell sh" for os' l sh
  by (rule logged_shell_machine) simp

lemma generated_log:
  assumes "bindE (readE (cargo_program (logged_os os'))) (\<lambda>cargo.
      forE (coverage_commands cargo options) (spec_run (logged_os os') (logged_shell sh) root)) (w, l)
    = (r, (w', l'))"
  shows "\<exists>d. l' = l @ d \<and> \<not> list_ex opens d"
proof -
  have "keeps (grown (\<lambda>c. \<not> opens c) l) (bindE (readE (cargo_program (logged_os os'))) (\<lambda>cargo.
      forE (coverage_commands cargo options) (spec_run (logged_os os') (logged_shell sh) root)))"
    by (intro keeps unopened.spec_run_keeps commands_not_open)
  from keepsD [OF this assms] show ?thesis by (auto simp: grown_def dest: no_opens)
qed

lemma coverage_run_rest:
  assumes "coverage_run (logged_os os') (logged_shell sh) root options b (w, []) = (r, (w', l))"
  obtains (probe) e where "r = Inl e" "l = [Captured (spec_command (pb_command (coverage_probe (co_engine options))) root)]"
  | (report) w1 where
    "generate_report (logged_os os') (logged_shell sh) (coverage_report root options) b
       (bindE (readE (cargo_program (logged_os os'))) (\<lambda>cargo.
          forE (coverage_commands cargo options) (spec_run (logged_os os') (logged_shell sh) root)))
       (open_in_browser (logged_os os') (logged_shell sh) (coverage_report root options))
       (w1, [Captured (spec_command (pb_command (coverage_probe (co_engine options))) root)])
     = (r, (w', l))"
  using assms
  by (auto simp: coverage_run_def probe_require_def bindE_def attemptE_def liftE_def logged_shell_def Let_def
      split: prod.splits sum.splits)

text \<open>What was logged when nothing was written, and when the report was.\<close>

lemma unwritten_log:
  assumes "gone (logged_shell sh) path (v, p) s"
    and "bindE (readE (cargo_program (logged_os os'))) (\<lambda>cargo.
      forE (coverage_commands cargo options) (spec_run (logged_os os') (logged_shell sh) root)) s = (q, (w', l))"
    and "\<not> list_ex opens p"
  shows "\<not> list_ex opens l"
proof -
  obtain w1 l1 where s: "s = (w1, l1)" by fastforce
  with assms(1) have "l1 = p" by (auto dest: logged_gone)
  with generated_log assms(2,3) s show ?thesis by fastforce
qed

lemma viewed_log:
  assumes "(if b then open_in_browser (logged_os os') (logged_shell sh) path else okE ()) (w, l1) = (r, (w', l))"
    and "r = Inr () \<or> list_ex opens l" and "\<not> list_ex opens l1"
  shows "\<exists>seen. l = l1 @ seen \<and> (if b then \<exists>path. seen = [opener path] else seen = [])"
proof (cases b)
  case True
  with assms(1) have "l = l1 \<and> (\<exists>e. r = Inl e) \<or> (\<exists>p. l = l1 @ [opener p])"
    by (auto dest: open_in_browser_log)
  with True assms(2,3) show ?thesis by auto
qed (use assms(1) in \<open>simp add: okE_def\<close>)

lemma written_log:
  assumes "gone (logged_shell sh) path (v, p) s"
    and "bindE (readE (cargo_program (logged_os os'))) (\<lambda>cargo.
      forE (coverage_commands cargo options) (spec_run (logged_os os') (logged_shell sh) root)) s = (Inr (), (w2, l2))"
  obtains cargo w1 where "gone sh path v w1"
    "forE (coverage_commands cargo options) (spec_run os' sh root) w1 = (Inr (), w2)"
    "l2 = p @ command_plan root (coverage_commands cargo options)"
proof -
  obtain w1 l1 where s: "s = (w1, l1)" by fastforce
  with assms(1) have g: "gone sh path v w1" "l1 = p" by (auto dest: logged_gone)
  from assms(2) s have "forE (coverage_commands (cargo_program os' w1) options)
      (spec_run (logged_os os') (logged_shell sh) root) (w1, l1) = (Inr (), (w2, l2))"
    by (simp add: bindE_def readE_def)
  from logged_commands [OF this] g that show thesis by auto
qed

text \<open>
  C37: a report that is shown is fresh. When the coverage command succeeds, and whenever it starts the
  browser at all, the report was no file before the coverage commands ran, every one of them succeeded,
  and it was a file after them. The subprocesses are the engine's probe, the commands in order and, only
  on request, one opener. The hypothesis is what removing a file promises.
\<close>

theorem coverage_fresh:
  assumes removal: "\<And>v v'. gone sh (coverage_report root options) v v' \<Longrightarrow>
      \<not> sh_is_file sh (coverage_report root options) v'"
    and run: "coverage_run (logged_os os') (logged_shell sh) root options open_it (w, []) = (r, (w', l))"
    and shown: "r = Inr () \<or> list_ex opens l"
  shows "\<exists>cargo w1 w2 seen.
      \<not> sh_is_file sh (coverage_report root options) w1 \<and>
      forE (coverage_commands cargo options) (spec_run os' sh root) w1 = (Inr (), w2) \<and>
      sh_is_file sh (coverage_report root options) w2 \<and>
      l = Captured (spec_command (pb_command (coverage_probe (co_engine options))) root)
            # command_plan root (coverage_commands cargo options) @ seen \<and>
      (if open_it then \<exists>path. seen = [opener path] else seen = [])"
  using run
proof (cases rule: coverage_run_rest)
  case probe
  with shown show ?thesis by simp
next
  case (report v)
  let ?p = "[Captured (spec_command (pb_command (coverage_probe (co_engine options))) root)]"
  from report show ?thesis
  proof (cases rule: report_stages)
    case (kept e)
    then have "l = ?p" by (auto simp: logged_shell_def beside_def split: prod.splits)
    with kept shown show ?thesis by simp
  next
    case (failed s q e)
    from unwritten_log [OF failed(1,2)] failed(3) shown show ?thesis by simp
  next
    case (written s t)
    obtain w2 l2 where t: "t = (w2, l2)" by fastforce
    from written_log [OF written(1) written(2) [unfolded t]] obtain cargo w1 where
      commands: "gone sh (coverage_report root options) v w1"
        "forE (coverage_commands cargo options) (spec_run os' sh root) w1 = (Inr (), w2)"
        "l2 = ?p @ command_plan root (coverage_commands cargo options)" .
    have "\<not> list_ex opens l2" using commands(3) plan_not_open by simp
    moreover have "(if open_it then open_in_browser (logged_os os') (logged_shell sh) (coverage_report root options)
        else okE ()) (os_print os' (''Wrote '' @ coverage_report root options) w2, l2) = (r, (w', l))"
      using written(4) t by (simp add: logged_os_def)
    ultimately obtain seen where
      "l = l2 @ seen" "if open_it then \<exists>path. seen = [opener path] else seen = []"
      using viewed_log shown by metis
    moreover from written(3) t have "sh_is_file sh (coverage_report root options) w2"
      by (simp add: logged_shell_def)
    ultimately show ?thesis
      using removal [OF commands(1)] commands
      by (intro exI [of _ cargo] exI [of _ w1] exI [of _ w2] exI [of _ seen] conjI) simp_all
  qed
qed

end
