(* ===== verification/Tasks.thy ===== *)
theory Tasks
  imports GithubRun Coverage
begin

text \<open>
  The entry point of \<open>xtask/src/lib.rs\<close>: the parsed command is dispatched to the component that runs
  it, an error is printed once, and the exit code says whether there was one. Parsing the command line
  is \<open>clap\<close>'s.
\<close>

datatype task =
    Task_Check CheckArgs
  | Task_Coverage CoverageOptions bool
  | Task_CoverageOpen CoverageOptions
  | Task_PackageContent
  | Task_Release release_command
  | Task_Github GithubReleaseCommand

datatype exit_code = ExitSuccess | ExitFailure

fun task_result ::
  "release_tools \<Rightarrow> archive_tools \<Rightarrow> json_tools \<Rightarrow> bytes serde \<Rightarrow> 'w os \<Rightarrow> 'w shell \<Rightarrow> string \<Rightarrow> task \<Rightarrow>
   ('w, unit) io" where
  "task_result t at js de os' sh root (Task_Check args) = map_errE ie_text (ci_run t os' sh root args)"
| "task_result t at js de os' sh root (Task_Coverage options open_it) =
     map_errE ie_text (coverage_run os' sh root options open_it)"
| "task_result t at js de os' sh root (Task_CoverageOpen options) =
     map_errE ie_text (coverage_run os' sh root options True)"
| "task_result t at js de os' sh root Task_PackageContent = map_errE ie_text (package_content_run os' root)"
| "task_result t at js de os' sh root (Task_Release args) = release_run t os' root args"
| "task_result t at js de os' sh root (Task_Github args) = github_run t at js de os' root args"

definition xtask_run ::
  "release_tools \<Rightarrow> archive_tools \<Rightarrow> json_tools \<Rightarrow> bytes serde \<Rightarrow> 'w os \<Rightarrow> 'w shell \<Rightarrow> string \<Rightarrow> task \<Rightarrow>
   'w \<Rightarrow> exit_code \<times> 'w" where
  "xtask_run t at js de os' sh root command w =
     (case task_result t at js de os' sh root command w of
        (Inr _, w') \<Rightarrow> (ExitSuccess, w')
      | (Inl e, w') \<Rightarrow> (ExitFailure, os_print os' (''xtask failed: '' @ e) w'))"

end
