(* ===== verification/Frames.thy ===== *)
theory Frames
  imports Tasks
begin

text \<open>
  What the whole program keeps. Every component is shown to start bounded subprocesses of six trusted
  forms only, by the contract \<open>machine\<close> of the operating system it runs on, extended by a shell, a
  transport and a registry where it uses them. What the machine keeps under such subprocesses, every
  command keeps; the ones that mutate GitHub are started by the finalizer's reconciliation alone.
\<close>

section \<open>Trusted commands\<close>

text \<open>
  \<open>gh\<close> is asked for its version or for one API request; \<open>curl\<close> reads one crates.io address over HTTPS
  without a configuration file; the fetch of protected history has neither a token nor a credential
  helper.
\<close>

definition github_request :: "command \<Rightarrow> bool" where
  "github_request c \<longleftrightarrow> cm_program c = ''gh'' \<and>
     (cm_args c = [''--version''] \<or>
      take 3 (cm_args c) \<in> {[''api'', ''--method'', ''GET''], [''api'', ''--method'', ''POST'']})"

definition crates_io_read :: "command \<Rightarrow> bool" where
  "crates_io_read c \<longleftrightarrow> cm_program c = ''curl'' \<and> take 1 (cm_args c) = [''--disable''] \<and>
     {(''--proto'', ''=https''), (''--proto-redir'', ''=https'')} \<subseteq> set (zip (cm_args c) (tl (cm_args c))) \<and>
     starts_with (last (cm_args c)) ''https://crates.io/api/v1/crates/''"

definition anonymous_fetch :: "command \<Rightarrow> bool" where
  "anonymous_fetch c \<longleftrightarrow> cm_program c = ''git'' \<and>
     take 5 (cm_args c) = [''-c'', ''credential.helper='', ''fetch'', ''--quiet'', ''--no-tags''] \<and>
     list_all (\<lambda>k. EnvRemove k \<in> set (cm_env c)) [''GH_TOKEN'', ''GITHUB_TOKEN'', ''GIT_TOKEN'']"

definition trusted :: "command \<Rightarrow> bool" where
  "trusted c \<longleftrightarrow>
     cm_program c = ''git'' \<and> (reading_git (cm_args c) \<or> cm_args c = [''init'', ''--quiet'']) \<or>
     anonymous_fetch c \<or> editing_release_plz c \<or> github_request c \<or> crates_io_read c \<or>
     take 2 (cm_args c) \<in> {[''metadata'', ''--no-deps''], [''package'', ''--list'']}"

lemma env_fields [simp]:
  "cm_program (env_remove k c) = cm_program c" "cm_args (env_remove k c) = cm_args c"
  "cm_env (env_remove k c) = cm_env c @ [EnvRemove k]"
  "cm_program (env_set k v c) = cm_program c" "cm_args (env_set k v c) = cm_args c"
  "cm_env (env_set k v c) = cm_env c @ [EnvSet k v]"
  "cm_program (foldl (\<lambda>c k. env_remove k c) c ks) = cm_program c"
  "cm_args (foldl (\<lambda>c k. env_remove k c) c ks) = cm_args c"
  by (simp_all add: env_remove_def env_set_def) (induction ks arbitrary: c; simp add: env_remove_def)+

lemma fetch_trusted: "trusted (fetch_command variables root remote l)"
  by (simp add: trusted_def anonymous_fetch_def fetch_command_def Let_def)

section \<open>The local repository\<close>

context release_machine
begin

lemma support_keeps [keeps]:
  "keeps F (blob os' root commit path)"
  "keeps F (seed_blobs os' root main paths blobs)"
  "keeps F (seed_inventory os' root l anchor main)"
  "keeps F (require_repository os' explicit)"
  "keeps F (require_main_checkout os' root sha)"
  "keeps F (print_proposal js sv os' l v successor anchor iv)"
proof -
  show blob: "keeps F (blob os' root commit path)" for commit path
    unfolding blob_def by (intro keeps; simp)
  show seeds: "keeps F (seed_blobs os' root main paths blobs)" for paths blobs
    by (induction paths arbitrary: blobs) (auto intro!: keeps blob)
  show "keeps F (seed_inventory os' root l anchor main)"
    unfolding seed_inventory_def by (intro keeps seeds; simp)
qed (unfold require_repository_def require_main_checkout_def print_proposal_def, (intro keeps; simp)+)

lemma provenance_keeps [keeps]:
  "keeps F (ancestor os' root older newer)"
  "keeps F (inventory js os' root commit l)"
  "keeps F (binding_load js os' root main source l op)"
  "keeps F (verify_git os' root b base)"
  "keeps F (exact_root os' root)"
  unfolding binding_load_def load_anchor_def historical_chain_def historical_paths_def
    require_fresh_paths_def inventory_def ancestor_def verify_git_def exact_root_def
  by (intro keeps; simp)+

lemma checkout_keeps [keeps]:
  "keeps F (require_clean_source os' root commit)"
  "keeps F (context_from_env os' root source)"
  "keeps F (require_api_token os')"
  "keeps F (exact_checkout os' root sha)"
  "keeps F (require_separate_checkouts os' root root' sha sha')"
  "keeps F (bound_context js os' cx root l op)"
  "keeps F (write_outputs os' q base operation)"
  "keeps F (release_body sv os' root v)"
  "keeps F (validate_source_version t os' root v)"
  unfolding require_separate_checkouts_def exact_checkout_def context_from_env_def require_clean_source_def
    require_api_token_def bound_context_def write_outputs_def write_field_def release_body_def
    validate_source_version_def Let_def
  by (intro keeps keeps_output reading; simp)+

end

section \<open>GitHub and the registry\<close>

text \<open>A machine with a transport whose reads keep the property too.\<close>

locale reader = release_machine os' P F for os' :: "'w os" and P F +
  fixes gh :: "('w, 'j) transport"
  assumes keeps_reads [keeps]: "keeps F (t_get gh p)" "keeps F (t_get_optional gh p)"
    "keeps F (t_graphql gh q)"
begin

lemma requests_keep [keeps]:
  "keeps F (get gh de p)" "keeps F (get_optional gh de p)" "keeps F (graphql gh de q)"
  unfolding get_def get_optional_def graphql_def by (intro keeps)+

lemma support_forge_keeps [keeps]:
  "keeps F (require_fresh_progression sv de gh l chosen)"
  "keeps F (require_no_active_line de gh os' root sha)"
  "(\<And>s v. keeps F (verify s v)) \<Longrightarrow> keeps F (published_source sv de gh os' root v main verify)"
proof -
  have "keeps F (published_tags sv de gh v ps source)" for v ps source
    by (induction ps arbitrary: source) (auto simp: published_tag_def Let_def intro!: keeps)
  then show "(\<And>s v. keeps F (verify s v)) \<Longrightarrow> keeps F (published_source sv de gh os' root v main verify)"
    unfolding published_source_def by (intro keeps; simp)
qed (unfold require_fresh_progression_def require_no_active_line_def Let_def, (intro keeps; simp)+)

lemma binding_keeps [keeps]: "keeps F (binding_verify de gh b)"
  unfolding binding_verify_def verify_anchor_def compare_def read_ref_def by (intro keeps)

lemma latest_keeps [keeps]:
  "keeps F (guard_capture sv de gh l tag)"
  "keeps F (guard_verify sv de gh g)"
  "keeps F (require_unchanged sv de gh g)"
  unfolding guard_capture_def guard_verify_def require_unchanged_def read_latest_def Let_def
  by (intro keeps)+

lemma evidence_keeps [keeps]:
  "keeps F (validate_original_run de gh source run_id attempt)"
  "keeps F (read_release_head_signature de gh pull head merge)"
  "keeps F (require_live_policy_main de gh sha)"
  "keeps F (require_ancestor_of_policy de gh source sha)"
  unfolding validate_original_run_def read_release_head_signature_def require_live_policy_main_def
    require_ancestor_of_policy_def Let_def
  by (intro keeps)+

lemma inspections_keep [keeps]:
  "keeps F (inspect_tag sv de gh spec)" "keeps F (inspect_release de gh spec)"
  unfolding inspect_tag_def require_exact_tag_object_def inspect_release_def Let_def by (intro keeps)+

lemma rebinds_keep [keeps]:
  "keeps F (spec_rebind de gh spec main)"
  "keeps F (context_rebind de gh cx)"
  "keeps F (verify_app_scope de gh slug)"
  unfolding spec_rebind_def context_rebind_def verify_app_scope_def Let_def by (intro keeps)+

end

text \<open>With a registry: a qualification and the wait for a publication write nothing.\<close>

locale registrar = reader os' P F gh for os' :: "'w os" and P F and gh :: "('w, 'j) transport" +
  fixes reg :: "'w registry"
  assumes keeps_registry [keeps]: "keeps F (rg_exact_version reg p ver)" "keeps F (rg_download reg p ver)"
begin

lemma archive_keeps [keeps]:
  "keeps F (require_archive t reg policy ver commit)"
  "keeps F (verify_published_source t' t reg cx v)"
  unfolding require_archive_def verify_published_source_def Let_def by (intro keeps)+

lemma registry_wait_keeps [keeps]:
  "keeps F (wait_for_registry os' reg ver)"
  "keeps F (await_publication t at os' root reg cx v)"
proof -
  have attempts: "keeps F (registry_attempts os' reg ver as)" for ver as
    by (induction as) (unfold registry_attempts.simps, (intro keeps; assumption)+)
  show wait: "keeps F (wait_for_registry os' reg ver)" for ver
    unfolding wait_for_registry_def by (intro keeps attempts)
  show "keeps F (await_publication t at os' root reg cx v)"
    unfolding await_publication_def Let_def by (intro keeps wait)
qed

lemma qualify_keeps [keeps]: "keeps F (qualify t at de os' root gh reg cx mode run_id attempt)"
proof -
  have "keeps F (qualify_mode de os' gh cx mode run_id attempt)" for mode
    by (cases mode; simp only: qualify_mode.simps qualify_recovery_def; intro keeps)
  then show ?thesis
    unfolding qualify_def qualify_release_def qualify_pull_def qualify_version_def qualify_commits_def
      qualify_registry_def qualify_forge_def verify_binding_def Let_def
    by (intro keeps; simp)
qed

end

text \<open>With a transport that keeps the property when it mutates: the finalizer.\<close>

locale publisher = registrar os' P F gh reg
  for os' :: "'w os" and P F and gh :: "('w, 'j) transport" and reg +
  assumes keeps_mutation [keeps]: "keeps F (t_mutate gh v p q)"
begin

lemma reconcile_keeps [keeps]:
  "keeps F (reconcile_tag sv de gh spec sha)"
  "keeps F (reconcile_release sv de gh spec tag_sha sha)"
  unfolding reconcile_tag_def reconcile_release_def create_release_def confirm_release_def expose_tag_def
    confirm_tag_def require_exact_tag_object_def mutate_def Let_def
  by (intro keeps)+

lemma finalize_keeps [keeps]: "keeps F (finalize t at de os' root gh reg cx v slug)"
  unfolding finalize_def Let_def by (intro keeps)

end

section \<open>Every command\<close>

text \<open>A request that changes what GitHub keeps: a POST other than a GraphQL query.\<close>

definition mutates :: "command \<Rightarrow> bool" where
  "mutates c \<longleftrightarrow> cm_program c = ''gh'' \<and> take 3 (cm_args c) = [''api'', ''--method'', ''POST''] \<and>
     cm_args c ! 7 \<noteq> ''graphql''"

lemma request_trusted: "\<not> invalid_request verb path \<Longrightarrow> trusted (request_command verb path payload)"
  by (auto simp: trusted_def github_request_def request_command_def Let_def invalid_request_def)

lemma request_mutates: "mutates (request_command verb path payload) \<longleftrightarrow> verb = ''POST'' \<and> path \<noteq> ''graphql''"
  by (auto simp: mutates_def request_command_def Let_def)

text \<open>The one command that writes to GitHub.\<close>

fun reconciles :: "task \<Rightarrow> bool" where
  "reconciles (Task_Github (FinalizeCommand args)) \<longleftrightarrow> fa_phase args = Reconcile"
| "reconciles _ \<longleftrightarrow> False"

text \<open>A machine on which every command runs that does not write to GitHub.\<close>

locale xtask_reader = shell_machine os' P F sh + release_machine os' P F
  for os' :: "'w os" and P F and sh :: "'w shell" +
  assumes trusting: "trusted c \<Longrightarrow> \<not> mutates c \<Longrightarrow> P (Bounded c input limits)"
    and inherited: "P (Inherited c)" and captured: "P (Captured c)"
begin

lemma request_keeps:
  assumes "\<And>input limits. \<not> invalid_request verb path \<Longrightarrow>
    P (Bounded (request_command verb path payload) input limits)"
  shows "keeps F (request os' verb path payload b)"
proof -
  have "keeps F (request_attempts os' verb path payload b n as prev)"
    if "\<not> invalid_request verb path" for n as prev
    by (induction as arbitrary: prev; simp only: request_attempts.simps Let_def;
        intro keeps keeps_output assms that; assumption)
  then show ?thesis
    unfolding request_def Let_def by (intro keeps; simp)
qed

lemma reads_keep [keeps]:
  "keeps F (gh_new os')"
  "keeps F (request os' ''GET'' path payload b)"
  "keeps F (request os' ''POST'' ''graphql'' payload b)"
proof -
  show "keeps F (gh_new os')"
    unfolding gh_new_def
    by (intro keeps keeps_output trusting) (simp_all add: trusted_def github_request_def mutates_def)
qed (intro request_keeps trusting request_trusted; simp add: request_mutates)+

sublocale gh: reader os' P F "gh_transport os' to_vec" for to_vec
proof unfold_locales
  show "keeps F (t_get_optional (gh_transport os' to_vec) p)" for p
    by (auto simp: gh_transport_def gh_get_optional_def intro!: keeps split: sum.split RequestError.split)
qed (simp_all add: gh_transport_def gh_graphql_def keeps)

text \<open>The crates.io client carries its budget beside the machine.\<close>

lemma account_keeps [keeps]: "keeps (\<lambda>s. F (fst s)) (account_response n)"
  by (auto simp: keeps_def account_response_def split: option.split)

lemma curl_keeps:
  assumes "keeps (\<lambda>s. F (fst s)) (f (curl_command args))"
  shows "keeps (\<lambda>s. F (fst s)) (bindE (beside (crates_io_request_command os' args)) f)"
  using assms keeps_sleep
  by (auto simp: keeps_def bindE_def beside_def crates_io_request_command_def modifyE_def okE_def)

lemma trusted_curl:
  assumes "starts_with url ''https://crates.io/api/v1/crates/''"
  shows "P (Bounded (curl_command (request_json_args url)) None limits)"
    and "P (Bounded (curl_command (download_args url)) None limits)"
  using assms
  by (auto simp: curl_command_def request_json_args_def download_args_def trusted_def crates_io_read_def
      mutates_def intro!: trusting)

lemma crates_keep [keeps]:
  assumes url: "starts_with url ''https://crates.io/api/v1/crates/''"
  shows "keeps (\<lambda>s. F (fst s)) (request_json_attempts os' url as prev)"
    and "keeps (\<lambda>s. F (fst s)) (download_attempts os' url as prev)"
proof -
  show "keeps (\<lambda>s. F (fst s)) (request_json_attempts os' url as prev)"
    by (induction as arbitrary: prev; simp only: request_json_attempts.simps Let_def;
        intro keeps curl_keeps keeps_output trusted_curl url account_keeps; assumption)
  show "keeps (\<lambda>s. F (fst s)) (download_attempts os' url as prev)"
    by (induction as arbitrary: prev; simp only: download_attempts.simps Let_def;
        intro keeps curl_keeps keeps_output trusted_curl url account_keeps; assumption)
qed

lemma with_crates_io_keeps:
  assumes "keeps (\<lambda>s. F (fst s)) m"
  shows "keeps F (with_crates_io m)"
  using assms [THEN keepsD, of "(_, crates_io_new)"]
  by (auto simp: keeps_def with_crates_io_def split: prod.splits)

lemma registry_keeps:
  "keeps (\<lambda>s. F (fst s)) (rg_exact_version (crates_io_registry os' de) p ver)"
  "keeps (\<lambda>s. F (fst s)) (rg_download (crates_io_registry os' de) p ver)"
  unfolding crates_io_registry_def registry.simps crates_exact_version_def request_json_def crates_download_def
  by (intro keeps; simp add: starts_with_iff)+

lemma beside_registrar:
  "registrar (beside_os os') P (\<lambda>s. F (fst s)) (beside_transport (gh_transport os' to_vec))
     (crates_io_registry os' de)"
  by (intro registrar.intro reader.intro release_machine.intro source_machine.intro listing_machine.intro
      beside_machine machine.axioms(1) [OF beside_machine] listing_machine_axioms.intro
      source_machine_axioms.intro release_machine_axioms.intro reader_axioms.intro registrar_axioms.intro
      listing reading asking editing registry_keeps)
    (simp_all add: beside_transport_def keeps_beside gh.keeps_reads)

lemmas beside_keeps = beside_registrar [THEN registrar.archive_keeps(1)]
  beside_registrar [THEN registrar.registry_wait_keeps(2)] beside_registrar [THEN registrar.qualify_keeps]

lemma start_keeps [keeps]: "keeps F (start t at js de os' root v repository)"
  unfolding start_def verify_packages_def Let_def
  by (intro keeps gh.keeps_reads gh.requests_keep gh.support_forge_keeps with_crates_io_keeps beside_keeps)

lemma rebind_keeps [keeps]: "keeps F (rebind t js os' root args)"
proof -
  have init: "keeps F (git os' root [''init'', ''--quiet''])" for root
    unfolding git_def by (intro keeps keeps_output trusting) (simp_all add: trusted_def mutates_def)
  have fetch: "keeps F (fetch os' root remote l)" for root remote l
    unfolding fetch_def
    by (intro keeps keeps_output trusting fetch_trusted) (simp add: mutates_def fetch_command_def Let_def)
  show ?thesis
    unfolding rebind_def rebind_scratch_def Let_def by (intro init fetch keeps; simp)
qed

lemma run_qualify_keeps: "keeps F (run_qualify t at js de os' root args)"
  unfolding run_qualify_def by (intro keeps with_crates_io_keeps beside_keeps)

lemma run_await_keeps: "fa_phase args = Await \<Longrightarrow> keeps F (run_finalize t at js de os' root args)"
  unfolding run_finalize_def
  by (simp only: FinalizationPhase.case) (intro keeps with_crates_io_keeps beside_keeps)

lemma reading_task_keeps:
  assumes "\<not> reconciles command"
  shows "keeps F (task_result t at js de os' sh root command)"
proof (cases command)
  case (Task_Github g)
  with assms show ?thesis
    by (cases g; cases "fa_phase (case g of FinalizeCommand args \<Rightarrow> args)")
      (auto intro!: keeps run_qualify_keeps run_await_keeps)
qed (auto intro!: keeps ci_run_keeps coverage_run_keeps inherited captured)

end

locale xtask_machine = xtask_reader +
  assumes posting: "trusted c \<Longrightarrow> P (Bounded c input limits)"
begin

lemma beside_publisher:
  "publisher (beside_os os') P (\<lambda>s. F (fst s)) (beside_transport (gh_transport os' to_vec))
     (crates_io_registry os' de)"
  by (intro publisher.intro beside_registrar publisher_axioms.intro)
    (simp add: beside_transport_def gh_transport_def gh_mutate_def, intro keeps request_keeps posting request_trusted)

lemma run_finalize_keeps: "keeps F (run_finalize t at js de os' root args)"
  unfolding run_finalize_def
  by (cases "fa_phase args"; simp only: FinalizationPhase.case;
      intro keeps with_crates_io_keeps beside_keeps beside_publisher [THEN publisher.finalize_keeps])

lemma task_keeps: "keeps F (task_result t at js de os' sh root command)"
  by (cases "reconciles command")
    (auto intro: reading_task_keeps run_finalize_keeps elim!: reconciles.elims)

end

text \<open>What the machine keeps under the command, the whole program keeps.\<close>

context machine
begin

lemma xtask_run_keeps:
  assumes "keeps F (task_result t at js de os' sh root command)" and "F w"
  shows "F (snd (xtask_run t at js de os' sh root command w))"
  using keepsD [OF assms(1)] assms(2) keeps_print
  by (auto simp: xtask_run_def split: prod.split sum.split)

end

end
