(* ===== verification/Loops.thy ===== *)
theory Loops
  imports Runtime
begin

text \<open>
  Effects that may not return: Rust's \<open>loop\<close> without a bound of its own. A \<open>run\<close> is an effect whose
  value is \<open>None\<close> when the code never returns. \<open>valid\<close> and \<open>valid_run\<close> are Hoare triples for the two
  kinds of effects, with one postcondition for errors and one for results; the loop rules give them
  from an invariant, and termination from a well-founded relation.
\<close>

section \<open>Effects that may not return\<close>

type_synonym ('w, 'e, 'a) run = "'w \<Rightarrow> (('e + 'a) \<times> 'w) option"

definition runE :: "('w, 'e, 'a) eff \<Rightarrow> ('w, 'e, 'a) run" where
  "runE m = (\<lambda>w. Some (m w))"

definition bindP :: "('w, 'e, 'a) run \<Rightarrow> ('a \<Rightarrow> ('w, 'e, 'b) run) \<Rightarrow> ('w, 'e, 'b) run" where
  "bindP m f = (\<lambda>w. case m w of
     None \<Rightarrow> None
   | Some (Inl e, w') \<Rightarrow> Some (Inl e, w')
   | Some (Inr x, w') \<Rightarrow> f x w')"

definition attemptP :: "('w, 'e, 'a) run \<Rightarrow> ('w, 'f, 'e + 'a) run" where
  "attemptP m = (\<lambda>w. map_option (\<lambda>(r, w'). (Inr r, w')) (m w))"

text \<open>
  \<open>loop\<close> whose body either goes on with a new value of the loop's variables, or breaks with a result,
  or returns an error.
\<close>

partial_function (option) loopP ::
  "('s \<Rightarrow> ('w, 'e, 's + 'a) eff) \<Rightarrow> 's \<Rightarrow> 'w \<Rightarrow> (('e + 'a) \<times> 'w) option" where
  "loopP body s w =
     (case body s w of
        (Inl e, w') \<Rightarrow> Some (Inl e, w')
      | (Inr (Inl s'), w') \<Rightarrow> loopP body s' w'
      | (Inr (Inr a), w') \<Rightarrow> Some (Inr a, w'))"

declare loopP.simps [code]

section \<open>Reading and writing the state\<close>

text \<open>An operation that answers and never fails, and one whose failure is ignored.\<close>

definition answerE :: "('w \<Rightarrow> 'a \<times> 'w) \<Rightarrow> ('w, 'e, 'a) eff" where
  "answerE f = (\<lambda>w. case f w of (x, w') \<Rightarrow> (Inr x, w'))"

definition ignoreE :: "('w, 'e, 'a) eff \<Rightarrow> ('w, 'f, unit) eff" where
  "ignoreE m = (\<lambda>w. (Inr (), snd (m w)))"

text \<open>What runs on the error path only.\<close>

definition on_errorE :: "('w, 'e, 'a) eff \<Rightarrow> ('w \<Rightarrow> 'w) \<Rightarrow> ('w, 'e, 'a) eff" where
  "on_errorE m f = (\<lambda>w. case m w of (Inl e, w') \<Rightarrow> (Inl e, f w') | (Inr x, w') \<Rightarrow> (Inr x, w'))"

lemma answerE_Inr [res_simps]: "answerE f w = (Inr x, w') \<longleftrightarrow> f w = (x, w')"
  by (auto simp: answerE_def split: prod.split)

section \<open>Triples\<close>

definition outcome :: "('e \<Rightarrow> 'w \<Rightarrow> bool) \<Rightarrow> ('a \<Rightarrow> 'w \<Rightarrow> bool) \<Rightarrow> ('e + 'a) \<times> 'w \<Rightarrow> bool" where
  "outcome E B q \<longleftrightarrow> (case q of (Inl e, w) \<Rightarrow> E e w | (Inr x, w) \<Rightarrow> B x w)"

definition valid ::
  "('w \<Rightarrow> bool) \<Rightarrow> ('w, 'e, 'a) eff \<Rightarrow> ('e \<Rightarrow> 'w \<Rightarrow> bool) \<Rightarrow> ('a \<Rightarrow> 'w \<Rightarrow> bool) \<Rightarrow> bool" where
  "valid A m E B \<longleftrightarrow> (\<forall>w. A w \<longrightarrow> outcome E B (m w))"

definition valid_run ::
  "('w \<Rightarrow> bool) \<Rightarrow> ('w, 'e, 'a) run \<Rightarrow> ('e \<Rightarrow> 'w \<Rightarrow> bool) \<Rightarrow> ('a \<Rightarrow> 'w \<Rightarrow> bool) \<Rightarrow> bool" where
  "valid_run A m E B \<longleftrightarrow> (\<forall>w q. A w \<longrightarrow> m w = Some q \<longrightarrow> outcome E B q)"

lemma outcome_simps [simp]:
  "outcome E B (Inl e, w) = E e w"
  "outcome E B (Inr x, w) = B x w"
  by (simp_all add: outcome_def)

lemma outcome_mono:
  "outcome E B q \<Longrightarrow> (\<And>e w. E e w \<Longrightarrow> E' e w) \<Longrightarrow> (\<And>x w. B x w \<Longrightarrow> B' x w) \<Longrightarrow> outcome E' B' q"
  by (cases q; cases "fst q") auto

lemma validD: "valid A m E B \<Longrightarrow> A w \<Longrightarrow> outcome E B (m w)"
  unfolding valid_def by blast

lemma valid_runD: "valid_run A m E B \<Longrightarrow> A w \<Longrightarrow> m w = Some q \<Longrightarrow> outcome E B q"
  unfolding valid_run_def by blast

lemma validI:
  "(\<And>w r w'. A w \<Longrightarrow> m w = (r, w') \<Longrightarrow> outcome E B (r, w')) \<Longrightarrow> valid A m E B"
  unfolding valid_def by (metis surj_pair)

lemma valid_step: "valid A m E B \<Longrightarrow> A w \<Longrightarrow> m w = (r, w') \<Longrightarrow> outcome E B (r, w')"
  unfolding valid_def by metis

lemma valid_weaken:
  assumes "valid A m E B" and "\<And>w. A' w \<Longrightarrow> A w" and "\<And>e w. E e w \<Longrightarrow> E' e w"
    and "\<And>x w. B x w \<Longrightarrow> B' x w"
  shows "valid A' m E' B'"
  unfolding valid_def
proof (intro allI impI)
  fix w
  assume "A' w"
  with assms(1,2) have "outcome E B (m w)" by (blast dest: validD)
  then show "outcome E' B' (m w)" by (rule outcome_mono) (fact assms)+
qed

lemma valid_run_weaken:
  assumes "valid_run A m E B" and "\<And>w. A' w \<Longrightarrow> A w" and "\<And>e w. E e w \<Longrightarrow> E' e w"
    and "\<And>x w. B x w \<Longrightarrow> B' x w"
  shows "valid_run A' m E' B'"
  unfolding valid_run_def
proof (intro allI impI)
  fix w q
  assume "A' w" and "m w = Some q"
  with assms(1,2) have "outcome E B q" by (blast dest: valid_runD)
  then show "outcome E' B' q" by (rule outcome_mono) (fact assms)+
qed

lemma valid_bindE:
  assumes "valid A m E B" and "\<And>x. valid (B x) (f x) E C"
  shows "valid A (bindE m f) E C"
  unfolding valid_def
proof (intro allI impI)
  fix w
  assume "A w"
  with assms(1) have "outcome E B (m w)" by (simp add: valid_def)
  with assms(2) show "outcome E C (bindE m f w)"
    by (cases "m w"; cases "fst (m w)") (auto dest: validD)
qed

lemma valid_bindE_pair:
  assumes "valid A m E (\<lambda>(x, y). B x y)" and "\<And>x y. valid (B x y) (f x y) E C"
  shows "valid A (bindE m (\<lambda>(x, y). f x y)) E C"
  by (rule valid_bindE [OF assms(1)]) (simp add: assms(2) split: prod.split)

lemma valid_run_bindP:
  assumes "valid_run A m E B" and "\<And>x. valid_run (B x) (f x) E C"
  shows "valid_run A (bindP m f) E C"
  unfolding valid_run_def
proof (intro allI impI)
  fix w q
  assume "A w" and q: "bindP m f w = Some q"
  then obtain p where p: "m w = Some p" by (auto simp: bindP_def split: option.splits)
  with assms(1) \<open>A w\<close> have "outcome E B p" by (rule valid_runD)
  with assms(2) p q show "outcome E C q"
    by (cases p; cases "fst p") (auto simp: bindP_def dest: valid_runD)
qed

lemma valid_runE: "valid A m E B \<Longrightarrow> valid_run A (runE m) E B"
  by (auto simp: valid_def valid_run_def runE_def)

lemma valid_attemptP:
  "valid_run A m E B \<Longrightarrow> valid_run A (attemptP m) F (\<lambda>r w. outcome E B (r, w))"
  unfolding valid_run_def attemptP_def by fastforce

lemma valid_attemptE:
  "valid A m E B \<Longrightarrow> valid A (attemptE m) F (\<lambda>r w. outcome E B (r, w))"
  by (rule validI) (auto simp: attemptE_def split: prod.splits dest: valid_step)

lemma valid_map_errE:
  "valid A m (\<lambda>e. E (f e)) B \<Longrightarrow> valid A (map_errE f m) E B"
  by (rule validI)
    (auto simp: map_errE_def map_err_def outcome_def split: prod.splits sum.splits
      dest!: valid_step)

lemma valid_if:
  "(b \<Longrightarrow> valid A m E B) \<Longrightarrow> (\<not> b \<Longrightarrow> valid A n E B) \<Longrightarrow> valid A (if b then m else n) E B"
  by simp

lemma valid_basic:
  "(\<And>w. A w \<Longrightarrow> B x w) \<Longrightarrow> valid A (okE x) E B"
  "(\<And>w. A w \<Longrightarrow> E e w) \<Longrightarrow> valid A (failE e) E B"
  "(\<And>w. A w \<Longrightarrow> outcome E B (r, w)) \<Longrightarrow> valid A (liftE r) E B"
  "(\<And>w. A w \<Longrightarrow> b \<Longrightarrow> E e w) \<Longrightarrow> (\<And>w. A w \<Longrightarrow> \<not> b \<Longrightarrow> C () w) \<Longrightarrow> valid A (fail_ifE b e) E C"
  by (simp_all add: valid_def okE_def failE_def liftE_def fail_ifE_def fail_if_def)

lemma valid_modifyE: "(\<And>w. A w \<Longrightarrow> B () (f w)) \<Longrightarrow> valid A (modifyE f) E B"
  by (simp add: valid_def modifyE_def)

lemma valid_assume: "(b \<Longrightarrow> valid A m E B) \<Longrightarrow> valid (\<lambda>w. b \<and> A w) m E B"
  by (auto simp: valid_def)

lemma bindP_liftE [simp]:
  "bindP (runE (liftE (Inr x))) f = f x"
  "bindP (runE (liftE (Inl e))) f = runE (failE e)"
  by (simp_all add: bindP_def runE_def liftE_def failE_def)

section \<open>Loops\<close>

lemma loopP_valid:
  assumes "\<And>s. valid (I s) (body s) E (\<lambda>r w. case r of Inl s' \<Rightarrow> I s' w | Inr a \<Rightarrow> B a w)"
  shows "valid_run (I s) (loopP body s) E B"
proof -
  have "I s w \<longrightarrow> outcome E B q" if "loopP body s w = Some q" for s w q
  proof (rule loopP.raw_induct [OF _ that, where P = "\<lambda>b s w q. b = body \<longrightarrow> I s w \<longrightarrow> outcome E B q",
        THEN mp, OF _ refl])
    fix again b s w q
    assume ih: "\<And>b s w q. again b s w = Some q \<Longrightarrow> b = body \<longrightarrow> I s w \<longrightarrow> outcome E B q"
      and q: "(case b s w of
        (Inl e, w') \<Rightarrow> Some (Inl e, w')
      | (Inr (Inl s'), w') \<Rightarrow> again b s' w'
      | (Inr (Inr a), w') \<Rightarrow> Some (Inr a, w')) = Some q"
    show "b = body \<longrightarrow> I s w \<longrightarrow> outcome E B q"
    proof (intro impI)
      assume "b = body" and "I s w"
      from assms \<open>I s w\<close>
      have "outcome E (\<lambda>r w. case r of Inl s' \<Rightarrow> I s' w | Inr a \<Rightarrow> B a w) (body s w)"
        by (rule validD)
      with q ih \<open>b = body\<close> show "outcome E B q"
        by (cases "body s w") (auto split: sum.splits)
    qed
  qed
  then show ?thesis unfolding valid_run_def by blast
qed

lemma loopP_total:
  assumes "wf R" and "I s w"
    and "\<And>s w s' w'. I s w \<Longrightarrow> body s w = (Inr (Inl s'), w') \<Longrightarrow> I s' w' \<and> ((s', w'), (s, w)) \<in> R"
  shows "\<exists>q. loopP body s w = Some q"
proof -
  have "I (fst p) (snd p) \<longrightarrow> (\<exists>q. loopP body (fst p) (snd p) = Some q)" for p
    using assms(1)
  proof (induction p rule: wf_induct_rule)
    case (less p)
    show ?case
    proof
      assume i: "I (fst p) (snd p)"
      show "\<exists>q. loopP body (fst p) (snd p) = Some q"
      proof (cases "\<exists>s' w'. body (fst p) (snd p) = (Inr (Inl s'), w')")
        case True
        then obtain s' w' where b: "body (fst p) (snd p) = (Inr (Inl s'), w')" by blast
        from assms(3) [OF i b] have "I s' w'" "((s', w'), p) \<in> R" by simp_all
        with less [of "(s', w')"] obtain q where "loopP body s' w' = Some q" by auto
        with b show ?thesis by (simp add: loopP.simps)
      next
        case False
        then show ?thesis
          by (cases "body (fst p) (snd p)") (auto simp: loopP.simps split: sum.splits)
      qed
    qed
  qed
  with assms(2) show ?thesis by (metis fst_conv snd_conv)
qed

text \<open>A run that returns from every state with \<open>A\<close>.\<close>

definition returns :: "('w \<Rightarrow> bool) \<Rightarrow> ('w, 'e, 'a) run \<Rightarrow> bool" where
  "returns A m \<longleftrightarrow> (\<forall>w. A w \<longrightarrow> m w \<noteq> None)"

lemma returns_runE: "returns A (runE m)"
  by (simp add: returns_def runE_def)

lemma returns_bindP:
  assumes "returns A m" and "valid_run A m (\<lambda>_ _. True) B" and "\<And>x. returns (B x) (f x)"
  shows "returns A (bindP m f)"
  unfolding returns_def
proof (intro allI impI)
  fix w
  assume "A w"
  with assms(1) obtain p where p: "m w = Some p" by (auto simp: returns_def)
  with assms(2) \<open>A w\<close> have "outcome (\<lambda>_ _. True) B p" by (rule valid_runD)
  with assms(3) p show "bindP m f w \<noteq> None"
    by (cases p; cases "fst p") (auto simp: bindP_def returns_def)
qed

lemma returns_attemptP: "returns A m \<Longrightarrow> returns A (attemptP m)"
  by (auto simp: returns_def attemptP_def)

section \<open>Logs of runs\<close>

text \<open>
  An operation that records events, newest first, beside its effect, and assertions about the log that
  an effect preserves.
\<close>

definition logging ::
  "('w, 'e, 'a) eff \<Rightarrow> ('e + 'a \<Rightarrow> 'c list) \<Rightarrow> ('w \<times> 'c list, 'e, 'a) eff" where
  "logging m f = (\<lambda>(w, l). case m w of (r, w') \<Rightarrow> (r, (w', f r @ l)))"

definition on_ok :: "('a \<Rightarrow> 'c list) \<Rightarrow> 'e + 'a \<Rightarrow> 'c list" where
  "on_ok f r = (case r of Inl _ \<Rightarrow> [] | Inr x \<Rightarrow> f x)"

abbreviation preserves ::
  "('c list \<Rightarrow> bool) \<Rightarrow> ('w \<times> 'c list, 'e, 'a) eff \<Rightarrow> bool" where
  "preserves F m \<equiv> valid (\<lambda>w. F (snd w)) m (\<lambda>_ w. F (snd w)) (\<lambda>_ w. F (snd w))"

abbreviation preserves_run ::
  "('c list \<Rightarrow> bool) \<Rightarrow> ('w \<times> 'c list, 'e, 'a) run \<Rightarrow> bool" where
  "preserves_run F m \<equiv> valid_run (\<lambda>w. F (snd w)) m (\<lambda>_ w. F (snd w)) (\<lambda>_ w. F (snd w))"

lemma preserves_basic [intro, simp]:
  "preserves F (okE x)" "preserves F (failE e)" "preserves F (liftE q)" "preserves F (fail_ifE b e)"
  "preserves F (beside m)"
  unfolding valid_def okE_def failE_def liftE_def fail_ifE_def fail_if_def beside_def outcome_def
  by (auto split: sum.split prod.split)

lemma preserves_logging:
  "(\<And>r l. F l \<Longrightarrow> F (f r @ l)) \<Longrightarrow> preserves F (logging m f)"
  unfolding valid_def logging_def outcome_def by (auto split: sum.split prod.split)

lemma preserves_bindE: "preserves F m \<Longrightarrow> (\<And>x. preserves F (f x)) \<Longrightarrow> preserves F (bindE m f)"
  by (rule valid_bindE)

lemma preserves_map_errE: "preserves F m \<Longrightarrow> preserves F (map_errE f m)"
  by (rule valid_map_errE)

lemma preserves_attemptE: "preserves F m \<Longrightarrow> preserves F (attemptE m)"
  by (rule validI)
    (auto simp: attemptE_def outcome_def split: prod.splits sum.splits dest!: valid_step)

lemma preserves_ignoreE: "preserves F m \<Longrightarrow> preserves F (ignoreE m)"
  by (rule validI, drule valid_step, assumption, rule surjective_pairing)
    (auto simp: ignoreE_def outcome_def split: sum.splits)

lemma preserves_case:
  "preserves F m \<Longrightarrow> (\<And>y. preserves F (f y)) \<Longrightarrow>
   preserves F (case x of None \<Rightarrow> m | Some y \<Rightarrow> f y)"
  "(\<And>e. preserves F (g e)) \<Longrightarrow> (\<And>y. preserves F (f y)) \<Longrightarrow>
   preserves F (case z of Inl e \<Rightarrow> g e | Inr y \<Rightarrow> f y)"
  by (cases x; simp) (cases z; simp)

lemma preserves_forE: "(\<And>x. preserves F (f x)) \<Longrightarrow> preserves F (forE xs f)"
  by (induction xs) (auto intro: preserves_bindE)

lemma preserves_loopP: "(\<And>s. preserves F (body s)) \<Longrightarrow> preserves_run F (loopP body s)"
  by (rule loopP_valid [where I = "\<lambda>_ w. F (snd w)"])
    (rule valid_weaken [where A = "\<lambda>w. F (snd w)"], auto split: sum.split)

end
