(* ===== verification/BoundedProcess.thy ===== *)
theory BoundedProcess
  imports Loops PackageContent
begin

text \<open>
  Bounded subprocess-tree execution, \<open>xtask/src/bounded_process.rs\<close> on Linux: what implements the
  field \<open>os_output\<close> of the machine the other components run on. The system calls are the fields of a
  record \<open>kernel\<close>; the loops have no bound of their own, so the operations are runs.
\<close>

section \<open>Limits\<close>

text \<open>Durations and instants are numbers of nanoseconds.\<close>

definition PIPE_CLOSE_GRACE :: nat where
  "PIPE_CLOSE_GRACE = 250 * 10 ^ 6"

definition POST_CANCEL_TIMEOUT :: nat where
  "POST_CANCEL_TIMEOUT = 2 * 10 ^ 9"

definition POLL_INTERVAL :: nat where
  "POLL_INTERVAL = 10 * 10 ^ 6"

definition MAX_INPUT_BYTES :: nat where
  "MAX_INPUT_BYTES = 4 * 1024 * 1024"

text \<open>\<open>usize\<close> has 64 bits.\<close>

definition usize_add :: "nat \<Rightarrow> nat \<Rightarrow> nat option" where
  "usize_add a b = (if a + b < 2 ^ 64 then Some (a + b) else None)"

definition validate_limits :: "output_limits \<Rightarrow> bytes option \<Rightarrow> io_error + unit" where
  "validate_limits limits input =
     bindR (ok_or (usize_add (ol_stdout limits) 1)
       \<lparr>ie_kind = IO_InvalidInput, ie_text = ''invalid stdout limit''\<rparr>) (\<lambda>_.
     bindR (ok_or (usize_add (ol_stderr limits) 1)
       \<lparr>ie_kind = IO_InvalidInput, ie_text = ''invalid stderr limit''\<rparr>) (\<lambda>_.
     fail_if (case input of None \<Rightarrow> False | Some b \<Rightarrow> MAX_INPUT_BYTES < length b)
       \<lparr>ie_kind = IO_InvalidInput, ie_text = ''subprocess stdin exceeded its ''
          @ show_nat MAX_INPUT_BYTES @ ''-byte limit''\<rparr>))"

section \<open>The kernel\<close>

datatype stream = Stdout | Stderr

fun stream_label :: "stream \<Rightarrow> string" where
  "stream_label Stdout = ''stdout''"
| "stream_label Stderr = ''stderr''"

fun stream_limit :: "stream \<Rightarrow> output_limits \<Rightarrow> nat" where
  "stream_limit Stdout limits = ol_stdout limits"
| "stream_limit Stderr limits = ol_stderr limits"

text \<open>The parent's ends of the child's three pipes, and an exit status: success and \<open>Display\<close>.\<close>

datatype pipe = Out stream | In

type_synonym exit_status = "bool \<times> string"

text \<open>
  The system calls and standard library operations, on the one child of a call. \<open>kn_spawn\<close> starts the
  command in the process group \<open>setpgid(0, 0)\<close> makes for it, with both outputs piped and the input
  piped or null, and gives its process ID. \<open>kn_read\<close> reads at most the given number of bytes and
  gives none at the end of the file. \<open>kn_lock\<close> and \<open>kn_unlock\<close> are the process-wide lock,
  \<open>kn_read_dir\<close> gives the entries of a directory stream (an error, or the name when it is UTF-8),
  \<open>kn_pid_from_raw\<close> is \<open>Pid::from_raw\<close>, and \<open>kn_getpgid None\<close> is the caller's group.
\<close>

record 'w kernel =
  kn_spawn :: "command \<Rightarrow> bool \<Rightarrow> ('w, io_error, int) eff"
  kn_getfl :: "pipe \<Rightarrow> ('w, io_error, u32) eff"
  kn_setfl :: "pipe \<Rightarrow> u32 \<Rightarrow> ('w, io_error, unit) eff"
  kn_nonblock :: u32
  kn_read :: "stream \<Rightarrow> nat \<Rightarrow> ('w, io_error, bytes) eff"
  kn_write :: "bytes \<Rightarrow> ('w, io_error, nat) eff"
  kn_try_wait :: "('w, io_error, exit_status option) eff"
  kn_kill_child :: "('w, io_error, unit) eff"
  kn_kill_group :: "int \<Rightarrow> ('w, io_error, unit) eff"
  kn_now :: "'w \<Rightarrow> nat \<times> 'w"
  kn_sleep :: "nat \<Rightarrow> 'w \<Rightarrow> 'w"
  kn_lock :: "('w, unit, unit) eff"
  kn_unlock :: "'w \<Rightarrow> 'w"
  kn_child_subreaper :: "('w, io_error, int option) eff"
  kn_set_child_subreaper :: "int option \<Rightarrow> ('w, io_error, unit) eff"
  kn_own_pid :: "'w \<Rightarrow> nat \<times> 'w"
  kn_read_dir :: "string \<Rightarrow> ('w, io_error, (io_error + string option) list) eff"
  kn_read_to_string :: "string \<Rightarrow> ('w, io_error, string) eff"
  kn_getpgid :: "int option \<Rightarrow> ('w, io_error, int) eff"
  kn_pid_from_raw :: "int \<Rightarrow> int option"
  kn_kill_process :: "int \<Rightarrow> ('w, io_error, unit) eff"
  kn_waitpid :: "int \<Rightarrow> ('w, io_error, unit) eff"

section \<open>Captures\<close>

text \<open>\<open>cp_open\<close> says whether the reader is still there.\<close>

record capture =
  cp_open :: bool
  cp_bytes :: bytes
  cp_limit :: nat
  cp_stream :: stream

definition capture_new :: "stream \<Rightarrow> nat \<Rightarrow> io_error + capture" where
  "capture_new s limit =
     bindR (ok_or (usize_add limit 1)
       \<lparr>ie_kind = IO_InvalidInput, ie_text = ''invalid output limit''\<rparr>) (\<lambda>_.
     Inr \<lparr>cp_open = True, cp_bytes = [], cp_limit = limit, cp_stream = s\<rparr>)"

definition complete :: "capture \<Rightarrow> bool" where
  "complete c \<longleftrightarrow> \<not> cp_open c"

definition exceeded :: "capture \<Rightarrow> bool" where
  "exceeded c \<longleftrightarrow> cp_limit c < length (cp_bytes c)"

definition sentinel :: "capture \<Rightarrow> nat" where
  "sentinel c = cp_limit c + 1"

definition wanted :: "capture \<Rightarrow> nat" where
  "wanted c = min (sentinel c - length (cp_bytes c)) 8192"

text \<open>The loop of \<open>drain\<close>: every turn but the last makes the capture longer.\<close>

function drain_loop :: "'w kernel \<Rightarrow> capture \<Rightarrow> bool \<Rightarrow> ('w, io_error, bool \<times> capture) eff" where
  "drain_loop k c progressed w =
     (case kn_read k (cp_stream c) (wanted c) w of
        (Inl e, w') \<Rightarrow>
          (if ie_kind e = IO_WouldBlock then Inr (progressed, c)
           else Inl (e\<lparr>ie_text := ''read '' @ stream_label (cp_stream c) @ '': '' @ ie_text e\<rparr>), w')
      | (Inr chunk, w') \<Rightarrow>
          if chunk = [] then (Inr (True, c\<lparr>cp_open := False\<rparr>), w')
          else
            let c' = c\<lparr>cp_bytes := cp_bytes c @ chunk\<rparr>
            in if sentinel c \<le> length (cp_bytes c') then (Inr (True, c'), w')
               else drain_loop k c' True w')"
  by pat_completeness auto
termination
  by (relation "measure (\<lambda>(k, c, progressed, w). sentinel c - length (cp_bytes c))")
    (auto simp: sentinel_def neq_Nil_conv)

declare drain_loop.simps [simp del]

definition drain :: "'w kernel \<Rightarrow> capture \<Rightarrow> ('w, io_error, bool \<times> capture) eff" where
  "drain k c =
     (if \<not> cp_open c then okE (False, c)
      else if sentinel c \<le> length (cp_bytes c) then okE (False, c)
      else drain_loop k c False)"

section \<open>Input\<close>

text \<open>The state of the input: whether the writer is still there, and how much was accepted.\<close>

function write_loop ::
  "'w kernel \<Rightarrow> bytes \<Rightarrow> nat \<Rightarrow> bool \<Rightarrow> ('w, io_error, bool \<times> bool \<times> nat) eff" where
  "write_loop k input offset progressed w =
     (if length input \<le> offset then (Inr (True, False, offset), w)
      else case kn_write k (drop offset input) w of
        (Inl e, w') \<Rightarrow>
          (if ie_kind e = IO_WouldBlock then Inr (progressed, True, offset)
           else if ie_kind e = IO_BrokenPipe then Inr (True, False, offset)
           else Inl (e\<lparr>ie_text := ''write subprocess stdin: '' @ ie_text e\<rparr>), w')
      | (Inr n, w') \<Rightarrow>
          if n = 0 then (Inl \<lparr>ie_kind = IO_WriteZero,
            ie_text = ''subprocess stdin stopped accepting input''\<rparr>, w')
          else write_loop k input (offset + n) True w')"
  by pat_completeness auto
termination
  by (relation "measure (\<lambda>(k, input, offset, progressed, w). length input - offset)") auto

declare write_loop.simps [simp del]

definition write_input ::
  "'w kernel \<Rightarrow> bytes \<Rightarrow> bool \<Rightarrow> nat \<Rightarrow> ('w, io_error, bool \<times> bool \<times> nat) eff" where
  "write_input k input writer offset =
     (if writer then write_loop k input offset False else okE (False, False, offset))"

section \<open>Supervision\<close>

record supervisor =
  su_stdout :: capture
  su_stderr :: capture
  su_stdin :: bool
  su_offset :: nat
  su_status :: "exit_status option"
  su_exit :: "nat option"

text \<open>One turn of the loop of \<open>output_inner\<close>: what moves data, the two limits, the child's status.\<close>

definition pump :: "'w kernel \<Rightarrow> bytes \<Rightarrow> supervisor \<Rightarrow> ('w, io_error, bool \<times> supervisor) eff" where
  "pump k input st =
     bindE (drain k (su_stdout st)) (\<lambda>(p, out).
     bindE (drain k (su_stderr st)) (\<lambda>(q, err).
     bindE (write_input k input (su_stdin st) (su_offset st)) (\<lambda>(r, writer, offset).
     okE (p \<or> q \<or> r,
       st\<lparr>su_stdout := out, su_stderr := err, su_stdin := writer, su_offset := offset\<rparr>))))"

lemma pump_InrE:
  assumes "pump k input st w = (Inr (p, st'), w')"
  obtains a out w1 b err w2 c writer offset where
    "drain k (su_stdout st) w = (Inr (a, out), w1)"
    "drain k (su_stderr st) w1 = (Inr (b, err), w2)"
    "write_input k input (su_stdin st) (su_offset st) w2 = (Inr (c, writer, offset), w')"
    "st' = st\<lparr>su_stdout := out, su_stderr := err, su_stdin := writer, su_offset := offset\<rparr>"
    "p = (a \<or> b \<or> c)"
proof -
  from assms obtain a out w1 where 1: "drain k (su_stdout st) w = (Inr (a, out), w1)" and
      r1: "bindE (drain k (su_stderr st)) (\<lambda>(q, err).
         bindE (write_input k input (su_stdin st) (su_offset st)) (\<lambda>(r, writer, offset).
         okE (a \<or> q \<or> r, st\<lparr>su_stdout := out, su_stderr := err, su_stdin := writer,
           su_offset := offset\<rparr>))) w1 = (Inr (p, st'), w')"
    unfolding pump_def by (rule bindE_pairE)
  from r1 obtain b err w2 where 2: "drain k (su_stderr st) w1 = (Inr (b, err), w2)" and
      r2: "bindE (write_input k input (su_stdin st) (su_offset st)) (\<lambda>(r, writer, offset).
         okE (a \<or> b \<or> r, st\<lparr>su_stdout := out, su_stderr := err, su_stdin := writer,
           su_offset := offset\<rparr>)) w2 = (Inr (p, st'), w')" by (rule bindE_pairE)
  from r2 obtain c writer offset where
      3: "write_input k input (su_stdin st) (su_offset st) w2 = (Inr (c, writer, offset), w')"
      and st': "st' = st\<lparr>su_stdout := out, su_stderr := err, su_stdin := writer, su_offset := offset\<rparr>"
      and p: "p = (a \<or> b \<or> c)"
    by (rule bindE_pairE) auto
  from 1 2 3 st' p show thesis by (rule that)
qed

definition check_limits :: "string \<Rightarrow> output_limits \<Rightarrow> supervisor \<Rightarrow> io_error + unit" where
  "check_limits program limits st =
     forR [su_stdout st, su_stderr st] (\<lambda>c. fail_if (exceeded c)
       \<lparr>ie_kind = IO_InvalidData, ie_text = program @ '' '' @ stream_label (cp_stream c)
          @ '' exceeded its '' @ show_nat (stream_limit (cp_stream c) limits) @ ''-byte limit''\<rparr>)"

definition status_poll ::
  "string \<Rightarrow> ('w, io_error, exit_status option) eff \<Rightarrow> ('w, io_error, exit_status option) eff" where
  "status_poll program =
     map_errE (\<lambda>e. e\<lparr>ie_text := ''poll '' @ program @ '' subprocess status: '' @ ie_text e\<rparr>)"

definition poll_status ::
  "'w kernel \<Rightarrow> ('w, io_error, exit_status option) eff \<Rightarrow> string \<Rightarrow> supervisor \<Rightarrow>
   ('w, io_error, bool \<times> supervisor) eff" where
  "poll_status k poll program st =
     (if su_status st \<noteq> None then okE (False, st)
      else bindE (status_poll program poll) (\<lambda>answer. case answer of
        None \<Rightarrow> okE (False, st)
      | Some reaped \<Rightarrow> bindE (answerE (kn_now k)) (\<lambda>now.
          okE (True, st\<lparr>su_status := Some reaped, su_exit := Some now\<rparr>))))"

definition grace_over :: "'w kernel \<Rightarrow> supervisor \<Rightarrow> ('w, 'e, bool) eff" where
  "grace_over k st = (case su_exit st of
     None \<Rightarrow> okE False
   | Some started \<Rightarrow> bindE (answerE (kn_now k)) (\<lambda>now. okE (PIPE_CLOSE_GRACE \<le> now - started)))"

definition supervise_step ::
  "'w kernel \<Rightarrow> ('w, io_error, exit_status option) eff \<Rightarrow> string \<Rightarrow> output_limits \<Rightarrow> bytes \<Rightarrow>
   supervisor \<Rightarrow> ('w, io_error, bool \<times> supervisor) eff" where
  "supervise_step k poll program limits input st =
     bindE (pump k input st) (\<lambda>(p, st1).
     bindE (liftE (check_limits program limits st1)) (\<lambda>_.
     bindE (poll_status k poll program st1) (\<lambda>(q, st2).
     okE (p \<or> q, st2))))"

definition finished :: "supervisor \<Rightarrow> bool" where
  "finished st \<longleftrightarrow> su_status st \<noteq> None \<and> complete (su_stdout st) \<and> complete (su_stderr st)"

text \<open>The end of a turn; an error leaves the loop with the status polled so far.\<close>

definition settle ::
  "'w kernel \<Rightarrow> string \<Rightarrow> bool \<Rightarrow> supervisor \<Rightarrow>
   ('w, io_error \<times> exit_status option, supervisor + supervisor) eff" where
  "settle k program progressed st =
     (if finished st then okE (Inr st)
      else bindE (grace_over k st) (\<lambda>over.
        if over then failE (\<lparr>ie_kind = IO_TimedOut, ie_text = program
          @ '' descendants retained output pipes after the direct child exited''\<rparr>, su_status st)
        else bindE (if progressed then okE () else modifyE (kn_sleep k POLL_INTERVAL)) (\<lambda>_.
          okE (Inl st))))"

definition supervise_turn ::
  "'w kernel \<Rightarrow> ('w, io_error, exit_status option) eff \<Rightarrow> string \<Rightarrow> output_limits \<Rightarrow> bytes \<Rightarrow>
   supervisor \<Rightarrow> ('w, io_error \<times> exit_status option, supervisor + supervisor) eff" where
  "supervise_turn k poll program limits input st =
     bindE (map_errE (\<lambda>e. (e, su_status st)) (supervise_step k poll program limits input st))
       (\<lambda>(progressed, st'). settle k program progressed st')"

definition supervise ::
  "'w kernel \<Rightarrow> ('w, io_error, exit_status option) eff \<Rightarrow> string \<Rightarrow> output_limits \<Rightarrow> bytes \<Rightarrow>
   supervisor \<Rightarrow> ('w, io_error \<times> exit_status option, supervisor) run" where
  "supervise k poll program limits input = loopP (supervise_turn k poll program limits input)"

section \<open>Termination and reaping\<close>

definition terminate_tree :: "'w kernel \<Rightarrow> int \<Rightarrow> ('w, 'e, unit) eff" where
  "terminate_tree k pg =
     bindE (ignoreE (kn_kill_group k pg)) (\<lambda>_.
     bindE (attemptE (kn_try_wait k)) (\<lambda>answer. case answer of
       Inr (Some status) \<Rightarrow> okE ()
     | _ \<Rightarrow> ignoreE (kn_kill_child k)))"

definition terminate_remaining_group :: "'w kernel \<Rightarrow> int \<Rightarrow> ('w, 'e, unit) eff" where
  "terminate_remaining_group k pg = ignoreE (kn_kill_group k pg)"

definition reap_turn ::
  "'w kernel \<Rightarrow> nat \<Rightarrow> unit \<Rightarrow> ('w, io_error, unit + exit_status) eff" where
  "reap_turn k deadline u =
     bindE (kn_try_wait k) (\<lambda>answer. case answer of
       Some status \<Rightarrow> okE (Inr status)
     | None \<Rightarrow> bindE (answerE (kn_now k)) (\<lambda>now.
         if deadline \<le> now then failE \<lparr>ie_kind = IO_TimedOut,
           ie_text = ''direct child did not exit before the post-cancellation deadline''\<rparr>
         else bindE (modifyE (kn_sleep k POLL_INTERVAL)) (\<lambda>_. okE (Inl ()))))"

definition reap_until :: "'w kernel \<Rightarrow> nat \<Rightarrow> ('w, io_error, exit_status) run" where
  "reap_until k deadline = loopP (reap_turn k deadline) ()"

definition reap :: "'w kernel \<Rightarrow> exit_status option \<Rightarrow> ('w, io_error, exit_status) run" where
  "reap k status = (case status of
     Some reaped \<Rightarrow> runE (okE reaped)
   | None \<Rightarrow> bindP (runE (answerE (kn_now k))) (\<lambda>now. reap_until k (now + POST_CANCEL_TIMEOUT)))"

definition cleanup_error :: "io_error \<Rightarrow> io_error + exit_status \<Rightarrow> io_error" where
  "cleanup_error primary cleanup = (case cleanup of
     Inr _ \<Rightarrow> primary
   | Inl e \<Rightarrow> io_other (ie_text primary @ ''; cleanup failed: '' @ ie_text e))"

definition cancel ::
  "'w kernel \<Rightarrow> int \<Rightarrow> io_error \<Rightarrow> exit_status option \<Rightarrow> ('w, io_error, 'a) run" where
  "cancel k pg primary status =
     bindP (runE (terminate_tree k pg)) (\<lambda>_.
     bindP (attemptP (reap k status)) (\<lambda>cleanup.
     runE (failE (cleanup_error primary cleanup))))"

section \<open>One child\<close>

definition set_nonblocking :: "'w kernel \<Rightarrow> pipe \<Rightarrow> ('w, io_error, unit) eff" where
  "set_nonblocking k p = bindE (kn_getfl k p) (\<lambda>flags. kn_setfl k p (or flags (kn_nonblock k)))"

definition setup_pipes :: "'w kernel \<Rightarrow> bool \<Rightarrow> ('w, io_error, unit) eff" where
  "setup_pipes k piped =
     bindE (set_nonblocking k (Out Stdout)) (\<lambda>_.
     bindE (set_nonblocking k (Out Stderr)) (\<lambda>_.
     if piped then set_nonblocking k In else okE ()))"

text \<open>
  What follows the loop, and the loop with what precedes it. \<open>Child::stdout\<close> and the other two are
  there exactly when the stream is piped, so the errors for a handle that was not captured do not
  arise. \<open>terminate_remaining_group\<close> is another function where the system is not Linux, so it is an
  argument.
\<close>

definition conclude ::
  "'w kernel \<Rightarrow> (int \<Rightarrow> ('w, io_error, unit) run) \<Rightarrow> int \<Rightarrow> (io_error \<times> exit_status option) + supervisor \<Rightarrow>
   ('w, io_error, process_output) run" where
  "conclude k remaining pg result = (case result of
     Inl (error, status) \<Rightarrow> cancel k pg error status
   | Inr st \<Rightarrow>
       bindP (remaining pg) (\<lambda>_.
       case su_status st of
         None \<Rightarrow> runE (failE (io_other ''direct child was not reaped''))
       | Some status \<Rightarrow> runE (okE \<lparr>out_success = fst status, out_status = snd status,
           out_stdout = cp_bytes (su_stdout st), out_stderr = cp_bytes (su_stderr st)\<rparr>)))"

definition supervised ::
  "'w kernel \<Rightarrow> (int \<Rightarrow> ('w, io_error, unit) run) \<Rightarrow> ('w, io_error, exit_status option) eff \<Rightarrow> string \<Rightarrow>
   output_limits \<Rightarrow> bytes option \<Rightarrow> int \<Rightarrow> ('w, io_error, process_output) run" where
  "supervised k remaining poll program limits input pg =
     bindP (runE (liftE (capture_new Stdout (ol_stdout limits)))) (\<lambda>out.
     bindP (runE (liftE (capture_new Stderr (ol_stderr limits)))) (\<lambda>err.
     let bytes = (case input of None \<Rightarrow> [] | Some b \<Rightarrow> b)
     in bindP (attemptP (supervise k poll program limits bytes
          \<lparr>su_stdout = out, su_stderr = err, su_stdin = bytes \<noteq> [], su_offset = 0,
           su_status = None, su_exit = None\<rparr>)) (conclude k remaining pg)))"

definition output_inner ::
  "'w kernel \<Rightarrow> (int \<Rightarrow> ('w, io_error, unit) run) \<Rightarrow> command \<Rightarrow> output_limits \<Rightarrow> bytes option \<Rightarrow>
   ('w, io_error, exit_status option) eff \<Rightarrow> ('w, io_error, process_output) run" where
  "output_inner k remaining command limits input poll =
     bindP (runE (kn_spawn k command (input \<noteq> None))) (\<lambda>pg.
     bindP (runE (attemptE (setup_pipes k (input \<noteq> None)))) (\<lambda>ready.
     case ready of
       Inl error \<Rightarrow> cancel k pg error None
     | Inr _ \<Rightarrow> supervised k remaining poll (cm_program command) limits input pg))"

section \<open>Adopted descendants\<close>

text \<open>A process that ended between the listing of \<open>/proc\<close> and the reading of its entry; ESRCH is 3.\<close>

definition process_entry_disappeared :: "io_error \<Rightarrow> bool" where
  "process_entry_disappeared e \<longleftrightarrow> ie_kind e = IO_NotFound \<or> ie_kind e = IO_Errno 3"

definition parse_parent :: "string \<Rightarrow> io_error + int" where
  "parse_parent stat =
     bindR (ok_or (rsplit_once '') '' stat)
       \<lparr>ie_kind = IO_InvalidData, ie_text = ''malformed /proc process stat''\<rparr>) (\<lambda>(_, rest).
     bindR (ok_or (case drop 1 (split_whitespace rest) of [] \<Rightarrow> None | f # _ \<Rightarrow> Some f)
       \<lparr>ie_kind = IO_InvalidData, ie_text = ''truncated /proc process stat''\<rparr>) (\<lambda>field.
     ok_or (parse_i32 field)
       \<lparr>ie_kind = IO_InvalidData, ie_text = ''invalid /proc parent process ID''\<rparr>))"

text \<open>The loop over the entries; \<open>continue\<close> leaves the set as it is.\<close>

primrec collect_children ::
  "'w kernel \<Rightarrow> int \<Rightarrow> (io_error + string option) list \<Rightarrow> int list \<Rightarrow> ('w, io_error, int list) eff" where
  "collect_children k own [] children = okE children"
| "collect_children k own (entry # entries) children =
     (case entry of
        Inl e \<Rightarrow> if process_entry_disappeared e then collect_children k own entries children
          else failE e
      | Inr None \<Rightarrow> collect_children k own entries children
      | Inr (Some name) \<Rightarrow> (case parse_i32 name of
          None \<Rightarrow> collect_children k own entries children
        | Some pid \<Rightarrow>
            bindE (attemptE (kn_read_to_string k (''/proc/'' @ name @ ''/stat''))) (\<lambda>answer.
            case answer of
              Inl e \<Rightarrow> if process_entry_disappeared e then collect_children k own entries children
                else failE e
            | Inr stat \<Rightarrow> bindE (liftE (parse_parent stat)) (\<lambda>parent.
                collect_children k own entries
                  (if parent = own then insort_insert pid children else children)))))"

definition direct_children :: "'w kernel \<Rightarrow> ('w, io_error, int list) eff" where
  "direct_children k =
     bindE (answerE (kn_own_pid k)) (\<lambda>pid.
     bindE (fail_ifE (2 ^ 31 \<le> pid) (io_other ''current process ID is out of range'')) (\<lambda>_.
     bindE (kn_read_dir k ''/proc'') (\<lambda>entries. collect_children k (int pid) entries [])))"

section \<open>The subreaper scope\<close>

record subreaper_scope =
  sc_baseline :: "int list"
  sc_caller_group :: int
  sc_was_enabled :: bool

text \<open>
  When a step after the lock fails no scope exists yet: the lock's guard is dropped, and nothing else
  is undone.
\<close>

definition scope_enter :: "'w kernel \<Rightarrow> ('w, io_error, subreaper_scope) eff" where
  "scope_enter k =
     bindE (map_errE (\<lambda>_. io_other ''bounded-process subreaper lock was poisoned'') (kn_lock k)) (\<lambda>_.
     on_errorE
       (bindE (kn_child_subreaper k) (\<lambda>subreaper.
        let was_enabled = (subreaper \<noteq> None)
        in bindE (if was_enabled then okE () else kn_set_child_subreaper k (kn_pid_from_raw k 1)) (\<lambda>_.
        bindE (direct_children k) (\<lambda>baseline.
        bindE (kn_getpgid k None) (\<lambda>pg.
        okE \<lparr>sc_baseline = baseline, sc_caller_group = pg, sc_was_enabled = was_enabled\<rparr>)))))
       (kn_unlock k))"

text \<open>\<open>Drop\<close>, then the fields in their order: the lock's guard.\<close>

definition scope_drop :: "'w kernel \<Rightarrow> subreaper_scope \<Rightarrow> 'w \<Rightarrow> 'w" where
  "scope_drop k scope w =
     kn_unlock k (if sc_was_enabled scope then w else snd (kn_set_child_subreaper k None w))"

definition is_adopted :: "'w kernel \<Rightarrow> subreaper_scope \<Rightarrow> int \<Rightarrow> ('w, 'e, bool) eff" where
  "is_adopted k scope raw = (case kn_pid_from_raw k raw of
     None \<Rightarrow> okE False
   | Some pid \<Rightarrow> bindE (attemptE (kn_getpgid k (Some pid))) (\<lambda>answer.
       okE (case answer of Inl _ \<Rightarrow> False | Inr pg \<Rightarrow> pg \<noteq> sc_caller_group scope)))"

primrec filterE :: "('a \<Rightarrow> ('w, 'e, bool) eff) \<Rightarrow> 'a list \<Rightarrow> ('w, 'e, 'a list) eff" where
  "filterE p [] = okE []"
| "filterE p (x # xs) = bindE (p x) (\<lambda>b. bindE (filterE p xs) (\<lambda>ys. okE (if b then x # ys else ys)))"

definition kill_adopted :: "'w kernel \<Rightarrow> int \<Rightarrow> ('w, 'e, unit) eff" where
  "kill_adopted k raw = (case kn_pid_from_raw k raw of
     None \<Rightarrow> okE () | Some pid \<Rightarrow> ignoreE (kn_kill_process k pid))"

text \<open>ECHILD is 10.\<close>

definition reap_adopted :: "'w kernel \<Rightarrow> int \<Rightarrow> ('w, io_error, unit) eff" where
  "reap_adopted k raw = (case kn_pid_from_raw k raw of
     None \<Rightarrow> okE ()
   | Some pid \<Rightarrow> bindE (attemptE (kn_waitpid k pid)) (\<lambda>answer. case answer of
       Inr _ \<Rightarrow> okE ()
     | Inl e \<Rightarrow> if ie_kind e = IO_Errno 10 then okE () else failE e))"

definition quiesce_turn ::
  "'w kernel \<Rightarrow> subreaper_scope \<Rightarrow> nat \<Rightarrow> unit \<Rightarrow> ('w, io_error, unit + unit) eff" where
  "quiesce_turn k scope deadline u =
     bindE (direct_children k) (\<lambda>children.
     bindE (filterE (is_adopted k scope)
       (filter (\<lambda>pid. pid \<notin> set (sc_baseline scope)) children)) (\<lambda>adopted.
     if adopted = [] then okE (Inr ())
     else bindE (forE adopted (kill_adopted k)) (\<lambda>_.
       bindE (forE adopted (reap_adopted k)) (\<lambda>_.
       bindE (answerE (kn_now k)) (\<lambda>now.
       if deadline \<le> now then failE \<lparr>ie_kind = IO_TimedOut,
         ie_text = ''subprocess descendants were not quiescent after direct-child exit''\<rparr>
       else bindE (modifyE (kn_sleep k POLL_INTERVAL)) (\<lambda>_. okE (Inl ())))))))"

definition terminate_and_reap :: "'w kernel \<Rightarrow> subreaper_scope \<Rightarrow> ('w, io_error, unit) run" where
  "terminate_and_reap k scope =
     bindP (runE (answerE (kn_now k))) (\<lambda>now.
     loopP (quiesce_turn k scope (now + POST_CANCEL_TIMEOUT)) ())"

section \<open>The whole call\<close>

definition join_results :: "io_error + 'a \<Rightarrow> io_error + unit \<Rightarrow> io_error + 'a" where
  "join_results result cleanup = (case (result, cleanup) of
     (Inr out, Inr _) \<Rightarrow> Inr out
   | (Inl e, Inr _) \<Rightarrow> Inl e
   | (Inr _, Inl e) \<Rightarrow> Inl e
   | (Inl e, Inl c) \<Rightarrow> Inl (io_other (ie_text e @ ''; descendant cleanup failed: '' @ ie_text c)))"

definition output_with_status_poll ::
  "'w kernel \<Rightarrow> command \<Rightarrow> output_limits \<Rightarrow> bytes option \<Rightarrow>
   ('w, io_error, exit_status option) eff \<Rightarrow> ('w, io_error, process_output) run" where
  "output_with_status_poll k command limits input poll =
     bindP (runE (scope_enter k)) (\<lambda>scope.
     bindP (attemptP (output_inner k (\<lambda>pg. runE (terminate_remaining_group k pg)) command limits input poll)) (\<lambda>result.
     bindP (attemptP (terminate_and_reap k scope)) (\<lambda>cleanup.
     bindP (runE (modifyE (scope_drop k scope))) (\<lambda>_.
     runE (liftE (join_results result cleanup))))))"

text \<open>\<open>output\<close> and \<open>output_with_input\<close>.\<close>

definition bounded_output ::
  "'w kernel \<Rightarrow> command \<Rightarrow> bytes option \<Rightarrow> output_limits \<Rightarrow> ('w, io_error, process_output) run" where
  "bounded_output k command input limits =
     bindP (runE (liftE (validate_limits limits input))) (\<lambda>_.
     output_with_status_poll k command limits input (kn_try_wait k))"

end
