(* ===== verification/Supervision.thy ===== *)
theory Supervision
  imports BoundedProcess
begin

text \<open>
  What a bounded subprocess call guarantees. \<open>logged_kernel\<close> records the events of a call, newest
  first; the lemmas follow the operations of \<open>BoundedProcess\<close> from the reads and writes of one turn
  of the supervision loop to the whole call.
\<close>

section \<open>Events\<close>

datatype kernel_event =
    Spawned int
  | Received stream bytes
  | Accepted bytes
  | Exited exit_status
  | GroupKilled int
  | GroupGone int
  | Subreaper "int option" bool

definition logged_kernel :: "'w kernel \<Rightarrow> ('w \<times> kernel_event list) kernel" where
  "logged_kernel k =
     \<lparr>kn_spawn = (\<lambda>c piped. logging (kn_spawn k c piped) (on_ok (\<lambda>pg. [Spawned pg]))),
      kn_getfl = (\<lambda>p. beside (kn_getfl k p)), kn_setfl = (\<lambda>p f. beside (kn_setfl k p f)),
      kn_nonblock = kn_nonblock k,
      kn_read = (\<lambda>s n. logging (kn_read k s n) (on_ok (\<lambda>chunk. [Received s chunk]))),
      kn_write = (\<lambda>b. logging (kn_write k b) (on_ok (\<lambda>n. [Accepted (take n b)]))),
      kn_try_wait = logging (kn_try_wait k)
        (on_ok (\<lambda>answer. case answer of None \<Rightarrow> [] | Some status \<Rightarrow> [Exited status])),
      kn_kill_child = beside (kn_kill_child k),
      kn_kill_group = (\<lambda>pg. logging (kn_kill_group k pg) (\<lambda>_. [GroupKilled pg])),
      kn_now = (\<lambda>(w, l). case kn_now k w of (t, w') \<Rightarrow> (t, (w', l))),
      kn_sleep = (\<lambda>d (w, l). (kn_sleep k d w, l)),
      kn_lock = beside (kn_lock k), kn_unlock = (\<lambda>(w, l). (kn_unlock k w, l)),
      kn_child_subreaper = beside (kn_child_subreaper k),
      kn_set_child_subreaper = (\<lambda>p. logging (kn_set_child_subreaper k p)
        (\<lambda>r. [Subreaper p (is_ok r)])),
      kn_own_pid = (\<lambda>(w, l). case kn_own_pid k w of (p, w') \<Rightarrow> (p, (w', l))),
      kn_read_dir = (\<lambda>p. beside (kn_read_dir k p)),
      kn_read_to_string = (\<lambda>p. beside (kn_read_to_string k p)),
      kn_getpgid = (\<lambda>p. beside (kn_getpgid k p)), kn_pid_from_raw = kn_pid_from_raw k,
      kn_kill_process = (\<lambda>p. beside (kn_kill_process k p)),
      kn_waitpid = (\<lambda>p. beside (kn_waitpid k p))\<rparr>"

lemma logged_ops [simp]:
  "kn_spawn (logged_kernel k) c b = logging (kn_spawn k c b) (on_ok (\<lambda>pg. [Spawned pg]))"
  "kn_getfl (logged_kernel k) p = beside (kn_getfl k p)"
  "kn_setfl (logged_kernel k) p f = beside (kn_setfl k p f)"
  "kn_read (logged_kernel k) s n = logging (kn_read k s n) (on_ok (\<lambda>chunk. [Received s chunk]))"
  "kn_write (logged_kernel k) i = logging (kn_write k i) (on_ok (\<lambda>n. [Accepted (take n i)]))"
  "kn_try_wait (logged_kernel k) = logging (kn_try_wait k)
     (on_ok (\<lambda>answer. case answer of None \<Rightarrow> [] | Some status \<Rightarrow> [Exited status]))"
  "kn_kill_child (logged_kernel k) = beside (kn_kill_child k)"
  "kn_kill_group (logged_kernel k) pg = logging (kn_kill_group k pg) (\<lambda>_. [GroupKilled pg])"
  "kn_now (logged_kernel k) (w, l) = (case kn_now k w of (t, w') \<Rightarrow> (t, (w', l)))"
  "kn_sleep (logged_kernel k) d (w, l) = (kn_sleep k d w, l)"
  "kn_lock (logged_kernel k) = beside (kn_lock k)"
  "kn_unlock (logged_kernel k) (w, l) = (kn_unlock k w, l)"
  "kn_child_subreaper (logged_kernel k) = beside (kn_child_subreaper k)"
  "kn_set_child_subreaper (logged_kernel k) q =
     logging (kn_set_child_subreaper k q) (\<lambda>r. [Subreaper q (is_ok r)])"
  "kn_own_pid (logged_kernel k) (w, l) = (case kn_own_pid k w of (n, w') \<Rightarrow> (n, (w', l)))"
  "kn_read_dir (logged_kernel k) t = beside (kn_read_dir k t)"
  "kn_read_to_string (logged_kernel k) t = beside (kn_read_to_string k t)"
  "kn_getpgid (logged_kernel k) q = beside (kn_getpgid k q)"
  "kn_pid_from_raw (logged_kernel k) = kn_pid_from_raw k"
  "kn_kill_process (logged_kernel k) pg = beside (kn_kill_process k pg)"
  "kn_waitpid (logged_kernel k) pg = beside (kn_waitpid k pg)"
  by (simp_all add: logged_kernel_def)

text \<open>What a log says of the pipes: the bytes of a stream in order, its end, the input taken.\<close>

primrec received :: "stream \<Rightarrow> kernel_event list \<Rightarrow> bytes" where
  "received s [] = []"
| "received s (e # l) =
     received s l @ (case e of Received t chunk \<Rightarrow> if t = s then chunk else [] | _ \<Rightarrow> [])"

definition ended :: "stream \<Rightarrow> kernel_event list \<Rightarrow> bool" where
  "ended s l \<longleftrightarrow> Received s [] \<in> set l"

primrec accepted :: "kernel_event list \<Rightarrow> bytes" where
  "accepted [] = []"
| "accepted (e # l) = accepted l @ (case e of Accepted b \<Rightarrow> b | _ \<Rightarrow> [])"

fun is_data :: "kernel_event \<Rightarrow> bool" where
  "is_data (Received _ _) = True"
| "is_data (Accepted _) = True"
| "is_data _ = False"

fun is_signal :: "kernel_event \<Rightarrow> bool" where
  "is_signal (Spawned _) = True"
| "is_signal (GroupKilled _) = True"
| "is_signal _ = False"

lemma received_append: "received s (d @ l) = received s l @ received s d"
  by (induction d) auto

lemma accepted_append: "accepted (d @ l) = accepted l @ accepted d"
  by (induction d) auto

lemma received_chunks:
  "received s (rev (map (Received t) chunks)) = (if t = s then concat chunks else [])"
  by (induction chunks rule: rev_induct) (auto simp: received_append)

lemma accepted_chunks: "accepted (rev (map (Received t) chunks)) = []"
  by (induction chunks rule: rev_induct) (auto simp: accepted_append)

section \<open>The pipes\<close>

lemma drain_loop_logged:
  assumes "drain_loop (logged_kernel k) c p (w, l) = (r, (w', l'))"
  shows "\<exists>chunks. l' = rev (map (Received (cp_stream c)) chunks) @ l \<and>
    (\<forall>q c'. r = Inr (q, c') \<longrightarrow>
       c' = c\<lparr>cp_bytes := cp_bytes c @ concat chunks, cp_open := cp_open c \<and> [] \<notin> set chunks\<rparr>)"
  using assms
proof (induction "logged_kernel k" c p "(w, l)" arbitrary: w l rule: drain_loop.induct)
  case (1 c p w l)
  obtain a w1 where read: "kn_read k (cp_stream c) (wanted c) w = (a, w1)"
    by (cases "kn_read k (cp_stream c) (wanted c) w")
  show ?case
  proof (cases a)
    case (Inl e)
    with read 1(2) show ?thesis
      by (intro exI [of _ "[]"])
        (auto simp: drain_loop.simps [of "logged_kernel k"] logging_def on_ok_def split: if_splits)
  next
    case (Inr chunk)
    have step: "kn_read (logged_kernel k) (cp_stream c) (wanted c) (w, l) =
        (Inr chunk, (w1, Received (cp_stream c) chunk # l))"
      using read Inr by (simp add: logging_def on_ok_def)
    let ?c = "c\<lparr>cp_bytes := cp_bytes c @ chunk\<rparr>"
    consider "chunk = []" | "chunk \<noteq> []" "sentinel c \<le> length (cp_bytes ?c)"
      | "chunk \<noteq> []" "\<not> sentinel c \<le> length (cp_bytes ?c)" by blast
    then show ?thesis
    proof cases
      case 1
      with "1.prems" step show ?thesis
        by (intro exI [of _ "[[]]"]) (auto simp: drain_loop.simps [of "logged_kernel k"] simp del: logged_ops)
    next
      case 2
      with "1.prems" step show ?thesis
        by (intro exI [of _ "[chunk]"]) (auto simp: drain_loop.simps [of "logged_kernel k"] simp del: logged_ops)
    next
      case 3
      with "1.prems" step have rest:
        "drain_loop (logged_kernel k) ?c True (w1, Received (cp_stream c) chunk # l) = (r, (w', l'))"
        by (simp add: drain_loop.simps [of "logged_kernel k" c] del: logged_ops)
      from "1.hyps" [OF step [symmetric] refl 3(1) refl 3(2) rest] obtain chunks where
        "l' = rev (map (Received (cp_stream ?c)) chunks) @ Received (cp_stream c) chunk # l"
        "\<forall>q c'. r = Inr (q, c') \<longrightarrow> c' = ?c\<lparr>cp_bytes := cp_bytes ?c @ concat chunks,
           cp_open := cp_open ?c \<and> [] \<notin> set chunks\<rparr>"
        by blast
      with 3 show ?thesis by (intro exI [of _ "chunk # chunks"]) auto
    qed
  qed
qed

lemma write_loop_logged:
  assumes "write_loop (logged_kernel k) input offset p (w, l) = (r, (w', l'))"
  shows "\<exists>blocks. l' = rev (map Accepted blocks) @ l \<and>
    (\<forall>q open offset'. r = Inr (q, open, offset') \<longrightarrow>
       take offset' input = take offset input @ concat blocks)"
  using assms
proof (induction "logged_kernel k" input offset p "(w, l)" arbitrary: w l rule: write_loop.induct)
  case (1 input offset p w l)
  obtain a w1 where wrote: "kn_write k (drop offset input) w = (a, w1)"
    by (cases "kn_write k (drop offset input) w")
  consider "length input \<le> offset" | e where "\<not> length input \<le> offset" "a = Inl e"
    | n where "\<not> length input \<le> offset" "a = Inr n" by (cases a) auto
  then show ?case
  proof cases
    case 1
    with "1.prems" show ?thesis
      by (intro exI [of _ "[]"]) (auto simp: write_loop.simps [of "logged_kernel k"])
  next
    case 2
    with wrote "1.prems" show ?thesis
      by (intro exI [of _ "[]"])
        (auto simp: write_loop.simps [of "logged_kernel k"] logging_def on_ok_def split: if_splits)
  next
    case 3
    let ?b = "take n (drop offset input)"
    have step: "kn_write (logged_kernel k) (drop offset input) (w, l) = (Inr n, (w1, Accepted ?b # l))"
      using wrote 3 by (simp add: logging_def on_ok_def)
    show ?thesis
    proof (cases "n = 0")
      case True
      with 3 step "1.prems" show ?thesis
        by (intro exI [of _ "[?b]"])
          (auto simp: write_loop.simps [of "logged_kernel k"] simp del: logged_ops)
    next
      case False
      with 3 step "1.prems" have rest:
        "write_loop (logged_kernel k) input (offset + n) True (w1, Accepted ?b # l) = (r, (w', l'))"
        by (simp add: write_loop.simps [of "logged_kernel k" input offset] del: logged_ops)
      from "1.hyps" [OF 3(1) step [symmetric] refl False rest] obtain blocks where
        "l' = rev (map Accepted blocks) @ Accepted ?b # l"
        "\<forall>q open offset'. r = Inr (q, open, offset') \<longrightarrow>
           take offset' input = take (offset + n) input @ concat blocks"
        by blast
      then show ?thesis by (intro exI [of _ "?b # blocks"]) (auto simp: take_add)
    qed
  qed
qed

text \<open>What the supervisor's state says of the log.\<close>

definition captured :: "capture \<Rightarrow> stream \<Rightarrow> nat \<Rightarrow> kernel_event list \<Rightarrow> bool" where
  "captured c s limit l \<longleftrightarrow> cp_stream c = s \<and> cp_limit c = limit \<and>
     cp_bytes c = received s l \<and> (cp_open c \<longleftrightarrow> \<not> ended s l)"

definition tracks :: "output_limits \<Rightarrow> bytes \<Rightarrow> supervisor \<Rightarrow> kernel_event list \<Rightarrow> bool" where
  "tracks limits input st l \<longleftrightarrow>
     captured (su_stdout st) Stdout (ol_stdout limits) l \<and>
     captured (su_stderr st) Stderr (ol_stderr limits) l \<and>
     accepted l = take (su_offset st) input \<and>
     (\<forall>status. su_status st = Some status \<longrightarrow> Exited status \<in> set l)"

lemma drain_logged:
  assumes "drain (logged_kernel k) c (w, l) = (r, (w', l'))" and "captured c s limit l"
  shows "\<exists>chunks. l' = rev (map (Received s) chunks) @ l \<and>
    (\<forall>q c'. r = Inr (q, c') \<longrightarrow> captured c' s limit l')"
proof (cases "cp_open c \<and> \<not> sentinel c \<le> length (cp_bytes c)")
  case True
  with assms(1) have "drain_loop (logged_kernel k) c False (w, l) = (r, (w', l'))"
    by (simp add: drain_def)
  from drain_loop_logged [OF this] obtain chunks where
    "l' = rev (map (Received (cp_stream c)) chunks) @ l"
    "\<forall>q c'. r = Inr (q, c') \<longrightarrow>
       c' = c\<lparr>cp_bytes := cp_bytes c @ concat chunks, cp_open := cp_open c \<and> [] \<notin> set chunks\<rparr>"
    by blast
  with assms(2) show ?thesis
    by (intro exI [of _ chunks])
      (auto simp: captured_def received_append received_chunks ended_def)
next
  case False
  then have "drain (logged_kernel k) c = okE (False, c)" by (auto simp: drain_def)
  with assms show ?thesis by (intro exI [of _ "[]"]) auto
qed

lemma captured_other:
  "t \<noteq> s \<Longrightarrow> captured c s limit (rev (map (Received t) chunks) @ l) = captured c s limit l"
  "captured c s limit (rev (map Accepted blocks) @ l) = captured c s limit l"
proof -
  have "received s (rev (map Accepted blocks)) = []"
    by (induction blocks rule: rev_induct) (auto simp: received_append)
  then show "captured c s limit (rev (map Accepted blocks) @ l) = captured c s limit l"
    by (auto simp: captured_def received_append ended_def)
qed (auto simp: captured_def received_append received_chunks ended_def)

section \<open>One turn\<close>

lemma bindE_cases:
  assumes "bindE m f s = (r, s')"
  obtains (fails) e where "m s = (Inl e, s')" "r = Inl e"
    | (goes) x s1 where "m s = (Inr x, s1)" "f x s1 = (r, s')"
  using assms by (auto simp: bindE_def split: prod.splits sum.splits)

text \<open>Assertions about the log that whatever is read and written leaves alone.\<close>

definition lasting :: "(kernel_event list \<Rightarrow> bool) \<Rightarrow> bool" where
  "lasting F \<longleftrightarrow> (\<forall>e l. F l \<longrightarrow> is_data e \<longrightarrow> F (e # l))"

lemma lasting_append: "lasting F \<Longrightarrow> F l \<Longrightarrow> list_all is_data d \<Longrightarrow> F (d @ l)"
  by (induction d) (auto simp: lasting_def)

lemma lasting_intros [intro, simp]:
  "lasting (\<lambda>l. P (filter is_signal l))"
  "lasting F \<Longrightarrow> lasting G \<Longrightarrow> lasting (\<lambda>l. F l \<and> G l)"
  "lasting (\<lambda>l. b)"
  "lasting (\<lambda>l. \<forall>x. Q x \<longrightarrow> Exited x \<in> set l)"
proof -
  show "lasting (\<lambda>l. P (filter is_signal l))"
    unfolding lasting_def by (metis filter.simps(2) is_data.elims(2) is_signal.simps(3,4))
qed (auto simp: lasting_def)

lemma drain_valid:
  assumes "\<And>l chunks. F l \<Longrightarrow> F (rev (map (Received s) chunks) @ l)" and "\<And>l. F l \<Longrightarrow> G l"
  shows "valid (\<lambda>w. captured c s limit (snd w) \<and> F (snd w)) (drain (logged_kernel k) c)
    (\<lambda>_ w. G (snd w)) (\<lambda>(q, c') w. captured c' s limit (snd w) \<and> F (snd w))"
  unfolding valid_def
proof (intro allI impI)
  fix w :: "'a \<times> kernel_event list"
  assume pre: "captured c s limit (snd w) \<and> F (snd w)"
  obtain r w' l' where run: "drain (logged_kernel k) c (fst w, snd w) = (r, (w', l'))"
    by (cases "drain (logged_kernel k) c (fst w, snd w)") auto
  from drain_logged [OF this conjunct1 [OF pre]] pre assms
  have "G l'" "F l'" "\<forall>q c'. r = Inr (q, c') \<longrightarrow> captured c' s limit l'" by auto
  with run show "outcome (\<lambda>_ w. G (snd w))
      (\<lambda>(q, c') w. captured c' s limit (snd w) \<and> F (snd w)) (drain (logged_kernel k) c w)"
    by (cases r) auto
qed

lemma write_input_valid:
  assumes "\<And>l blocks. F l \<Longrightarrow> F (rev (map Accepted blocks) @ l)" and "\<And>l. F l \<Longrightarrow> G l"
  shows "valid (\<lambda>w. accepted (snd w) = take offset input \<and> F (snd w))
    (write_input (logged_kernel k) input writer offset)
    (\<lambda>_ w. G (snd w)) (\<lambda>(q, open, offset') w. accepted (snd w) = take offset' input \<and> F (snd w))"
  unfolding valid_def
proof (intro allI impI)
  fix w :: "'a \<times> kernel_event list"
  assume pre: "accepted (snd w) = take offset input \<and> F (snd w)"
  have blocks: "accepted (rev (map Accepted bs)) = concat bs" for bs
    by (induction bs rule: rev_induct) (auto simp: accepted_append)
  obtain r w' l' where run:
    "write_input (logged_kernel k) input writer offset (fst w, snd w) = (r, (w', l'))"
    by (cases "write_input (logged_kernel k) input writer offset (fst w, snd w)") auto
  have "\<exists>bs. l' = rev (map Accepted bs) @ snd w \<and>
      (\<forall>q open offset'. r = Inr (q, open, offset') \<longrightarrow> accepted l' = take offset' input)"
  proof (cases writer)
    case True
    with run have "write_loop (logged_kernel k) input offset False (fst w, snd w) = (r, (w', l'))"
      by (simp add: write_input_def)
    from write_loop_logged [OF this] pre blocks show ?thesis by (auto simp: accepted_append)
  next
    case False
    with run pre show ?thesis by (intro exI [of _ "[]"]) (auto simp: write_input_def)
  qed
  with pre assms have "G l'" "F l'"
      "\<forall>q open offset'. r = Inr (q, open, offset') \<longrightarrow> accepted l' = take offset' input" by blast+
  with run show "outcome (\<lambda>_ w. G (snd w))
      (\<lambda>(q, open, offset') w. accepted (snd w) = take offset' input \<and> F (snd w))
      (write_input (logged_kernel k) input writer offset w)"
    by (cases r) auto
qed

lemma pump_valid:
  assumes "lasting F"
  shows "valid (\<lambda>w. tracks limits input st (snd w) \<and> F (snd w)) (pump (logged_kernel k) input st)
    (\<lambda>_ w. F (snd w))
    (\<lambda>(q, st') w. tracks limits input st' (snd w) \<and> F (snd w))"
proof -
  let ?S = "\<lambda>l. \<forall>x. su_status st = Some x \<longrightarrow> Exited x \<in> set l"
  let ?F1 = "\<lambda>l. captured (su_stderr st) Stderr (ol_stderr limits) l \<and>
    accepted l = take (su_offset st) input \<and> ?S l \<and> F l"
  let ?F2 = "\<lambda>out l. captured out Stdout (ol_stdout limits) l \<and>
    accepted l = take (su_offset st) input \<and> ?S l \<and> F l"
  let ?F3 = "\<lambda>out err l. captured out Stdout (ol_stdout limits) l \<and>
    captured err Stderr (ol_stderr limits) l \<and> ?S l \<and> F l"
  have keep: "F l \<Longrightarrow> F (rev (map (Received s) cs) @ l)" "F l \<Longrightarrow> F (rev (map Accepted bs) @ l)"
    for l s cs bs by (simp_all add: lasting_append [OF assms] list_all_iff)
  have 1: "valid (\<lambda>w. tracks limits input st (snd w) \<and> F (snd w))
      (drain (logged_kernel k) (su_stdout st)) (\<lambda>_ w. F (snd w))
      (\<lambda>(q, out) w. captured out Stdout (ol_stdout limits) (snd w) \<and> ?F1 (snd w))"
    by (rule valid_weaken [OF drain_valid [where F = ?F1 and G = F]])
      (auto simp: tracks_def captured_other accepted_append accepted_chunks intro: keep)
  have 2: "valid (\<lambda>w. captured out Stdout (ol_stdout limits) (snd w) \<and> ?F1 (snd w))
      (drain (logged_kernel k) (su_stderr st)) (\<lambda>_ w. F (snd w))
      (\<lambda>(q, err) w. captured err Stderr (ol_stderr limits) (snd w) \<and> ?F2 out (snd w))" for out
    by (rule valid_weaken [OF drain_valid [where F = "?F2 out" and G = F]])
      (auto simp: captured_other accepted_append accepted_chunks intro: keep)
  have 3: "valid (\<lambda>w. captured err Stderr (ol_stderr limits) (snd w) \<and> ?F2 out (snd w))
      (write_input (logged_kernel k) input (su_stdin st) (su_offset st)) (\<lambda>_ w. F (snd w))
      (\<lambda>(q, open, offset) w. accepted (snd w) = take offset input \<and> ?F3 out err (snd w))" for out err
    by (rule valid_weaken [OF write_input_valid [where F = "?F3 out err" and G = F]])
      (auto simp: captured_other intro: keep)
  show ?thesis
    unfolding pump_def
    by (rule valid_bindE_pair [OF 1], rule valid_bindE_pair [OF 2], rule valid_bindE [OF 3])
      (auto intro!: valid_basic(1) simp: tracks_def split: prod.split)
qed

section \<open>Effects that leave an assertion alone\<close>

lemma preserves_clock [intro, simp]:
  "preserves F (answerE (kn_now (logged_kernel k)))"
  "preserves F (answerE (kn_own_pid (logged_kernel k)))"
  "preserves F (modifyE (kn_sleep (logged_kernel k) d))"
  unfolding valid_def answerE_def modifyE_def outcome_def by (auto split: sum.split prod.split)

lemma preserves_filterE: "(\<And>x. preserves F (f x)) \<Longrightarrow> preserves F (filterE f xs)"
  by (induction xs) (auto intro!: preserves_bindE)

lemmas preserves_rules =
  preserves_basic preserves_clock preserves_bindE preserves_map_errE preserves_attemptE
  preserves_ignoreE preserves_case preserves_forE preserves_filterE valid_if

text \<open>Assertions that the polls of the child leave alone.\<close>

definition steady :: "(kernel_event list \<Rightarrow> bool) \<Rightarrow> bool" where
  "steady F \<longleftrightarrow> (\<forall>x l. F l \<longrightarrow> F (Exited x # l))"

text \<open>Assertions about the subreaper attribute only.\<close>

fun is_subreaper :: "kernel_event \<Rightarrow> bool" where
  "is_subreaper (Subreaper _ _) = True"
| "is_subreaper _ = False"

definition attribute :: "(kernel_event list \<Rightarrow> bool) \<Rightarrow> bool" where
  "attribute X \<longleftrightarrow> (\<forall>e l. X l \<longrightarrow> \<not> is_subreaper e \<longrightarrow> X (e # l))"

lemma try_wait_preserves [intro]: "steady F \<Longrightarrow> preserves F (kn_try_wait (logged_kernel k))"
  unfolding logged_ops
  by (rule preserves_logging) (auto simp: steady_def on_ok_def split: sum.split option.split)

lemmas waits_preserve = try_wait_preserves try_wait_preserves [unfolded logged_ops]

lemma collect_children_preserves: "preserves F (collect_children (logged_kernel k) own entries cs)"
proof (induction entries arbitrary: cs)
  case (Cons entry entries)
  then show ?case
    by (cases entry) (auto intro!: preserves_rules split: option.split)
qed simp

lemma direct_children_preserves [intro, simp]: "preserves F (direct_children (logged_kernel k))"
  unfolding direct_children_def
  by (auto intro!: preserves_rules collect_children_preserves)

lemma quiesce_turn_preserves: "preserves F (quiesce_turn (logged_kernel k) scope deadline u)"
  unfolding quiesce_turn_def is_adopted_def kill_adopted_def reap_adopted_def
  by (auto intro!: preserves_rules)

lemma terminate_and_reap_preserves: "preserves_run F (terminate_and_reap (logged_kernel k) scope)"
  unfolding terminate_and_reap_def
  by (rule valid_run_bindP [OF valid_runE preserves_loopP]) (auto intro: quiesce_turn_preserves)

lemma reap_preserves:
  assumes "steady F"
  shows "preserves_run F (reap (logged_kernel k) status)"
proof -
  have "preserves F (reap_turn (logged_kernel k) deadline u)" for deadline u
    unfolding reap_turn_def using assms by (auto intro!: preserves_rules waits_preserve)
  then show ?thesis
    unfolding reap_def reap_until_def
    by (cases status) (auto intro!: valid_runE valid_run_bindP preserves_loopP)
qed

section \<open>The supervised child\<close>

text \<open>
  The three phases of a call: \<open>idle\<close> before the child is there, \<open>running\<close> with data exchanged only
  since it was spawned, and \<open>contained\<close> when its process group was killed after all data.
\<close>

definition idle :: "kernel_event list \<Rightarrow> bool" where
  "idle l \<longleftrightarrow> list_all (\<lambda>e. \<not> is_data e \<and> \<not> is_signal e) l"

definition running :: "int \<Rightarrow> kernel_event list \<Rightarrow> bool" where
  "running pg l \<longleftrightarrow>
     (\<exists>a b. l = a @ Spawned pg # b \<and> list_all (\<lambda>e. \<not> is_signal e) a \<and> idle b)"

definition contained :: "kernel_event list \<Rightarrow> bool" where
  "contained l \<longleftrightarrow>
     idle l \<or> (\<exists>pg a b. l = a @ GroupKilled pg # b \<and> idle a \<and> running pg b)"

lemma running_Cons: "running pg l \<Longrightarrow> \<not> is_signal e \<Longrightarrow> running pg (e # l)"
  unfolding running_def
proof (elim exE conjE)
  fix a b
  assume "\<not> is_signal e" and "l = a @ Spawned pg # b" "list_all (\<lambda>e. \<not> is_signal e) a" "idle b"
  then have "e # l = (e # a) @ Spawned pg # b \<and> list_all (\<lambda>e. \<not> is_signal e) (e # a) \<and> idle b"
    by simp
  then show "\<exists>a b. e # l = a @ Spawned pg # b \<and> list_all (\<lambda>e. \<not> is_signal e) a \<and> idle b" by blast
qed

lemma contained_Cons:
  assumes "contained l" and "\<not> is_data e" "\<not> is_signal e"
  shows "contained (e # l)"
  using assms(1) unfolding contained_def
proof (elim disjE exE conjE)
  fix pg a b
  assume "l = a @ GroupKilled pg # b" "idle a" "running pg b"
  with assms(2,3) have "e # l = (e # a) @ GroupKilled pg # b \<and> idle (e # a) \<and> running pg b"
    by (simp add: idle_def)
  then show "idle (e # l) \<or> (\<exists>pg a b. e # l = a @ GroupKilled pg # b \<and> idle a \<and> running pg b)"
    by blast
qed (use assms(2,3) in \<open>simp add: idle_def\<close>)

lemma data_other: "is_data e \<Longrightarrow> \<not> is_signal e" "is_data e \<Longrightarrow> \<not> is_subreaper e"
  by (cases e; simp)+

lemma phases_steady:
  assumes "attribute X"
  shows "steady (\<lambda>l. running pg l \<and> X l)" "lasting (\<lambda>l. running pg l \<and> X l)"
    "steady (\<lambda>l. contained l \<and> X l)"
  using assms running_Cons contained_Cons data_other
  unfolding steady_def lasting_def attribute_def by auto

lemma contained_kill: "running pg l \<Longrightarrow> contained (GroupKilled pg # l)"
  unfolding contained_def idle_def
  by (rule disjI2, rule exI [of _ pg], rule exI [of _ "[]"], rule exI [of _ l]) simp

lemma poll_status_valid:
  assumes "steady F"
  shows "valid (\<lambda>w. tracks limits input st (snd w) \<and> F (snd w))
    (poll_status (logged_kernel k) (kn_try_wait (logged_kernel k)) program st)
    (\<lambda>_ w. F (snd w)) (\<lambda>(q, st') w. tracks limits input st' (snd w) \<and> F (snd w))"
proof (cases "su_status st")
  case None
  let ?T = "\<lambda>l. tracks limits input st l \<and> F l"
  have keep: "?T l \<Longrightarrow> ?T (Exited x # l)" for x l
    using assms None by (cases x) (auto simp: tracks_def captured_def ended_def steady_def)
  have 1: "valid (\<lambda>w. ?T (snd w)) (status_poll program (kn_try_wait (logged_kernel k)))
      (\<lambda>_ w. F (snd w))
      (\<lambda>r w. ?T (snd w) \<and> (\<forall>x. r = Some x \<longrightarrow> Exited x \<in> set (snd w)))"
    unfolding status_poll_def logged_ops
    by (rule valid_map_errE, rule validI)
      (auto simp: logging_def on_ok_def keep split: prod.splits sum.splits option.splits)
  have "valid (\<lambda>w. ?T (snd w) \<and> (\<forall>y. r = Some y \<longrightarrow> Exited y \<in> set (snd w)))
      (case r of None \<Rightarrow> okE (False, st)
       | Some reaped \<Rightarrow> bindE (answerE (kn_now (logged_kernel k))) (\<lambda>now.
           okE (True, st\<lparr>su_status := Some reaped, su_exit := Some now\<rparr>)))
      (\<lambda>_ w. F (snd w)) (\<lambda>(q, st') w. tracks limits input st' (snd w) \<and> F (snd w))" for r
    by (rule validI)
      (auto simp: bindE_def answerE_def okE_def tracks_def split: option.splits prod.splits sum.splits)
  note rest = this
  have "poll_status (logged_kernel k) (kn_try_wait (logged_kernel k)) program st =
      bindE (status_poll program (kn_try_wait (logged_kernel k))) (\<lambda>r. case r of
        None \<Rightarrow> okE (False, st)
      | Some reaped \<Rightarrow> bindE (answerE (kn_now (logged_kernel k))) (\<lambda>now.
          okE (True, st\<lparr>su_status := Some reaped, su_exit := Some now\<rparr>)))"
    using None by (simp add: poll_status_def del: logged_ops)
  then show ?thesis by (simp only: valid_bindE [OF 1 rest])
next
  case (Some x)
  then show ?thesis by (auto simp: poll_status_def intro: valid_basic)
qed

definition within_limits :: "output_limits \<Rightarrow> kernel_event list \<Rightarrow> bool" where
  "within_limits limits l \<longleftrightarrow> length (received Stdout l) \<le> ol_stdout limits \<and>
     length (received Stderr l) \<le> ol_stderr limits"

lemma check_limits_Inr:
  "tracks limits input st l \<Longrightarrow> check_limits program limits st = Inr u \<Longrightarrow> within_limits limits l"
  by (auto simp: check_limits_def within_limits_def tracks_def captured_def exceeded_def fail_if_def
      split: if_splits)

lemma within_limits_steady: "steady F \<Longrightarrow> steady (\<lambda>l. F l \<and> within_limits limits l)"
  by (auto simp: steady_def within_limits_def split: kernel_event.split)

lemma supervise_step_valid:
  assumes "lasting F" and "steady F"
  shows "valid (\<lambda>w. tracks limits input st (snd w) \<and> F (snd w))
    (supervise_step (logged_kernel k) (kn_try_wait (logged_kernel k)) program limits input st)
    (\<lambda>_ w. F (snd w))
    (\<lambda>(q, st') w. tracks limits input st' (snd w) \<and> F (snd w) \<and> within_limits limits (snd w))"
proof -
  let ?G = "\<lambda>l. F l \<and> within_limits limits l"
  have 1: "valid (\<lambda>w. tracks limits input st1 (snd w) \<and> F (snd w))
      (liftE (check_limits program limits st1)) (\<lambda>_ w. F (snd w))
      (\<lambda>_ w. tracks limits input st1 (snd w) \<and> ?G (snd w))" for st1
    by (rule validI) (auto simp: check_limits_Inr outcome_def split: sum.split)
  have 2: "valid (\<lambda>w. tracks limits input st1 (snd w) \<and> ?G (snd w))
      (poll_status (logged_kernel k) (kn_try_wait (logged_kernel k)) program st1) (\<lambda>_ w. F (snd w))
      (\<lambda>(q, st') w. tracks limits input st' (snd w) \<and> ?G (snd w))" for st1
    by (rule valid_weaken [OF poll_status_valid [OF within_limits_steady [OF assms(2)]]]) auto
  show ?thesis
    unfolding supervise_step_def
    by (rule valid_bindE_pair [OF pump_valid [OF assms(1)]], rule valid_bindE [OF 1],
        rule valid_bindE_pair [OF 2]) (auto intro: valid_basic)
qed

lemma supervise_turn_valid:
  assumes "lasting F" and "steady F"
  shows "valid (\<lambda>w. tracks limits input st (snd w) \<and> F (snd w))
    (supervise_turn (logged_kernel k) (kn_try_wait (logged_kernel k)) program limits input st)
    (\<lambda>_ w. F (snd w))
    (\<lambda>r w. case r of
       Inl st' \<Rightarrow> tracks limits input st' (snd w) \<and> F (snd w)
     | Inr st' \<Rightarrow> tracks limits input st' (snd w) \<and> F (snd w) \<and> within_limits limits (snd w) \<and>
         finished st')"
    (is "valid _ _ ?E ?B")
proof -
  let ?T = "\<lambda>st l. tracks limits input st l \<and> F l"
  have 1: "valid (\<lambda>w. ?T st (snd w)) (map_errE (\<lambda>e. (e, su_status st))
      (supervise_step (logged_kernel k) (kn_try_wait (logged_kernel k)) program limits input st))
      ?E (\<lambda>(q, st') w. ?T st' (snd w) \<and> within_limits limits (snd w))"
    by (rule valid_map_errE, rule valid_weaken [OF supervise_step_valid [OF assms]]) auto
  have over: "valid (\<lambda>w. ?T st' (snd w)) (grace_over (logged_kernel k) st') ?E
      (\<lambda>_ w. ?T st' (snd w))" for st'
    by (rule valid_weaken [where A = "\<lambda>w. ?T st' (snd w)" and E = "\<lambda>_ w. ?T st' (snd w)"])
      (auto simp: grace_over_def intro!: preserves_rules)
  have sleep: "valid (\<lambda>w. ?T st' (snd w))
      (if p then okE () else modifyE (kn_sleep (logged_kernel k) n)) ?E (\<lambda>_ w. ?T st' (snd w))"
    for st' p n
    by (rule valid_weaken [where A = "\<lambda>w. ?T st' (snd w)" and E = "\<lambda>_ w. ?T st' (snd w)"])
      (auto intro!: preserves_rules)
  have rest: "valid (\<lambda>w. ?T st' (snd w) \<and> within_limits limits (snd w))
      (settle (logged_kernel k) program p st') ?E ?B" for st' p
  proof (cases "finished st'")
    case True
    then show ?thesis by (auto simp: settle_def intro: valid_basic)
  next
    case False
    have "valid (\<lambda>w. ?T st' (snd w)) (settle (logged_kernel k) program p st') ?E ?B"
      unfolding settle_def if_not_P [OF False]
      by (rule valid_bindE [OF over], rule valid_if, rule valid_basic, simp,
          rule valid_bindE [OF sleep], rule valid_basic, simp)
    then show ?thesis by (rule valid_weaken) simp_all
  qed
  show ?thesis
    unfolding supervise_turn_def by (rule valid_bindE_pair [OF 1 rest])
qed

section \<open>The call\<close>

lemma supervise_valid:
  assumes "lasting F" and "steady F"
  shows "valid_run (\<lambda>w. tracks limits input st (snd w) \<and> F (snd w))
    (supervise (logged_kernel k) (kn_try_wait (logged_kernel k)) program limits input st)
    (\<lambda>_ w. F (snd w))
    (\<lambda>st' w. tracks limits input st' (snd w) \<and> F (snd w) \<and> within_limits limits (snd w) \<and>
      finished st')"
  unfolding supervise_def by (rule loopP_valid [OF supervise_turn_valid [OF assms]])

lemma kill_group_valid:
  "attribute X \<Longrightarrow> valid (\<lambda>w. running pg (snd w) \<and> X (snd w)) (ignoreE (kn_kill_group (logged_kernel k) pg)) E
     (\<lambda>_ w. contained (snd w) \<and> X (snd w))"
  by (rule validI)
    (auto simp: ignoreE_def logging_def contained_kill attribute_def split: prod.splits)

lemma terminate_tree_valid:
  assumes "attribute X"
  shows "valid (\<lambda>w. running pg (snd w) \<and> X (snd w)) (terminate_tree (logged_kernel k) pg)
    (\<lambda>_ w. contained (snd w) \<and> X (snd w)) (\<lambda>_ w. contained (snd w) \<and> X (snd w))"
proof -
  have "preserves (\<lambda>l. contained l \<and> X l) (bindE (attemptE (kn_try_wait (logged_kernel k))) (\<lambda>answer.
      case answer of Inr (Some status) \<Rightarrow> okE () | _ \<Rightarrow> ignoreE (kn_kill_child (logged_kernel k))))"
    using phases_steady(3) [OF assms] by (auto intro!: preserves_rules waits_preserve)
  then show ?thesis
    unfolding terminate_tree_def by (rule valid_bindE [OF kill_group_valid [OF assms]])
qed

lemma cancel_valid:
  assumes "attribute X"
  shows "valid_run (\<lambda>w. running pg (snd w) \<and> X (snd w)) (cancel (logged_kernel k) pg primary status)
     (\<lambda>_ w. contained (snd w) \<and> X (snd w)) B"
proof -
  have "valid_run (\<lambda>w. contained (snd w) \<and> X (snd w)) (attemptP (reap (logged_kernel k) status))
      (\<lambda>_ w. contained (snd w) \<and> X (snd w)) (\<lambda>_ w. contained (snd w) \<and> X (snd w))"
    by (rule valid_run_weaken [OF valid_attemptP [OF reap_preserves [OF phases_steady(3) [OF assms]]]])
      (auto simp: outcome_def split: sum.splits)
  then show ?thesis
    unfolding cancel_def
    by (rule valid_run_bindP [OF valid_runE [OF terminate_tree_valid [OF assms]] valid_run_bindP])
      (auto intro: valid_runE valid_basic)
qed

text \<open>What a successful call returns is what the log shows.\<close>

definition exact ::
  "output_limits \<Rightarrow> bytes \<Rightarrow> process_output \<Rightarrow> kernel_event list \<Rightarrow> bool" where
  "exact limits input out l \<longleftrightarrow>
     out_stdout out = received Stdout l \<and> ended Stdout l \<and>
     out_stderr out = received Stderr l \<and> ended Stderr l \<and>
     length (out_stdout out) \<le> ol_stdout limits \<and> length (out_stderr out) \<le> ol_stderr limits \<and>
     Exited (out_success out, out_status out) \<in> set l \<and> (\<exists>n. accepted l = take n input)"

lemma exact_Cons: "exact limits input out l \<Longrightarrow> \<not> is_data e \<Longrightarrow> exact limits input out (e # l)"
  by (cases e) (auto simp: exact_def ended_def)

lemma tracks_exact:
  "tracks limits input st l \<Longrightarrow> within_limits limits l \<Longrightarrow> finished st \<Longrightarrow> su_status st = Some s \<Longrightarrow>
   exact limits input \<lparr>out_success = fst s, out_status = snd s,
     out_stdout = cp_bytes (su_stdout st), out_stderr = cp_bytes (su_stderr st)\<rparr> l"
  by (auto simp: tracks_def captured_def within_limits_def exact_def finished_def complete_def)

lemma tracks_start:
  assumes "list_all (\<lambda>e. \<not> is_data e) l"
  shows "tracks limits input
    \<lparr>su_stdout = \<lparr>cp_open = True, cp_bytes = [], cp_limit = ol_stdout limits, cp_stream = Stdout\<rparr>,
     su_stderr = \<lparr>cp_open = True, cp_bytes = [], cp_limit = ol_stderr limits, cp_stream = Stderr\<rparr>,
     su_stdin = b, su_offset = 0, su_status = None, su_exit = None\<rparr> l"
proof -
  have "received s l = []" "accepted l = []" "\<not> ended s l" for s
    using assms by (induction l) (auto simp: ended_def split: kernel_event.split)
  then show ?thesis by (simp add: tracks_def captured_def)
qed

lemma capture_new_ok:
  "usize_add limit 1 \<noteq> None \<Longrightarrow>
   capture_new s limit = Inr \<lparr>cp_open = True, cp_bytes = [], cp_limit = limit, cp_stream = s\<rparr>"
  by (auto simp: capture_new_def)

lemma setup_pipes_preserves: "preserves F (setup_pipes (logged_kernel k) piped)"
  unfolding setup_pipes_def set_nonblocking_def by (auto intro!: preserves_rules)

lemma spawn_valid:
  assumes "attribute X"
  shows "valid (\<lambda>w. idle (snd w) \<and> X (snd w)) (kn_spawn (logged_kernel k) command piped)
    (\<lambda>_ w. contained (snd w) \<and> X (snd w))
    (\<lambda>pg w. running pg (snd w) \<and> X (snd w) \<and> list_all (\<lambda>e. \<not> is_data e) (snd w))"
proof -
  have start: "running pg (Spawned pg # l)" "list_all (\<lambda>e. \<not> is_data e) l" if "idle l" for pg l
    using that unfolding running_def
    by (metis append_Nil list.pred_inject(1), simp add: idle_def list_all_iff)
  show ?thesis
    using assms by (intro validI)
      (auto simp: logging_def on_ok_def contained_def start attribute_def
        split: prod.splits sum.splits)
qed

text \<open>
  What is asked of \<open>terminate_remaining_group\<close>: it kills the group, whatever else it does, and when it
  succeeds the group is \<open>gone\<close>, in a sense that depends on the system.
\<close>

definition untouched_by_io :: "(kernel_event list \<Rightarrow> bool) \<Rightarrow> bool" where
  "untouched_by_io F \<longleftrightarrow> (\<forall>e l. F l \<longrightarrow> \<not> is_data e \<longrightarrow> \<not> is_subreaper e \<longrightarrow> F (e # l))"

locale group_end =
  fixes k :: "'w kernel"
    and remaining :: "int \<Rightarrow> ('w \<times> kernel_event list, io_error, unit) run"
    and gone :: "int \<Rightarrow> kernel_event list \<Rightarrow> bool"
  assumes gone_contained: "gone pg l \<Longrightarrow> contained l"
    and ends: "untouched_by_io F \<Longrightarrow>
      valid_run (\<lambda>w. running pg (snd w) \<and> F (snd w)) (remaining pg)
        (\<lambda>_ w. contained (snd w) \<and> F (snd w)) (\<lambda>_ w. gone pg (snd w) \<and> F (snd w))"
begin

lemma conclude_valid:
  assumes "attribute X"
  shows "valid_run (\<lambda>w. running pg (snd w) \<and> X (snd w) \<and> (\<forall>st. r = Inr st \<longrightarrow> tracks limits input st (snd w) \<and>
      within_limits limits (snd w) \<and> finished st))
    (conclude (logged_kernel k) remaining pg r) (\<lambda>_ w. contained (snd w) \<and> X (snd w))
    (\<lambda>out w. gone pg (snd w) \<and> X (snd w) \<and> exact limits input out (snd w))"
proof (cases r)
  case (Inl e)
  then show ?thesis
    by (cases e) (auto simp: conclude_def intro: valid_run_weaken [OF cancel_valid [OF assms]])
next
  case (Inr st)
  let ?out = "\<lambda>s. \<lparr>out_success = fst s, out_status = snd s,
    out_stdout = cp_bytes (su_stdout st), out_stderr = cp_bytes (su_stderr st)\<rparr>"
  let ?F = "\<lambda>l. X l \<and> (\<forall>s. su_status st = Some s \<longrightarrow> exact limits input (?out s) l)"
  have "untouched_by_io ?F"
    using assms by (auto simp: untouched_by_io_def attribute_def exact_Cons)
  from ends [OF this, of pg]
  have "valid_run (\<lambda>w. running pg (snd w) \<and> X (snd w) \<and> tracks limits input st (snd w) \<and>
      within_limits limits (snd w) \<and> finished st) (remaining pg) (\<lambda>_ w. contained (snd w) \<and> X (snd w))
    (\<lambda>_ w. gone pg (snd w) \<and> X (snd w) \<and> (\<forall>s. su_status st = Some s \<longrightarrow> exact limits input (?out s) (snd w)))"
    by (rule valid_run_weaken) (auto dest: tracks_exact)
  note stop = valid_run_bindP [OF this]
  have "valid_run (\<lambda>w. running pg (snd w) \<and> X (snd w) \<and> tracks limits input st (snd w) \<and>
      within_limits limits (snd w) \<and> finished st)
    (conclude (logged_kernel k) remaining pg (Inr st)) (\<lambda>_ w. contained (snd w) \<and> X (snd w))
    (\<lambda>out w. gone pg (snd w) \<and> X (snd w) \<and> exact limits input out (snd w))"
    unfolding conclude_def sum.case
  proof (rule stop)
    fix x
    show "valid_run (\<lambda>w. gone pg (snd w) \<and> X (snd w) \<and>
        (\<forall>s. su_status st = Some s \<longrightarrow> exact limits input (?out s) (snd w)))
      (case su_status st of
         None \<Rightarrow> runE (failE (io_other ''direct child was not reaped''))
       | Some s \<Rightarrow> runE (okE (?out s))) (\<lambda>_ w. contained (snd w) \<and> X (snd w))
      (\<lambda>out w. gone pg (snd w) \<and> X (snd w) \<and> exact limits input out (snd w))"
      by (cases "su_status st") (auto intro!: valid_runE valid_basic dest: gone_contained)
  qed
  with Inr show ?thesis by simp
qed

lemma supervised_valid:
  assumes "attribute X" and "usize_add (ol_stdout limits) 1 \<noteq> None" and "usize_add (ol_stderr limits) 1 \<noteq> None"
  shows "valid_run (\<lambda>w. running pg (snd w) \<and> X (snd w) \<and> list_all (\<lambda>e. \<not> is_data e) (snd w))
    (supervised (logged_kernel k) remaining (kn_try_wait (logged_kernel k)) program limits input pg)
    (\<lambda>_ w. contained (snd w) \<and> X (snd w))
    (\<lambda>out w. gone pg (snd w) \<and> X (snd w) \<and> exact limits (case input of None \<Rightarrow> [] | Some b \<Rightarrow> b) out (snd w))"
proof -
  define bytes where "bytes = (case input of None \<Rightarrow> [] | Some b \<Rightarrow> b)"
  let ?st = "\<lparr>su_stdout = \<lparr>cp_open = True, cp_bytes = [], cp_limit = ol_stdout limits, cp_stream = Stdout\<rparr>,
     su_stderr = \<lparr>cp_open = True, cp_bytes = [], cp_limit = ol_stderr limits, cp_stream = Stderr\<rparr>,
     su_stdin = bytes \<noteq> [], su_offset = 0, su_status = None, su_exit = None\<rparr>"
  have "valid_run (\<lambda>w. running pg (snd w) \<and> X (snd w) \<and> list_all (\<lambda>e. \<not> is_data e) (snd w))
      (attemptP (supervise (logged_kernel k) (kn_try_wait (logged_kernel k)) program limits bytes ?st))
      (\<lambda>_ w. contained (snd w) \<and> X (snd w))
      (\<lambda>r w. running pg (snd w) \<and> X (snd w) \<and> (\<forall>st. r = Inr st \<longrightarrow> tracks limits bytes st (snd w) \<and>
         within_limits limits (snd w) \<and> finished st))"
    by (rule valid_run_weaken [OF valid_attemptP [OF supervise_valid
          [OF phases_steady(2,1) [OF assms(1)]]]])
      (auto simp: tracks_start outcome_def split: sum.splits)
  note loop = valid_run_bindP [OF this conclude_valid [OF assms(1)]]
  have "supervised (logged_kernel k) remaining (kn_try_wait (logged_kernel k)) program limits input pg =
      bindP (attemptP (supervise (logged_kernel k) (kn_try_wait (logged_kernel k)) program limits
        bytes ?st)) (conclude (logged_kernel k) remaining pg)"
    unfolding supervised_def bytes_def 
    by (simp add: capture_new_ok [OF assms(2)] capture_new_ok [OF assms(3)] Let_def)
  with loop show ?thesis unfolding bytes_def by (simp only:)
qed

lemma output_inner_valid:
  assumes "attribute X" and "usize_add (ol_stdout limits) 1 \<noteq> None"
    and "usize_add (ol_stderr limits) 1 \<noteq> None"
  shows "valid_run (\<lambda>w. idle (snd w) \<and> X (snd w))
    (output_inner (logged_kernel k) remaining command limits input (kn_try_wait (logged_kernel k)))
    (\<lambda>_ w. contained (snd w) \<and> X (snd w))
    (\<lambda>out w. (\<exists>pg. gone pg (snd w)) \<and> X (snd w) \<and>
      exact limits (case input of None \<Rightarrow> [] | Some b \<Rightarrow> b) out (snd w))"
    (is "valid_run _ _ ?E ?B")
proof -
  let ?S = "\<lambda>pg l. running pg l \<and> X l \<and> list_all (\<lambda>e. \<not> is_data e) l"
  have pipes: "valid (\<lambda>w. ?S pg (snd w)) (attemptE (setup_pipes (logged_kernel k) piped)) ?E
      (\<lambda>_ w. ?S pg (snd w))" for pg piped
    by (rule valid_weaken [OF valid_attemptE [OF setup_pipes_preserves [where F = "?S pg"]]])
      (auto simp: outcome_def split: sum.splits)
  have rest: "valid_run (\<lambda>w. ?S pg (snd w)) (case answer of
       Inl error \<Rightarrow> cancel (logged_kernel k) pg error None
     | Inr _ \<Rightarrow> supervised (logged_kernel k) remaining (kn_try_wait (logged_kernel k)) (cm_program command)
         limits input pg) ?E ?B" for pg and answer :: "io_error + unit"
    by (cases answer)
      (auto intro: valid_run_weaken [OF cancel_valid [OF assms(1)]]
        valid_run_weaken [OF supervised_valid [OF assms]] simp del: logged_ops)
  show ?thesis
    unfolding output_inner_def
    by (rule valid_run_bindP [OF valid_runE [OF spawn_valid [OF assms(1)]]],
        rule valid_run_bindP [OF valid_runE [OF pipes] rest])
qed

end

lemma linux_group_end:
  "group_end (\<lambda>pg. runE (terminate_remaining_group (logged_kernel k) pg)) (\<lambda>pg. contained)"
  by unfold_locales
    (auto intro!: valid_runE validI simp: terminate_remaining_group_def ignoreE_def logging_def contained_kill
      untouched_by_io_def split: prod.splits)

interpretation linux: group_end k "\<lambda>pg. runE (terminate_remaining_group (logged_kernel k) pg)" "\<lambda>pg. contained" for k
  by (rule linux_group_end)

section \<open>The scope\<close>

lemma valid_on_errorE:
  "valid A m (\<lambda>e w. E e (f w)) B \<Longrightarrow> valid A (on_errorE m f) E B"
  by (rule validI)
    (auto simp: on_errorE_def outcome_def dest!: valid_step split: prod.splits sum.splits)

text \<open>What a scope left: nothing, or the attribute it set, when it was not set before.\<close>

definition subreaper_set :: "'w kernel \<Rightarrow> bool \<Rightarrow> kernel_event list \<Rightarrow> bool" where
  "subreaper_set k was_enabled l \<longleftrightarrow>
     filter is_subreaper l = (if was_enabled then [] else [Subreaper (kn_pid_from_raw k 1) True])"

lemma subreaper_set_attribute: "attribute (subreaper_set k b)"
  by (simp add: attribute_def subreaper_set_def)

lemma scope_enter_valid:
  "valid (\<lambda>w. snd w = []) (scope_enter (logged_kernel k)) (\<lambda>_ w. idle (snd w))
    (\<lambda>scope w. idle (snd w) \<and> subreaper_set k (sc_was_enabled scope) (snd w))"
proof -
  let ?X = "\<lambda>b l. idle l \<and> subreaper_set k b l"
  have 0: "valid (\<lambda>w. snd w = []) (map_errE f (kn_lock (logged_kernel k))) (\<lambda>_ w. idle (snd w))
      (\<lambda>_ w. snd w = [])" for f :: "unit \<Rightarrow> io_error"
    by (rule valid_map_errE, rule validI) (auto simp: beside_def idle_def outcome_def
      split: prod.splits sum.split)
  have 1: "valid (\<lambda>w. snd w = []) (kn_child_subreaper (logged_kernel k)) (\<lambda>_ w. idle (snd w))
      (\<lambda>_ w. snd w = [])"
    by (rule validI) (auto simp: beside_def idle_def outcome_def split: prod.splits sum.split)
  have 2: "valid (\<lambda>w. snd w = [])
      (if b then okE () else kn_set_child_subreaper (logged_kernel k) (kn_pid_from_raw (logged_kernel k) 1))
      (\<lambda>_ w. idle (snd w)) (\<lambda>_ w. ?X b (snd w))" for b
    by (rule validI)
      (auto simp: logging_def idle_def outcome_def subreaper_set_def split: prod.splits sum.split if_splits)
  have 3: "valid (\<lambda>w. ?X b (snd w)) (direct_children (logged_kernel k)) (\<lambda>_ w. idle (snd w))
      (\<lambda>_ w. ?X b (snd w))" for b
    by (rule valid_weaken [OF direct_children_preserves [where F = "?X b"]]) simp_all
  have 4: "valid (\<lambda>w. ?X b (snd w)) (kn_getpgid (logged_kernel k) None) (\<lambda>_ w. idle (snd w))
      (\<lambda>_ w. ?X b (snd w))" for b
    unfolding logged_ops by (rule valid_weaken [OF preserves_basic(5) [where F = "?X b"]]) simp_all
  have unlock: "snd (kn_unlock (logged_kernel k) w) = snd w" for w
    by (cases w) simp
  show ?thesis
    unfolding scope_enter_def Let_def
    by (rule valid_bindE [OF 0], rule valid_on_errorE, unfold unlock, rule valid_bindE [OF 1],
        rule valid_bindE [OF 2], rule valid_bindE [OF 3], rule valid_bindE [OF 4],
        rule valid_basic, simp)
qed

text \<open>The attribute is as before: never touched, or set and then reset.\<close>

definition restored :: "'w kernel \<Rightarrow> kernel_event list \<Rightarrow> bool" where
  "restored k l \<longleftrightarrow> filter is_subreaper l = [] \<or>
     (\<exists>ok. filter is_subreaper l = [Subreaper None ok, Subreaper (kn_pid_from_raw k 1) True])"

lemma scope_drop_valid:
  assumes "\<And>b l. F l \<Longrightarrow> F (Subreaper None b # l)"
    and "F (snd w) \<and> subreaper_set k (sc_was_enabled scope) (snd w)"
  shows "F (snd (scope_drop (logged_kernel k) scope w)) \<and>
    restored k (snd (scope_drop (logged_kernel k) scope w))"
  using assms
  by (cases w) (auto simp: scope_drop_def logging_def restored_def subreaper_set_def split: prod.splits)

lemma scoped_valid:
  assumes "usize_add (ol_stdout limits) 1 \<noteq> None" and "usize_add (ol_stderr limits) 1 \<noteq> None"
  shows "valid_run (\<lambda>w. snd w = [])
    (output_with_status_poll (logged_kernel k) command limits input (kn_try_wait (logged_kernel k)))
    (\<lambda>_ w. contained (snd w) \<and> (restored k (snd w) \<or> idle (snd w)))
    (\<lambda>out w. contained (snd w) \<and> restored k (snd w) \<and>
      exact limits (case input of None \<Rightarrow> [] | Some b \<Rightarrow> b) out (snd w))"
    (is "valid_run _ _ ?E ?B")
proof -
  let ?i = "case input of None \<Rightarrow> [] | Some b \<Rightarrow> b"
  let ?X = "\<lambda>scope l. subreaper_set k (sc_was_enabled scope) l"
  let ?F = "\<lambda>r l. contained l \<and> (case r of Inl e \<Rightarrow> True | Inr out \<Rightarrow> exact limits ?i out l)"
  have enter: "valid (\<lambda>w. snd w = []) (scope_enter (logged_kernel k)) ?E
      (\<lambda>scope w. idle (snd w) \<and> ?X scope (snd w))"
    by (rule valid_weaken [OF scope_enter_valid]) (auto simp: contained_def)
  have inner: "valid_run (\<lambda>w. idle (snd w) \<and> ?X scope (snd w))
      (attemptP (output_inner (logged_kernel k) (\<lambda>pg. runE (terminate_remaining_group (logged_kernel k) pg))
        command limits input (kn_try_wait (logged_kernel k))))
      ?E (\<lambda>r w. ?F r (snd w) \<and> ?X scope (snd w))" for scope
    by (rule valid_run_weaken [OF valid_attemptP [OF linux.output_inner_valid
          [OF subreaper_set_attribute assms]]]) (auto simp: outcome_def split: sum.splits)
  have reaped: "valid_run (\<lambda>w. ?F r (snd w) \<and> ?X scope (snd w))
      (attemptP (terminate_and_reap (logged_kernel k) scope)) ?E
      (\<lambda>_ w. ?F r (snd w) \<and> ?X scope (snd w))" for r scope
    by (rule valid_run_weaken [OF valid_attemptP [OF terminate_and_reap_preserves
          [where F = "\<lambda>l. ?F r l \<and> ?X scope l"]]]) (auto simp: outcome_def split: sum.splits)
  have keep: "?F r l \<Longrightarrow> ?F r (Subreaper None b # l)" for r l b
    by (auto intro: contained_Cons exact_Cons split: sum.splits)
  have dropped: "valid (\<lambda>w. ?F r (snd w) \<and> ?X scope (snd w))
      (modifyE (scope_drop (logged_kernel k) scope)) ?E
      (\<lambda>_ w. ?F r (snd w) \<and> restored k (snd w))" for r scope
    by (rule valid_modifyE, rule scope_drop_valid [where F = "?F r"], rule keep)
  have joined: "valid (\<lambda>w. ?F r (snd w) \<and> restored k (snd w)) (liftE (join_results r c)) ?E ?B" for r c
    by (rule valid_basic) (auto simp: join_results_def outcome_def split: sum.splits)
  show ?thesis
    unfolding output_with_status_poll_def
    by (rule valid_run_bindP [OF valid_runE [OF enter]], rule valid_run_bindP [OF inner],
        rule valid_run_bindP [OF reaped], rule valid_run_bindP [OF valid_runE [OF dropped]],
        rule valid_runE [OF joined])
qed

lemma bounded_output_valid:
  "valid_run (\<lambda>w. snd w = []) (bounded_output (logged_kernel k) command input limits)
    (\<lambda>_ w. contained (snd w) \<and> (restored k (snd w) \<or> idle (snd w)))
    (\<lambda>out w. contained (snd w) \<and> restored k (snd w) \<and>
      exact limits (case input of None \<Rightarrow> [] | Some b \<Rightarrow> b) out (snd w))"
proof (cases "validate_limits limits input")
  case (Inl e)
  then show ?thesis
    unfolding bounded_output_def
    by (auto simp: contained_def idle_def intro!: valid_runE valid_basic)
next
  case (Inr u)
  then have "usize_add (ol_stdout limits) 1 \<noteq> None" "usize_add (ol_stderr limits) 1 \<noteq> None"
    by (auto simp: validate_limits_def bindR_Inr ok_or_Inr)
  from scoped_valid [OF this] Inr show ?thesis
    unfolding bounded_output_def by (simp del: logged_ops)
qed

text \<open>
  C12: whatever the machine does, a bounded subprocess call that returns has killed the process group
  of the child it started, after every byte it exchanged with it. When it succeeds, its output is all
  the child wrote to the two pipes until they were closed, each within its limit, its status is the
  one the child exited with, and the child was given a prefix of the input and nothing else.
\<close>

theorem subprocess_exact:
  "case bounded_output (logged_kernel k) command input limits (w, []) of
     None \<Rightarrow> True
   | Some (Inl e, (w', l)) \<Rightarrow> contained l
   | Some (Inr out, (w', l)) \<Rightarrow>
       contained l \<and> exact limits (case input of None \<Rightarrow> [] | Some b \<Rightarrow> b) out l"
  using valid_runD [OF bounded_output_valid, of "(w, [])" k command input limits]
  by (auto simp: outcome_def split: option.split prod.splits sum.splits)

text \<open>
  A call that started a child leaves the subreaper attribute of the calling process as it was:
  it did not touch the attribute, or it set it and then reset it.
\<close>

lemma subreaper_restored:
  "case bounded_output (logged_kernel k) command input limits (w, []) of
     None \<Rightarrow> True
   | Some (Inl e, (w', l)) \<Rightarrow> restored k l \<or> idle l
   | Some (Inr out, (w', l)) \<Rightarrow> restored k l"
  using valid_runD [OF bounded_output_valid, of "(w, [])" k command input limits]
  by (auto simp: outcome_def split: option.split prod.splits sum.splits)

end
