(* ===== verification/Clocks.thy ===== *)
theory Clocks
  imports Loops
begin

text \<open>
  Clocks and progress: what it takes of a machine that waiting on it ends. The measures are the monotonic
  clock and the number of polls that still find a child running.
\<close>

section \<open>Gauges\<close>

record 'w gauge =
  ga_clock :: "'w \<Rightarrow> nat"
  ga_alive :: "'w \<Rightarrow> nat"

definition later :: "'w gauge \<Rightarrow> 'w \<Rightarrow> 'w \<Rightarrow> bool" where
  "later g w w' \<longleftrightarrow> ga_clock g w \<le> ga_clock g w' \<and> ga_alive g w' \<le> ga_alive g w"

definition passes :: "'w gauge \<Rightarrow> ('w, 'e, 'a) eff \<Rightarrow> bool" where
  "passes g m \<longleftrightarrow> (\<forall>w. later g w (snd (m w)))"

text \<open>
  A clock reading lies between the clock before and after it, sleeping takes its time, and a poll
  that finds the child running uses one up.
\<close>

definition reads_clock :: "'w gauge \<Rightarrow> ('w \<Rightarrow> nat \<times> 'w) \<Rightarrow> bool" where
  "reads_clock g now \<longleftrightarrow> (\<forall>w. later g w (snd (now w)) \<and> ga_clock g w \<le> fst (now w) \<and>
     fst (now w) \<le> ga_clock g (snd (now w)))"

definition sleeps :: "'w gauge \<Rightarrow> (nat \<Rightarrow> 'w \<Rightarrow> 'w) \<Rightarrow> bool" where
  "sleeps g sleep \<longleftrightarrow> (\<forall>d w. later g w (sleep d w) \<and> ga_clock g w + d \<le> ga_clock g (sleep d w))"

definition polls :: "'w gauge \<Rightarrow> ('w, 'e, 'a option) eff \<Rightarrow> bool" where
  "polls g poll \<longleftrightarrow> (\<forall>w. later g w (snd (poll w)) \<and> (fst (poll w) = Inr None \<longrightarrow>
     ga_alive g (snd (poll w)) < ga_alive g w))"

lemma later_refl [simp]: "later g w w"
  by (simp add: later_def)

lemma later_trans: "later g u v \<Longrightarrow> later g v w \<Longrightarrow> later g u w"
  by (auto simp: later_def)

lemma passes_step: "passes g m \<Longrightarrow> m w = (r, w') \<Longrightarrow> later g w w'"
  unfolding passes_def by (metis snd_conv)

lemma passes_basic [intro, simp]:
  "passes g (okE x)" "passes g (failE e)" "passes g (liftE q)" "passes g (fail_ifE b e)"
  by (simp_all add: passes_def)

lemma passes_bindE: "passes g m \<Longrightarrow> (\<And>x. passes g (f x)) \<Longrightarrow> passes g (bindE m f)"
  unfolding passes_def bindE_def
  by (auto split: prod.split sum.split intro: later_trans)

lemma passes_other:
  "passes g m \<Longrightarrow> passes g (map_errE f m)"
  "passes g m \<Longrightarrow> passes g (attemptE m)"
  "passes g m \<Longrightarrow> passes g (ignoreE m)"
  "(b \<Longrightarrow> passes g m) \<Longrightarrow> (\<not> b \<Longrightarrow> passes g n) \<Longrightarrow> passes g (if b then m else n)"
  "passes g m \<Longrightarrow> (\<And>y. passes g (h y)) \<Longrightarrow> passes g (case x of None \<Rightarrow> m | Some y \<Rightarrow> h y)"
  "(\<And>e. passes g (u e)) \<Longrightarrow> (\<And>y. passes g (h y)) \<Longrightarrow>
   passes g (case z of Inl e \<Rightarrow> u e | Inr y \<Rightarrow> h y)"
  "(\<And>y z. passes g (v y z)) \<Longrightarrow> passes g (case p of (y, z) \<Rightarrow> v y z)"
  by (auto simp: passes_def map_errE_def attemptE_def ignoreE_def split: prod.split option.split sum.split)
    (metis snd_conv)+

lemma passes_forE: "(\<And>x. passes g (f x)) \<Longrightarrow> passes g (forE xs f)"
  by (induction xs) (auto intro: passes_bindE)

lemma passes_answerE: "(\<And>w. later g w (snd (f w))) \<Longrightarrow> passes g (answerE f)"
  by (simp add: passes_def answerE_def split: prod.split) (metis snd_conv)

lemma clock_passes:
  "reads_clock g now \<Longrightarrow> passes g (answerE now)"
  "sleeps g sleep \<Longrightarrow> passes g (modifyE (sleep d))"
  "polls g poll \<Longrightarrow> passes g poll"
  by (rule passes_answerE) (simp_all add: reads_clock_def sleeps_def polls_def passes_def modifyE_def)

lemma clock_step:
  assumes "reads_clock g now" and "now w = (t, w')"
  shows "ga_clock g w \<le> t" "t \<le> ga_clock g w'" "later g w w'"
  using assms by (auto simp: reads_clock_def) (metis fst_conv snd_conv)+

lemma sleeping_step:
  assumes "sleeps g sleep"
  shows "ga_clock g w + d \<le> ga_clock g (sleep d w)" "later g w (sleep d w)"
  using assms by (auto simp: sleeps_def)

lemma polling_step:
  assumes "polls g poll" and "poll w = (r, w')"
  shows "later g w w'" "r = Inr None \<Longrightarrow> ga_alive g w' < ga_alive g w"
  using assms by (auto simp: polls_def) (metis fst_conv snd_conv)+

section \<open>Loops with a deadline\<close>

lemma deadline_loop:
  assumes "\<And>w w'. body () w = (Inr (Inl ()), w') \<Longrightarrow>
    ga_clock g w < deadline \<and> ga_clock g w < ga_clock g w'"
  shows "returns A (loopP body ())"
proof -
  have "\<exists>q. loopP body () w = Some q" for w
    by (rule loopP_total [where I = "\<lambda>_ _. True" and
          R = "measure (\<lambda>(s, w). deadline - ga_clock g w)"])
      (use assms in \<open>auto intro: diff_less_mono2\<close>)
  then show ?thesis by (auto simp: returns_def)
qed

text \<open>A turn that looks at the clock, finds time left and sleeps.\<close>

lemma wait_progress:
  assumes "reads_clock g now" and "sleeps g sleep" and "0 < d" and "later g w w1"
    and "now w1 = (t, w2)" and "\<not> deadline \<le> t"
  shows "ga_clock g w < deadline \<and> ga_clock g w < ga_clock g (sleep d w2)"
  using assms(3,4,6) clock_step [OF assms(1,5)] sleeping_step(1) [OF assms(2), of w2 d]
  by (auto simp: later_def)

text \<open>Polling a child until it is reaped or the deadline has passed.\<close>

lemma poll_until_returns:
  assumes "reads_clock g now" and "sleeps g sleep" and "polls g poll" and "0 < d"
  shows "returns A (loopP (\<lambda>u. bindE poll (\<lambda>answer. case answer of
       Some status \<Rightarrow> okE (Inr status)
     | None \<Rightarrow> bindE (answerE now) (\<lambda>n.
         if deadline \<le> n then failE e
         else bindE (modifyE (sleep d)) (\<lambda>_. okE (Inl ()))))) ())" (is "returns A (loopP ?body ())")
proof (rule deadline_loop [where g = g and deadline = deadline])
  fix w w'
  assume "?body () w = (Inr (Inl ()), w')"
  then obtain answer w1 where "poll w = (Inr answer, w1)" and
      rest: "(case answer of
         Some status \<Rightarrow> okE (Inr status)
       | None \<Rightarrow> bindE (answerE now) (\<lambda>n.
           if deadline \<le> n then failE e
           else bindE (modifyE (sleep d)) (\<lambda>_. okE (Inl ())))) w1 = (Inr (Inl ()), w')"
    by (rule bindE_InrE)
  from rest obtain t w2 where "now w1 = (t, w2)" "\<not> deadline \<le> t" "w' = sleep d w2"
    by (cases answer) (auto simp: bindE_Inr answerE_Inr modifyE_Inr split: if_splits)
  with polling_step(1) [OF assms(3) \<open>poll w = (Inr answer, w1)\<close>] wait_progress [OF assms(1,2,4)]
  show "ga_clock g w < deadline \<and> ga_clock g w < ga_clock g w'" by blast
qed

end
