(* ===== verification/SupervisionEnds.thy ===== *)
theory SupervisionEnds
  imports Supervision Clocks
begin

text \<open>
  Termination of bounded subprocess calls. The supervision loop has no deadline of its own: it ends
  because the child exits, because data is bounded, and because after the exit the clock runs
  through the grace period. \<open>live_kernel\<close> states what this takes of the machine.
\<close>

section \<open>A live machine\<close>

text \<open>No operation turns the clock back or makes the child run longer.\<close>

definition live_kernel :: "'w kernel \<Rightarrow> 'w gauge \<Rightarrow> bool" where
  "live_kernel k g \<longleftrightarrow>
     reads_clock g (kn_now k) \<and> sleeps g (kn_sleep k) \<and> polls g (kn_try_wait k) \<and>
     (\<forall>s n. passes g (kn_read k s n)) \<and> (\<forall>b. passes g (kn_write k b)) \<and>
     (\<forall>w. later g w (snd (kn_own_pid k w))) \<and> (\<forall>p. passes g (kn_read_dir k p)) \<and>
     (\<forall>p. passes g (kn_read_to_string k p)) \<and> (\<forall>q. passes g (kn_getpgid k q)) \<and>
     (\<forall>p. passes g (kn_kill_process k p)) \<and> (\<forall>p. passes g (kn_waitpid k p))"

lemma passes_filterE: "(\<And>x. passes g (f x)) \<Longrightarrow> passes g (filterE f xs)"
  by (induction xs) (auto intro!: passes_bindE)

lemmas passes_rules = passes_basic passes_bindE passes_other passes_forE passes_filterE

lemma live_passes:
  assumes "live_kernel k g"
  shows "passes g (answerE (kn_now k))" "passes g (modifyE (kn_sleep k d))" "passes g (kn_try_wait k)"
    "passes g (kn_read k s n)" "passes g (kn_write k b)" "passes g (answerE (kn_own_pid k))"
    "passes g (kn_read_dir k p)" "passes g (kn_read_to_string k p)" "passes g (kn_getpgid k q)"
    "passes g (kn_kill_process k i)" "passes g (kn_waitpid k i)"
  using assms
  by (simp_all add: live_kernel_def clock_passes passes_answerE)

lemma live_progress:
  "live_kernel k g \<Longrightarrow> reads_clock g (kn_now k)"
  "live_kernel k g \<Longrightarrow> sleeps g (kn_sleep k)"
  "live_kernel k g \<Longrightarrow> polls g (kn_try_wait k)"
  by (simp_all add: live_kernel_def)

lemmas now_step = clock_step [OF live_progress(1)]

lemmas sleep_step = sleeping_step [OF live_progress(2)]

lemmas poll_step = polling_step [OF live_progress(3)]

section \<open>Loops with a deadline\<close>

lemma collect_children_passes:
  assumes "live_kernel k g"
  shows "passes g (collect_children k own entries cs)"
proof (induction entries arbitrary: cs)
  case (Cons entry entries)
  then show ?case
    by (cases entry) (auto intro!: passes_rules live_passes [OF assms] split: option.split)
qed simp

lemma direct_children_passes: "live_kernel k g \<Longrightarrow> passes g (direct_children k)"
  unfolding direct_children_def
  by (auto intro!: passes_rules live_passes collect_children_passes)

lemma wait_step:
  "live_kernel k g \<Longrightarrow> later g w w1 \<Longrightarrow> kn_now k w1 = (t, w2) \<Longrightarrow> \<not> deadline \<le> t \<Longrightarrow>
   ga_clock g w < deadline \<and> ga_clock g w < ga_clock g (kn_sleep k POLL_INTERVAL w2)"
  by (rule wait_progress [OF live_progress(1,2)]) (simp_all add: POLL_INTERVAL_def)

lemma reap_until_returns:
  "live_kernel k g \<Longrightarrow> returns A (reap_until k deadline)"
  unfolding reap_until_def reap_turn_def
  by (rule poll_until_returns [OF live_progress]) (simp_all add: POLL_INTERVAL_def)

lemma quiesce_returns:
  fixes k :: "'w kernel"
  assumes "live_kernel k g"
  shows "returns A (loopP (quiesce_turn k scope deadline) ())"
proof (rule deadline_loop [where g = g and deadline = deadline])
  fix w w'
  let ?adopted = "\<lambda>children. filterE (is_adopted k scope)
    (filter (\<lambda>pid. pid \<notin> set (sc_baseline scope)) children) :: ('w, io_error, int list) eff"
  let ?kill = "\<lambda>adopted. forE adopted (kill_adopted k) :: ('w, io_error, unit) eff"
  assume "quiesce_turn k scope deadline () w = (Inr (Inl ()), w')"
  then obtain children adopted u v w1 w2 w3 w4 t w5 where
      1: "direct_children k w = (Inr children, w1)" and 2: "?adopted children w1 = (Inr adopted, w2)"
      and 3: "?kill adopted w2 = (Inr u, w3)"
      and 4: "forE adopted (reap_adopted k) w3 = (Inr v, w4)"
      and 5: "kn_now k w4 = (t, w5)" "\<not> deadline \<le> t" and 6: "w' = kn_sleep k POLL_INTERVAL w5"
    unfolding quiesce_turn_def
    by (elim bindE_InrE) (auto elim!: bindE_InrE simp: answerE_Inr modifyE_Inr split: if_splits)
  have "passes g (?adopted children)" "passes g (?kill adopted)"
      "passes g (forE adopted (reap_adopted k))"
    unfolding is_adopted_def kill_adopted_def reap_adopted_def
    by (auto intro!: passes_rules live_passes [OF assms])
  with 1 2 3 4 have "later g w w4"
    by (meson direct_children_passes [OF assms] later_trans passes_step)
  from wait_step [OF assms this 5] 6
  show "ga_clock g w < deadline \<and> ga_clock g w < ga_clock g w'" by simp
qed

lemma terminate_and_reap_returns:
  "live_kernel k g \<Longrightarrow> returns A (terminate_and_reap k scope)"
  unfolding terminate_and_reap_def
  by (rule returns_bindP [where B = "\<lambda>_ _. True"])
    (auto intro: returns_runE quiesce_returns simp: valid_run_def outcome_def split: sum.split)

lemma reap_returns: "live_kernel k g \<Longrightarrow> returns A (reap k status)"
  unfolding reap_def
  by (cases status) (auto intro!: returns_runE returns_bindP [where B = "\<lambda>_ _. True"]
      reap_until_returns simp: valid_run_def outcome_def split: sum.split)

section \<open>The supervision loop\<close>

text \<open>
  What is left to exchange: the bytes up to a stream's sentinel and its end, the rest of the input and
  the closing of its pipe. A turn that progressed made it smaller.
\<close>

definition pending :: "capture \<Rightarrow> nat" where
  "pending c = (if cp_open c then Suc (sentinel c - length (cp_bytes c)) else 0)"

definition unsent :: "bytes \<Rightarrow> bool \<Rightarrow> nat \<Rightarrow> nat" where
  "unsent input writer offset = (if writer then Suc (length input - offset) else 0)"

lemma drain_loop_pending:
  assumes "drain_loop k c p w = (Inr (q, c'), w')" and "cp_open c" "length (cp_bytes c) < sentinel c"
  shows "pending c' \<le> pending c \<and> (q \<longrightarrow> p \<or> pending c' < pending c)"
  using assms
proof (induction k c p w rule: drain_loop.induct)
  case (1 k c p w)
  obtain a w1 where read: "kn_read k (cp_stream c) (wanted c) w = (a, w1)"
    by (cases "kn_read k (cp_stream c) (wanted c) w")
  show ?case
  proof (cases a)
    case (Inl e)
    with read "1.prems" show ?thesis by (auto simp: drain_loop.simps [of k c] split: if_splits)
  next
    case (Inr chunk)
    let ?c = "c\<lparr>cp_bytes := cp_bytes c @ chunk\<rparr>"
    consider "chunk = []" | "chunk \<noteq> []" "sentinel c \<le> length (cp_bytes ?c)"
      | "chunk \<noteq> []" "\<not> sentinel c \<le> length (cp_bytes ?c)" by blast
    then show ?thesis
    proof cases
      case 3
      with "1.prems"(1) read Inr have rest: "drain_loop k ?c True w1 = (Inr (q, c'), w')"
        by (simp add: drain_loop.simps [of k c])
      from "1.IH" [OF read [symmetric] Inr 3(1) refl 3(2) rest] 3 "1.prems"(2,3)
      have "pending c' \<le> pending ?c" by (simp add: sentinel_def)
      moreover from 3 "1.prems"(2,3) have "pending ?c < pending c"
        by (cases chunk) (auto simp: pending_def sentinel_def)
      ultimately show ?thesis by simp
    qed (use "1.prems" read Inr in
        \<open>cases chunk; auto simp: drain_loop.simps [of k c] pending_def sentinel_def\<close>)+
  qed
qed

lemma drain_pending:
  "drain k c w = (Inr (q, c'), w') \<Longrightarrow> pending c' \<le> pending c \<and> (q \<longrightarrow> pending c' < pending c)"
  by (cases "cp_open c \<and> length (cp_bytes c) < sentinel c")
    (auto simp: drain_def dest: drain_loop_pending split: if_splits)

lemma write_loop_unsent:
  assumes "write_loop k input offset p w = (Inr (q, writer, offset'), w')"
  shows "unsent input writer offset' \<le> unsent input True offset \<and>
    (q \<longrightarrow> p \<or> unsent input writer offset' < unsent input True offset)"
  using assms
proof (induction k input offset p w rule: write_loop.induct)
  case (1 k input offset p w)
  obtain a w1 where wrote: "kn_write k (drop offset input) w = (a, w1)"
    by (cases "kn_write k (drop offset input) w")
  consider "length input \<le> offset" | e where "\<not> length input \<le> offset" "a = Inl e"
    | n where "\<not> length input \<le> offset" "a = Inr n" by (cases a) auto
  then show ?case
  proof cases
    case (3 n)
    with wrote "1.prems" have n: "n \<noteq> 0" and
      rest: "write_loop k input (offset + n) True w1 = (Inr (q, writer, offset'), w')"
      by (auto simp: write_loop.simps [of k input offset] split: if_splits)
    from "1.IH" [OF 3(1) wrote [symmetric] 3(2) n rest]
    have "unsent input writer offset' \<le> unsent input True (offset + n)" by simp
    moreover from 3 n have "unsent input True (offset + n) < unsent input True offset"
      by (auto simp: unsent_def)
    ultimately show ?thesis by simp
  qed (use "1.prems" wrote in
      \<open>auto simp: write_loop.simps [of k input offset] unsent_def split: if_splits\<close>)
qed

lemma write_input_unsent:
  "write_input k input writer offset w = (Inr (q, writer', offset'), w') \<Longrightarrow>
   unsent input writer' offset' \<le> unsent input writer offset \<and>
   (q \<longrightarrow> unsent input writer' offset' < unsent input writer offset)"
  by (cases writer) (auto simp: write_input_def unsent_def dest: write_loop_unsent)

lemma drain_loop_later:
  "\<forall>s n. passes g (kn_read k s n) \<Longrightarrow> later g w (snd (drain_loop k c p w))"
proof (induction k c p w rule: drain_loop.induct)
  case (1 k c p w)
  obtain a w1 where read: "kn_read k (cp_stream c) (wanted c) w = (a, w1)"
    by (cases "kn_read k (cp_stream c) (wanted c) w")
  with 1(2) have w1: "later g w w1" by (blast intro: passes_step)
  let ?c = "c\<lparr>cp_bytes := cp_bytes c @ chunk\<rparr>"
  have "later g w1 (snd (drain_loop k (c\<lparr>cp_bytes := cp_bytes c @ chunk\<rparr>) True w1))"
    if "a = Inr chunk" "chunk \<noteq> []" "\<not> sentinel c \<le> length (cp_bytes (c\<lparr>cp_bytes := cp_bytes c @ chunk\<rparr>))"
    for chunk
    using 1(1) [OF read [symmetric] that(1,2) refl that(3) 1(2)] .
  with w1 read show ?case
    by (cases a) (auto simp: drain_loop.simps [of k c] Let_def intro: later_trans split: if_splits)
qed

lemma write_loop_later:
  "\<forall>b. passes g (kn_write k b) \<Longrightarrow> later g w (snd (write_loop k input offset p w))"
proof (induction k input offset p w rule: write_loop.induct)
  case (1 k input offset p w)
  obtain a w1 where wrote: "kn_write k (drop offset input) w = (a, w1)"
    by (cases "kn_write k (drop offset input) w")
  with 1(2) have w1: "later g w w1" by (blast intro: passes_step)
  have "later g w1 (snd (write_loop k input (offset + n) True w1))"
    if "\<not> length input \<le> offset" "a = Inr n" "n \<noteq> 0" for n
    using 1(1) [OF that(1) wrote [symmetric] that(2,3) 1(2)] .
  with w1 wrote show ?case
    by (cases a) (auto simp: write_loop.simps [of k input offset] intro: later_trans split: if_splits)
qed

lemma pipes_pass:
  assumes "live_kernel k g"
  shows "passes g (drain k c)" "passes g (write_input k input writer offset)"
  using assms
  by (auto simp: drain_def write_input_def passes_def live_kernel_def
      intro: drain_loop_later [unfolded passes_def] write_loop_later [unfolded passes_def])

definition load :: "bytes \<Rightarrow> supervisor \<Rightarrow> nat" where
  "load input st = pending (su_stdout st) + pending (su_stderr st)
     + unsent input (su_stdin st) (su_offset st)"

lemma pump_progress:
  assumes "live_kernel k g" and "pump k input st w = (Inr (p, st'), w')"
  shows "later g w w'" "load input st' \<le> load input st" "p \<Longrightarrow> load input st' < load input st"
    "su_status st' = su_status st" "su_exit st' = su_exit st"
proof -
  from assms(2) obtain a out w1 b err w2 c writer offset where
      1: "drain k (su_stdout st) w = (Inr (a, out), w1)"
      and 2: "drain k (su_stderr st) w1 = (Inr (b, err), w2)"
      and 3: "write_input k input (su_stdin st) (su_offset st) w2 = (Inr (c, writer, offset), w')"
      and st': "st' = st\<lparr>su_stdout := out, su_stderr := err, su_stdin := writer, su_offset := offset\<rparr>"
      and p: "p = (a \<or> b \<or> c)"
    by (rule pump_InrE)
  from drain_pending [OF 1] drain_pending [OF 2] write_input_unsent [OF 3]
  show "load input st' \<le> load input st" "p \<Longrightarrow> load input st' < load input st"
    by (auto simp: st' p load_def)
  show "later g w w'"
    using passes_step [OF pipes_pass(1) [OF assms(1)] 1]
      passes_step [OF pipes_pass(1) [OF assms(1)] 2]
      passes_step [OF pipes_pass(2) [OF assms(1)] 3] by (blast intro: later_trans)
qed (use assms(2) in \<open>auto simp: pump_def bindE_Inr\<close>)

text \<open>The status and the instant of the exit are set together, once.\<close>

lemma poll_progress:
  fixes k :: "'w kernel"
  assumes "live_kernel k g" and "poll_status k (kn_try_wait k) program st w = (Inr (q, st'), w')"
  shows "later g w w'" "load input st' = load input st"
    "su_status st \<noteq> None \<Longrightarrow> \<not> q \<and> st' = st"
    "su_status st = None \<Longrightarrow> \<not> q \<and> st' = st \<and> ga_alive g w' < ga_alive g w \<or>
       su_status st' \<noteq> None \<and> su_exit st' \<noteq> None"
proof -
  consider "su_status st \<noteq> None" "\<not> q" "st' = st" "w' = w"
    | "su_status st = None" "kn_try_wait k w = (Inr None, w')" "\<not> q" "st' = st"
    | s w1 t where "su_status st = None" "kn_try_wait k w = (Inr (Some s), w1)"
        "kn_now k w1 = (t, w')" "st' = st\<lparr>su_status := Some s, su_exit := Some t\<rparr>"
  proof (cases "su_status st = None")
    case True
    with assms(2) obtain answer w1 where answer: "kn_try_wait k w = (Inr answer, w1)" and
      rest: "((case answer of None \<Rightarrow> okE (False, st)
        | Some reaped \<Rightarrow> bindE (answerE (kn_now k)) (\<lambda>now.
            okE (True, st\<lparr>su_status := Some reaped, su_exit := Some now\<rparr>)))
         :: ('w, io_error, bool \<times> supervisor) eff) w1 = (Inr (q, st'), w')"
      by (auto simp: poll_status_def status_poll_def map_errE_Inr elim!: bindE_InrE)
    show thesis
    proof (cases answer)
      case None
      with rest answer show thesis by (intro that(2) True) auto
    next
      case (Some s)
      obtain t w2 where now: "kn_now k w1 = (t, w2)" by (cases "kn_now k w1")
      with Some rest have "st' = st\<lparr>su_status := Some s, su_exit := Some t\<rparr>" "w' = w2"
        by (auto simp: bindE_def answerE_def okE_def)
      with answer Some now show thesis by (intro that(3) [OF True, of s w1 t]) simp_all
    qed
  next
    case False
    then have "poll_status k (kn_try_wait k) program st = okE (False, st)"
      by (simp add: poll_status_def)
    with assms(2) have "\<not> q" "st' = st" "w' = w" by (simp_all add: okE_def)
    with False show thesis by (intro that(1))
  qed
  note cases = this
  from cases show "later g w w'"
  proof cases
    case (3 s w1 t)
    from poll_step(1) [OF assms(1) 3(2)] now_step(3) [OF assms(1) 3(3)] show ?thesis
      by (rule later_trans)
  qed (simp_all add: poll_step(1) [OF assms(1)])
  from cases show "load input st' = load input st" by cases (auto simp: load_def)
  from cases show "su_status st \<noteq> None \<Longrightarrow> \<not> q \<and> st' = st" by cases auto
  from cases show "su_status st = None \<Longrightarrow> \<not> q \<and> st' = st \<and> ga_alive g w' < ga_alive g w \<or>
       su_status st' \<noteq> None \<and> su_exit st' \<noteq> None"
    by cases (use poll_step(2) [OF assms(1)] in auto)
qed

text \<open>
  The measure of the loop, compared lexicographically: the polls that find the child running, what
  is left to exchange, and the rest of the grace period.
\<close>

definition loop_measure :: "'w gauge \<Rightarrow> bytes \<Rightarrow> supervisor \<times> 'w \<Rightarrow> nat \<times> nat \<times> nat" where
  "loop_measure g input = (\<lambda>(st, w).
     (if su_status st = None then Suc (ga_alive g w) else 0, load input st,
      case su_exit st of None \<Rightarrow> 0 | Some t \<Rightarrow> t + PIPE_CLOSE_GRACE - ga_clock g w))"

abbreviation loop_order :: "((nat \<times> nat \<times> nat) \<times> (nat \<times> nat \<times> nat)) set" where
  "loop_order \<equiv> less_than <*lex*> less_than <*lex*> less_than"

definition synchronized :: "supervisor \<Rightarrow> bool" where
  "synchronized st \<longleftrightarrow> (su_status st = None) = (su_exit st = None)"

lemma grace_step:
  assumes "live_kernel k g" and "grace_over k st w = (Inr False, w')" and "later g w0 w"
    and "su_exit st = Some t"
  shows "ga_clock g w0 < t + PIPE_CLOSE_GRACE" "later g w0 w'"
proof -
  from assms(2,4) obtain n where n: "kn_now k w = (n, w')" "\<not> PIPE_CLOSE_GRACE \<le> n - t"
    by (auto simp: grace_over_def bindE_Inr answerE_Inr)
  from now_step [OF assms(1) n(1)] n(2) assms(3) show "ga_clock g w0 < t + PIPE_CLOSE_GRACE"
    by (auto simp: later_def PIPE_CLOSE_GRACE_def)
  from now_step(3) [OF assms(1) n(1)] assms(3) show "later g w0 w'" by (blast intro: later_trans)
qed

lemma supervise_turn_progress:
  fixes k :: "'w kernel"
  assumes live: "live_kernel k g" and sync: "synchronized st"
    and turn: "supervise_turn k (kn_try_wait k) program limits input st w = (Inr (Inl st'), w')"
  shows "synchronized st' \<and>
    (loop_measure g input (st', w'), loop_measure g input (st, w)) \<in> loop_order"
proof -
  from turn obtain p st2 w1 where
      step: "supervise_step k (kn_try_wait k) program limits input st w = (Inr (p, st2), w1)"
      and rest: "settle k program p st2 w1 = (Inr (Inl st'), w')"
    by (auto simp: supervise_turn_def bindE_Inr map_errE_Inr)
  from step obtain a st1 w2 q where pump: "pump k input st w = (Inr (a, st1), w2)"
      and poll: "poll_status k (kn_try_wait k) program st1 w2 = (Inr (q, st2), w1)"
      and p: "p = (a \<or> q)"
    by (auto simp: supervise_step_def bindE_Inr)
  from rest obtain w3 where
      grace: "(grace_over k st2 :: ('w, io_error \<times> exit_status option, bool) eff) w1 = (Inr False, w3)"
      and w': "w' = (if p then w3 else kn_sleep k POLL_INTERVAL w3)" and st': "st' = st2"
    by (cases "finished st2"; cases p)
      (auto simp: settle_def bindE_Inr modifyE_Inr split: if_splits)
  note pumped = pump_progress [OF live pump] and polled = poll_progress [OF live poll]
  have late: "later g w w1" using pumped(1) polled(1) by (rule later_trans)
  have "later g w1 w3"
    using grace now_step(3) [OF live]
    by (auto simp: grace_over_def bindE_Inr answerE_Inr split: option.splits)
  then have later: "later g w1 w'"
    using sleep_step(2) [OF live] w' by (auto intro: later_trans)
  show ?thesis
  proof (cases "su_status st")
    case None
    then have "su_status st1 = None" "su_exit st1 = None"
      using pumped(4,5) sync by (simp_all add: synchronized_def)
    with polled(4) pumped(1) later late None show ?thesis
      by (auto simp: st' synchronized_def loop_measure_def later_def)
  next
    case (Some s)
    then obtain t where t: "su_exit st = Some t" using sync by (auto simp: synchronized_def)
    have same: "st2 = st1" "\<not> q" "su_status st1 = Some s" "su_exit st1 = Some t"
      using polled(3) pumped(4,5) Some t by auto
    from grace_step [OF live grace late] same
    have "ga_clock g w < t + PIPE_CLOSE_GRACE" "later g w w3" by auto
    with same pumped(2,3) Some t p w' sleep_step(1) [OF live, of w3 POLL_INTERVAL] show ?thesis
      by (cases a) (auto simp: st' synchronized_def loop_measure_def later_def POLL_INTERVAL_def)
  qed
qed

lemma supervise_returns:
  assumes "live_kernel k g" and "synchronized st"
  shows "returns A (supervise k (kn_try_wait k) program limits input st)"
proof -
  have "wf (inv_image loop_order (loop_measure g input))"
    by (intro wf_inv_image wf_lex_prod wf_less_than)
  then have "\<exists>q. loopP (supervise_turn k (kn_try_wait k) program limits input) st w = Some q" for w
    by (rule loopP_total [where I = "\<lambda>st w. synchronized st"])
      (use assms supervise_turn_progress [OF assms(1)] in auto)
  then show ?thesis by (auto simp: returns_def supervise_def)
qed

lemma output_inner_returns:
  assumes "live_kernel k g" and "\<And>A pg. returns A (remaining pg)"
  shows "returns A (output_inner k remaining command limits input (kn_try_wait k))"
proof -
  have any: "valid_run A m (\<lambda>_ _. True) (\<lambda>_ _. True)" for A and m :: "('a, 'e, 'b) run"
    by (simp add: valid_run_def outcome_def split: sum.split)
  note bind = returns_bindP [OF _ any]
  have cancel: "returns A (cancel k pg e status)" for A pg e status
    unfolding cancel_def
    by (intro bind returns_runE returns_attemptP reap_returns [OF assms(1)])
  have conclude: "returns A (conclude k remaining pg r)" for A pg r
    unfolding conclude_def
    by (cases r) (auto intro!: cancel bind returns_runE assms(2) split: option.split)
  have "returns A (supervised k remaining (kn_try_wait k) program limits i pg)" for A program i pg
    unfolding supervised_def Let_def
    by (intro bind returns_runE returns_attemptP supervise_returns [OF assms(1)] conclude)
      (simp add: synchronized_def)
  then show ?thesis
    unfolding output_inner_def
    by (intro bind returns_runE) (auto intro: cancel split: sum.split)
qed

lemma bounded_output_ends:
  assumes "live_kernel k g"
  shows "returns (\<lambda>_. True) (bounded_output k command input limits)"
proof -
  have any: "valid_run A m (\<lambda>_ _. True) (\<lambda>_ _. True)" for A and m :: "('a, 'e, 'b) run"
    by (simp add: valid_run_def outcome_def split: sum.split)
  show ?thesis
    unfolding bounded_output_def output_with_status_poll_def
    by (intro returns_bindP [OF _ any] returns_runE returns_attemptP output_inner_returns [OF assms returns_runE]
        terminate_and_reap_returns [OF assms])
qed

text \<open>
  C13: a bounded subprocess call on a live machine returns: when the child it starts exits after
  finitely many polls, the call has a result, whatever the child and its descendants do with the
  pipes before and after.
\<close>

theorem subprocess_returns:
  assumes "live_kernel k g"
  shows "\<exists>result w'. bounded_output k command input limits w = Some (result, w')"
  using bounded_output_ends [OF assms, of command input limits] by (auto simp: returns_def)

end
