(* ===== verification/Subprocesses.thy ===== *)
theory Subprocesses
  imports Frames SupervisionEnds
begin

text \<open>
  The program on the supervisor: \<open>kernel_os\<close> puts \<open>bounded_process.rs\<close> under the commands, so that what
  it guarantees of one call holds of every call of every command of \<open>xtask\<close>; and no command but the
  finalizer's reconciliation sends GitHub a mutation.
\<close>

section \<open>The supervised machine\<close>

text \<open>
  \<open>kernel_os\<close> runs bounded subprocesses by the supervisor on a kernel and records each call: the
  command, its bounds, the result, absent when the call did not return, and the events of the call.
\<close>

record subprocess_call =
  sc_command :: command
  sc_input :: "bytes option"
  sc_limits :: output_limits
  sc_result :: "(io_error + process_output) option"
  sc_events :: "kernel_event list"

definition never_returned :: io_error where
  "never_returned = \<lparr>ie_kind = IO_Other, ie_text = []\<rparr>"

definition supervised_output ::
  "'w kernel \<Rightarrow> command \<Rightarrow> bytes option \<Rightarrow> output_limits \<Rightarrow>
   ('w \<times> subprocess_call list, io_error, process_output) eff" where
  "supervised_output k c input limits = (\<lambda>(w, calls).
     let call = \<lparr>sc_command = c, sc_input = input, sc_limits = limits, sc_result = None, sc_events = []\<rparr>
     in case bounded_output (logged_kernel k) c input limits (w, []) of
          None \<Rightarrow> (Inl never_returned, (w, calls @ [call]))
        | Some (r, (w', events)) \<Rightarrow>
            (r, (w', calls @ [call\<lparr>sc_result := Some r, sc_events := events\<rparr>])))"

definition kernel_os :: "'w kernel \<Rightarrow> 'w os \<Rightarrow> ('w \<times> subprocess_call list) os" where
  "kernel_os k os' = (beside_os os')\<lparr>os_output := supervised_output k\<rparr>"

definition beside_shell :: "'w shell \<Rightarrow> ('w \<times> 'c) shell" where
  "beside_shell sh =
     \<lparr>sh_capture = (\<lambda>c. beside (sh_capture sh c)), sh_exists = (\<lambda>p. beside (sh_exists sh p)),
      sh_remove = (\<lambda>p. beside (sh_remove sh p)), sh_is_file = (\<lambda>p s. sh_is_file sh p (fst s)),
      sh_canonicalize = (\<lambda>p. beside (sh_canonicalize sh p)), sh_debug = sh_debug sh\<rparr>"

text \<open>What the supervisor guarantees of one call.\<close>

definition sound_call :: "'w kernel \<Rightarrow> subprocess_call \<Rightarrow> bool" where
  "sound_call k call \<longleftrightarrow> trusted (sc_command call) \<and>
     (let events = sc_events call in case sc_result call of
        None \<Rightarrow> False
      | Some (Inl e) \<Rightarrow> contained events \<and> (restored k events \<or> idle events)
      | Some (Inr out) \<Rightarrow> contained events \<and> restored k events \<and>
          exact (sc_limits call) (case sc_input call of None \<Rightarrow> [] | Some b \<Rightarrow> b) out events)"

abbreviation beside_gauge :: "'w gauge \<Rightarrow> ('w \<times> 'c) gauge" where
  "beside_gauge g \<equiv> \<lparr>ga_clock = \<lambda>s. ga_clock g (fst s), ga_alive = \<lambda>s. ga_alive g (fst s)\<rparr>"

lemma passes_beside:
  "passes g m \<Longrightarrow> passes (beside_gauge g) (beside m)"
  "passes g m \<Longrightarrow> passes (beside_gauge g) (logging m h)"
  by (simp_all add: passes_def later_def beside_def logging_def split: prod.split) (metis snd_conv)+

lemma logged_live:
  assumes "live_kernel k g"
  shows "live_kernel (logged_kernel k) (beside_gauge g)"
proof -
  have clock: "reads_clock (beside_gauge g) (kn_now (logged_kernel k))"
    "sleeps (beside_gauge g) (kn_sleep (logged_kernel k))"
    using assms by (simp_all add: live_kernel_def reads_clock_def sleeps_def later_def split: prod.split)
      (metis fst_conv snd_conv)+
  moreover have "polls (beside_gauge g) (kn_try_wait (logged_kernel k))"
    using assms by (simp add: live_kernel_def polls_def later_def logging_def split: prod.split)
      (metis fst_conv snd_conv)
  moreover have "later (beside_gauge g) w (snd (kn_own_pid (logged_kernel k) w))" for w
    using assms by (cases w) (simp add: live_kernel_def later_def split: prod.split, metis snd_conv)
  ultimately show ?thesis
    using assms unfolding live_kernel_def by (simp add: passes_beside)
qed

lemma supervised_sound:
  assumes "live_kernel k g" and "trusted c" and "list_all (sound_call k) calls"
  shows "list_all (sound_call k) (snd (snd (supervised_output k c input limits (w, calls))))"
proof -
  from bounded_output_ends [OF logged_live [OF assms(1)]]
  obtain r w' events where run: "bounded_output (logged_kernel k) c input limits (w, []) = Some (r, (w', events))"
    unfolding returns_def by fastforce
  from valid_runD [OF bounded_output_valid _ run] assms show ?thesis
    by (auto simp: supervised_output_def run sound_call_def Let_def outcome_def split: sum.splits)
qed

interpretation supervised: xtask_machine "kernel_os k os'" "\<lambda>r. case r of Bounded c i l \<Rightarrow> trusted c | _ \<Rightarrow> True"
    "\<lambda>s. list_all (sound_call k) (snd s) \<and> (\<exists>g. live_kernel k g)" "beside_shell sh" for k os' sh
proof unfold_locales
  fix c and input :: "bytes option" and limits
  assume "case Bounded c input limits of Bounded c i l \<Rightarrow> trusted c | _ \<Rightarrow> True"
  then show "keeps (\<lambda>s. list_all (sound_call k) (snd s) \<and> (\<exists>g. live_kernel k g))
      (os_output (kernel_os k os') c input limits)"
    using supervised_sound by (fastforce simp: keeps_def kernel_os_def)
qed (auto simp: kernel_os_def beside_os_def beside_shell_def keeps_def beside_def trusted_def split: prod.split)


section \<open>Mutations of GitHub\<close>

text \<open>A logged subprocess that is trusted, when bounded, and mutates nothing GitHub keeps.\<close>

fun reading_run :: "process_run \<Rightarrow> bool" where
  "reading_run (Bounded c input limits) \<longleftrightarrow> trusted c \<and> \<not> mutates c"
| "reading_run _ \<longleftrightarrow> True"

lemma confined_not_mutates: "confined (Captured c) \<Longrightarrow> \<not> mutates c"
proof
  assume "confined (Captured c)" and m: "mutates c"
  then have "take 2 (cm_args c) \<in> {[''metadata'', ''--no-deps''], [''package'', ''--list'']}"
    by (auto simp: confined_def editing_release_plz_def mutates_def)
  moreover from m have "take 2 (take 3 (cm_args c)) = [''api'', ''--method'']" by (simp add: mutates_def)
  ultimately show False by auto
qed

interpretation unwritten: xtask_reader "logged_os os'" reading_run "grown reading_run l" "logged_shell sh"
  for os' l sh
proof unfold_locales
qed (use confined_not_mutates in \<open>auto simp: logged_shell_def keeps_grown_beside keeps_grown_append
    confined_def trusted_def\<close>)

text \<open>
  C3: only the finalizer writes. Whatever GitHub, the registry, the repository and the machine answer,
  a command of \<open>xtask\<close> other than the finalizer's reconciliation sends GitHub no POST but GraphQL
  queries; every bounded subprocess it starts is of a trusted form.
\<close>

theorem only_reconciliation_mutates:
  "case xtask_run t at js de (logged_os os') (logged_shell sh) root command (w, []) of (code, (w', l)) \<Rightarrow>
     reconciles command \<or> list_all reading_run l"
proof (cases "reconciles command")
  case False
  then have "keeps (grown reading_run []) (task_result t at js de (logged_os os') (logged_shell sh) root command)"
    by (rule unwritten.reading_task_keeps)
  from logged.xtask_run_keeps [OF this, of "(w, [])"] show ?thesis by (auto simp: grown_def split: prod.split)
qed (simp split: prod.split)

end
