(* ===== verification/UnixProcess.thy ===== *)
theory UnixProcess
  imports SupervisionEnds
begin

text \<open>
  Bounded subprocess-tree execution on a Unix that is not Linux, \<open>xtask/src/bounded_process.rs\<close>: there
  is no subreaper scope, and after the direct child's exit the process group is killed and awaited.
  Everything else is as in \<open>BoundedProcess\<close>, and so are its guarantees.
\<close>

section \<open>The process group\<close>

text \<open>\<open>test_group\<close> is \<open>test_kill_process_group\<close>, which fails when the group has no process.\<close>

definition group_turn ::
  "'w kernel \<Rightarrow> ('w, io_error, unit) eff \<Rightarrow> nat \<Rightarrow> unit \<Rightarrow> ('w, io_error, unit + unit) eff" where
  "group_turn k test_group deadline u =
     bindE (attemptE test_group) (\<lambda>there. case there of
       Inl _ \<Rightarrow> okE (Inr ())
     | Inr _ \<Rightarrow> bindE (answerE (kn_now k)) (\<lambda>now.
         if deadline \<le> now then failE \<lparr>ie_kind = IO_TimedOut,
           ie_text = ''subprocess process group was not quiescent after direct-child exit''\<rparr>
         else bindE (modifyE (kn_sleep k POLL_INTERVAL)) (\<lambda>_. okE (Inl ()))))"

definition unix_terminate_remaining_group ::
  "'w kernel \<Rightarrow> (int \<Rightarrow> ('w, io_error, unit) eff) \<Rightarrow> int \<Rightarrow> ('w, io_error, unit) run" where
  "unix_terminate_remaining_group k test_group pg =
     bindP (runE (ignoreE (kn_kill_group k pg))) (\<lambda>_.
     bindP (runE (answerE (kn_now k))) (\<lambda>now.
     loopP (group_turn k (test_group pg) (now + POST_CANCEL_TIMEOUT)) ()))"

definition unix_output_with_status_poll ::
  "'w kernel \<Rightarrow> (int \<Rightarrow> ('w, io_error, unit) eff) \<Rightarrow> command \<Rightarrow> output_limits \<Rightarrow> bytes option \<Rightarrow>
   ('w, io_error, exit_status option) eff \<Rightarrow> ('w, io_error, process_output) run" where
  "unix_output_with_status_poll k test_group command limits input poll =
     bindP (attemptP (output_inner k (unix_terminate_remaining_group k test_group) command limits input poll))
       (\<lambda>result. runE (liftE (join_results result (Inr ()))))"

definition unix_bounded_output ::
  "'w kernel \<Rightarrow> (int \<Rightarrow> ('w, io_error, unit) eff) \<Rightarrow> command \<Rightarrow> bytes option \<Rightarrow> output_limits \<Rightarrow>
   ('w, io_error, process_output) run" where
  "unix_bounded_output k test_group command input limits =
     bindP (runE (liftE (validate_limits limits input))) (\<lambda>_.
     unix_output_with_status_poll k test_group command limits input (kn_try_wait k))"

section \<open>The group is gone\<close>

text \<open>A test that finds no process is recorded.\<close>

definition logged_test ::
  "(int \<Rightarrow> ('w, io_error, unit) eff) \<Rightarrow> int \<Rightarrow> ('w \<times> kernel_event list, io_error, unit) eff" where
  "logged_test test_group pg =
     logging (test_group pg) (\<lambda>r. case r of Inl _ \<Rightarrow> [GroupGone pg] | Inr _ \<Rightarrow> [])"

definition group_gone :: "int \<Rightarrow> kernel_event list \<Rightarrow> bool" where
  "group_gone pg l \<longleftrightarrow> (\<exists>a b. l = GroupGone pg # a @ GroupKilled pg # b \<and> idle a \<and> running pg b)"

definition group_killed :: "int \<Rightarrow> kernel_event list \<Rightarrow> bool" where
  "group_killed pg l \<longleftrightarrow> (\<exists>a b. l = a @ GroupKilled pg # b \<and> idle a \<and> running pg b)"

lemma group_killed_contained: "group_killed pg l \<Longrightarrow> contained l"
  by (auto simp: group_killed_def contained_def)

lemma group_gone_killed: "group_gone pg l \<Longrightarrow> group_killed pg l"
  unfolding group_gone_def group_killed_def
  by (elim exE conjE, rule_tac x = "GroupGone pg # a" in exI) (auto simp: idle_def)

lemma logged_clock:
  "valid (\<lambda>w. P (snd w)) (answerE (kn_now (logged_kernel k))) E (\<lambda>_ w. P (snd w))"
  "valid (\<lambda>w. P (snd w)) (modifyE (kn_sleep (logged_kernel k) d)) E (\<lambda>_ w. P (snd w))"
  by (auto simp: valid_def answerE_def modifyE_def split: prod.split)

lemma group_turn_valid:
  fixes F :: "kernel_event list \<Rightarrow> bool" and k :: "'w kernel"
  assumes "untouched_by_io F"
  shows "valid (\<lambda>w. group_killed pg (snd w) \<and> F (snd w))
    (group_turn (logged_kernel k) (logged_test test_group pg) deadline u)
    (\<lambda>_ w. contained (snd w) \<and> F (snd w))
    (\<lambda>r w. case r of Inl _ \<Rightarrow> group_killed pg (snd w) \<and> F (snd w) | Inr _ \<Rightarrow> group_gone pg (snd w) \<and> F (snd w))"
proof -
  have test: "valid (\<lambda>w. group_killed pg (snd w) \<and> F (snd w)) (attemptE (logged_test test_group pg))
      (\<lambda>_ w. contained (snd w) \<and> F (snd w))
      (\<lambda>r w. case r of Inl _ \<Rightarrow> group_gone pg (snd w) \<and> F (snd w) | Inr _ \<Rightarrow> group_killed pg (snd w) \<and> F (snd w))"
    using assms
    by (auto simp: valid_def attemptE_def logged_test_def logging_def untouched_by_io_def group_killed_def
        group_gone_def split: prod.split sum.split)
  show ?thesis
    unfolding group_turn_def
  proof (rule valid_bindE [OF test])
    fix there :: "io_error + unit"
    show "valid (\<lambda>w. case there of Inl _ \<Rightarrow> group_gone pg (snd w) \<and> F (snd w) | Inr _ \<Rightarrow> group_killed pg (snd w) \<and> F (snd w))
      (case there of
         Inl _ \<Rightarrow> okE (Inr ())
       | Inr _ \<Rightarrow> bindE (answerE (kn_now (logged_kernel k))) (\<lambda>now.
           if deadline \<le> now then failE \<lparr>ie_kind = IO_TimedOut,
             ie_text = ''subprocess process group was not quiescent after direct-child exit''\<rparr>
           else bindE (modifyE (kn_sleep (logged_kernel k) POLL_INTERVAL)) (\<lambda>_. okE (Inl ()))))
      (\<lambda>_ w. contained (snd w) \<and> F (snd w))
      (\<lambda>r w. case r of Inl _ \<Rightarrow> group_killed pg (snd w) \<and> F (snd w) | Inr _ \<Rightarrow> group_gone pg (snd w) \<and> F (snd w))"
    proof (cases there)
      case (Inl e)
      then show ?thesis by (auto intro: valid_basic)
    next
      case (Inr v)
      show ?thesis
        unfolding Inr sum.case
      proof (rule valid_bindE [OF logged_clock(1) [where P = "\<lambda>l. group_killed pg l \<and> F l"]], rule valid_if)
        show "valid (\<lambda>w. group_killed pg (snd w) \<and> F (snd w)) (failE e) (\<lambda>_ w. contained (snd w) \<and> F (snd w)) B"
          for e and B :: "unit + unit \<Rightarrow> _" by (rule valid_basic(2)) (auto intro: group_killed_contained)
      qed (rule valid_bindE [OF logged_clock(2) [where P = "\<lambda>l. group_killed pg l \<and> F l"]], rule valid_basic(1), simp)
    qed
  qed
qed

lemma unix_group_end:
  "group_end (unix_terminate_remaining_group (logged_kernel k) (logged_test test_group)) group_gone"
proof unfold_locales
  show "group_gone pg l \<Longrightarrow> contained l" for pg l
    by (rule group_killed_contained [OF group_gone_killed])
  fix F pg
  assume F: "untouched_by_io F"
  have kill: "valid (\<lambda>w. running pg (snd w) \<and> F (snd w)) (ignoreE (kn_kill_group (logged_kernel k) pg)) E
      (\<lambda>_ w. group_killed pg (snd w) \<and> F (snd w))" for E :: "io_error \<Rightarrow> 'a \<times> kernel_event list \<Rightarrow> bool"
  proof -
    have "running pg l \<Longrightarrow> group_killed pg (GroupKilled pg # l)" for l
      unfolding group_killed_def by (rule exI [of _ "[]"]) (auto simp: idle_def)
    with F show ?thesis
      by (auto simp: valid_def ignoreE_def logging_def untouched_by_io_def split: prod.split)
  qed
  show "valid_run (\<lambda>w. running pg (snd w) \<and> F (snd w))
      (unix_terminate_remaining_group (logged_kernel k) (logged_test test_group) pg)
      (\<lambda>_ w. contained (snd w) \<and> F (snd w)) (\<lambda>_ w. group_gone pg (snd w) \<and> F (snd w))"
    unfolding unix_terminate_remaining_group_def
    by (rule valid_run_bindP [OF valid_runE [OF kill]],
        rule valid_run_bindP [OF valid_runE [OF logged_clock(1) [where P = "\<lambda>l. group_killed pg l \<and> F l"]]],
        rule loopP_valid [where I = "\<lambda>u w. group_killed pg (snd w) \<and> F (snd w)"])
      (rule valid_weaken [OF group_turn_valid [OF F]], auto split: sum.split)
qed

interpretation unix: group_end k "unix_terminate_remaining_group (logged_kernel k) (logged_test test_group)" group_gone
  for k test_group
  by (rule unix_group_end)

text \<open>
  C18: on a Unix that is not Linux, a bounded subprocess call that returns has killed the process group
  of the child it started; when it succeeds, a test of the group then found no process in it, and output,
  status and input are as exact as on Linux.
\<close>

theorem unix_subprocess_exact:
  "case unix_bounded_output (logged_kernel k) (logged_test test_group) command input limits (w, []) of
     None \<Rightarrow> True
   | Some (Inl e, (w', l)) \<Rightarrow> contained l
   | Some (Inr out, (w', l)) \<Rightarrow> (\<exists>pg. group_gone pg l) \<and>
       exact limits (case input of None \<Rightarrow> [] | Some b \<Rightarrow> b) out l"
proof -
  have "valid_run (\<lambda>w. snd w = []) (unix_bounded_output (logged_kernel k) (logged_test test_group) command input limits)
      (\<lambda>_ w. contained (snd w)) (\<lambda>out w. (\<exists>pg. group_gone pg (snd w)) \<and>
        exact limits (case input of None \<Rightarrow> [] | Some b \<Rightarrow> b) out (snd w))" (is "valid_run _ _ ?E ?B")
  proof (cases "validate_limits limits input")
    case (Inl e)
    then show ?thesis
      by (auto simp: unix_bounded_output_def contained_def idle_def intro!: valid_runE valid_basic)
  next
    case (Inr u)
    then have bounds: "usize_add (ol_stdout limits) 1 \<noteq> None" "usize_add (ol_stderr limits) 1 \<noteq> None"
      by (auto simp: validate_limits_def bindR_Inr ok_or_Inr)
    have any: "attribute (\<lambda>_. True)" by (simp add: attribute_def)
    have inner: "valid_run (\<lambda>w. snd w = []) (attemptP (output_inner (logged_kernel k)
        (unix_terminate_remaining_group (logged_kernel k) (logged_test test_group)) command limits input
        (kn_try_wait (logged_kernel k)))) ?E (\<lambda>r w. outcome ?E ?B (r, w))"
      by (rule valid_attemptP, rule valid_run_weaken [OF unix.output_inner_valid [OF any bounds]])
        (auto simp: idle_def)
    have "valid_run (\<lambda>w. snd w = []) (unix_output_with_status_poll (logged_kernel k) (logged_test test_group)
        command limits input (kn_try_wait (logged_kernel k))) ?E ?B"
      unfolding unix_output_with_status_poll_def
      by (rule valid_run_bindP [OF inner], rule valid_runE, rule valid_basic)
        (auto simp: join_results_def outcome_def split: sum.splits)
    with Inr show ?thesis by (simp add: unix_bounded_output_def del: logged_ops)
  qed
  from valid_runD [OF this, of "(w, [])"] show ?thesis
    by (auto simp: outcome_def split: option.split prod.splits sum.splits)
qed

section \<open>Termination\<close>

lemma group_turn_progress:
  fixes k :: "'w kernel"
  assumes live: "live_kernel k g" and test: "passes g test_group"
    and turn: "group_turn k test_group deadline () w = (Inr (Inl ()), w')"
  shows "ga_clock g w < deadline \<and> ga_clock g w < ga_clock g w'"
proof -
  obtain r w1 where tested: "test_group w = (r, w1)" by fastforce
  obtain t w2 where now: "kn_now k w1 = (t, w2)" by fastforce
  from turn tested now have "\<not> deadline \<le> t" "w' = kn_sleep k POLL_INTERVAL w2"
    by (auto simp: group_turn_def bindE_def attemptE_def answerE_def modifyE_def okE_def failE_def
        split: sum.splits if_splits)
  with wait_step [OF live passes_step [OF test tested] now] show ?thesis by simp
qed

text \<open>
  On a live machine that is not Linux the call returns as well, even when processes of the group
  never go away.
\<close>

lemma unix_subprocess_returns:
  assumes "live_kernel k g" and "\<And>pg. passes g (test_group pg)"
  shows "\<exists>result w'. unix_bounded_output k test_group command input limits w = Some (result, w')"
proof -
  have any: "valid_run A m (\<lambda>_ _. True) (\<lambda>_ _. True)" for A and m :: "('a, 'e, 'b) run"
    by (simp add: valid_run_def outcome_def split: sum.split)
  have loop: "returns A (loopP (group_turn k (test_group pg) deadline) ())" for A pg deadline
    by (rule deadline_loop [where g = g and deadline = deadline])
      (rule group_turn_progress [OF assms(1) assms(2)])
  have remaining: "returns A (unix_terminate_remaining_group k test_group pg)" for A pg
    unfolding unix_terminate_remaining_group_def
    by (intro returns_bindP [OF _ any] returns_runE loop)
  have "returns (\<lambda>_. True) (unix_bounded_output k test_group command input limits)"
    unfolding unix_bounded_output_def unix_output_with_status_poll_def
    by (intro returns_bindP [OF _ any] returns_runE returns_attemptP output_inner_returns [OF assms(1) remaining])
  then show ?thesis by (auto simp: returns_def)
qed

end
