(* ===== verification/Retention.thy ===== *)
theory Retention
  imports BoundedProcess
begin

text \<open>
  The memory a bounded subprocess call holds: the states of the supervision loop as a step relation,
  and the invariant that no capture keeps more than its limit and one sentinel byte.
\<close>

section \<open>Reachable states\<close>

definition supervisor_start :: "output_limits \<Rightarrow> bytes \<Rightarrow> supervisor" where
  "supervisor_start limits input =
     \<lparr>su_stdout = \<lparr>cp_open = True, cp_bytes = [], cp_limit = ol_stdout limits, cp_stream = Stdout\<rparr>,
      su_stderr = \<lparr>cp_open = True, cp_bytes = [], cp_limit = ol_stderr limits, cp_stream = Stderr\<rparr>,
      su_stdin = input \<noteq> [], su_offset = 0, su_status = None, su_exit = None\<rparr>"

inductive supervising ::
  "'w kernel \<Rightarrow> ('w, io_error, exit_status option) eff \<Rightarrow> string \<Rightarrow> output_limits \<Rightarrow> bytes \<Rightarrow>
   supervisor \<Rightarrow> 'w \<Rightarrow> bool"
  for k poll program limits input where
  start: "supervising k poll program limits input (supervisor_start limits input) w"
| turn: "supervising k poll program limits input st w \<Longrightarrow>
    supervise_turn k poll program limits input st w = (Inr (Inl st'), w') \<Longrightarrow>
    supervising k poll program limits input st' w'"

text \<open>The contract of \<open>Read\<close>: a read gives at most the bytes it was asked for.\<close>

definition honest_reads :: "'w kernel \<Rightarrow> bool" where
  "honest_reads k \<longleftrightarrow> (\<forall>s n w chunk w'. kn_read k s n w = (Inr chunk, w') \<longrightarrow> length chunk \<le> n)"

section \<open>The invariant\<close>

definition retained :: "nat \<Rightarrow> output_limits \<Rightarrow> supervisor \<Rightarrow> bool" where
  "retained n limits st \<longleftrightarrow>
     cp_limit (su_stdout st) = ol_stdout limits \<and> cp_limit (su_stderr st) = ol_stderr limits \<and>
     length (cp_bytes (su_stdout st)) \<le> ol_stdout limits + n \<and>
     length (cp_bytes (su_stderr st)) \<le> ol_stderr limits + n"

lemma drain_loop_retained:
  assumes "honest_reads k" and "drain_loop k c p w = (Inr (q, c'), w')"
    and "length (cp_bytes c) \<le> sentinel c"
  shows "cp_limit c' = cp_limit c \<and> length (cp_bytes c') \<le> sentinel c"
  using assms
proof (induction k c p w rule: drain_loop.induct)
  case (1 k c p w)
  obtain a w1 where read: "kn_read k (cp_stream c) (wanted c) w = (a, w1)"
    by (cases "kn_read k (cp_stream c) (wanted c) w")
  show ?case
  proof (cases a)
    case (Inl e)
    with read "1.prems" show ?thesis by (auto simp: drain_loop.simps [of k c] split: if_splits)
  next
    case (Inr chunk)
    with read "1.prems"(1) have "length chunk \<le> wanted c" unfolding honest_reads_def by blast
    with "1.prems"(3) have le: "length (cp_bytes c @ chunk) \<le> sentinel c" by (auto simp: wanted_def)
    let ?c = "c\<lparr>cp_bytes := cp_bytes c @ chunk\<rparr>"
    consider "chunk = []" | "chunk \<noteq> []" "sentinel c \<le> length (cp_bytes ?c)"
      | "chunk \<noteq> []" "\<not> sentinel c \<le> length (cp_bytes ?c)" by blast
    then show ?thesis
    proof cases
      case 3
      with "1.prems"(2) read Inr have rest: "drain_loop k ?c True w1 = (Inr (q, c'), w')"
        by (simp add: drain_loop.simps [of k c])
      from "1.IH" [OF read [symmetric] Inr 3(1) refl 3(2) "1.prems"(1) rest] le
      show ?thesis by (simp add: sentinel_def)
    qed (use "1.prems" read Inr le in \<open>auto simp: drain_loop.simps [of k c]\<close>)
  qed
qed

lemma drain_retained:
  assumes "honest_reads k" and "drain k c w = (Inr (q, c'), w')"
    and "length (cp_bytes c) \<le> cp_limit c + 1"
  shows "cp_limit c' = cp_limit c \<and> length (cp_bytes c') \<le> cp_limit c + 1"
  using assms drain_loop_retained [OF assms(1), of c False w q c' w']
  by (auto simp: drain_def sentinel_def split: if_splits)

lemma pump_retained:
  assumes "honest_reads k" and "pump k input st w = (Inr (p, st'), w')" and "retained 1 limits st"
  shows "retained 1 limits st'"
proof -
  from assms(2) obtain a out w1 b err w2 where
      "drain k (su_stdout st) w = (Inr (a, out), w1)" "drain k (su_stderr st) w1 = (Inr (b, err), w2)"
      "su_stdout st' = out" "su_stderr st' = err"
    by (rule pump_InrE) simp
  with drain_retained [OF assms(1), of "su_stdout st" w a out w1]
    drain_retained [OF assms(1), of "su_stderr st" w1 b err w2] assms(3)
  show ?thesis by (simp add: retained_def)
qed

lemma poll_status_retained:
  "poll_status k poll program st w = (Inr (q, st'), w') \<Longrightarrow> retained n limits st' = retained n limits st"
  by (auto simp: poll_status_def bindE_Inr answerE_Inr retained_def
      simp del: split_paired_All split: if_splits option.splits)

lemma supervise_turn_retained:
  assumes "honest_reads k" and "retained 1 limits st"
    and "supervise_turn k poll program limits input st w = (Inr (Inl st'), w')"
  shows "retained 0 limits st'"
proof -
  from assms(3) obtain p st2 w1 where
      step: "supervise_step k poll program limits input st w = (Inr (p, st2), w1)"
      and same: "settle k program p st2 w1 = (Inr (Inl st'), w')"
    by (auto simp: supervise_turn_def bindE_Inr map_errE_Inr)
  from step obtain a st1 w2 q where pump: "pump k input st w = (Inr (a, st1), w2)"
      and check: "check_limits program limits st1 = Inr ()"
      and poll: "poll_status k poll program st1 w2 = (Inr (q, st2), w1)"
    by (auto simp: supervise_step_def bindE_Inr liftE_Inr)
  from pump_retained [OF assms(1) pump assms(2)] check have "retained 0 limits st1"
    by (auto simp: retained_def check_limits_def exceeded_def fail_if_def split: if_splits)
  moreover from same have "st' = st2"
    by (auto simp: settle_def bindE_Inr modifyE_Inr split: if_splits)
  ultimately show ?thesis using poll_status_retained [OF poll] by simp
qed

lemma supervising_retained:
  assumes "honest_reads k" and "supervising k poll program limits input st w"
  shows "retained 0 limits st"
  using assms(2)
proof (induction rule: supervising.induct)
  case (turn st w st' w')
  then have "retained 1 limits st" by (simp add: retained_def)
  from supervise_turn_retained [OF assms(1) this turn.hyps(2)] show ?case .
qed (simp add: retained_def supervisor_start_def)

text \<open>
  C16: in every reachable state of the supervision loop each capture is within its limit, and even in
  the middle of a turn it holds at most one sentinel byte more.
\<close>

theorem output_retention:
  assumes "honest_reads k" and "supervising k poll program limits input st w"
    and "pump k input st w = (Inr (progressed, st'), w')"
  shows "length (cp_bytes (su_stdout st)) \<le> ol_stdout limits \<and>
    length (cp_bytes (su_stderr st)) \<le> ol_stderr limits \<and>
    length (cp_bytes (su_stdout st')) \<le> ol_stdout limits + 1 \<and>
    length (cp_bytes (su_stderr st')) \<le> ol_stderr limits + 1"
proof -
  from supervising_retained [OF assms(1,2)] have "retained 0 limits st" "retained 1 limits st"
    by (simp_all add: retained_def)
  with pump_retained [OF assms(1,3)] show ?thesis by (simp add: retained_def)
qed

end
