(* ===== verification/ProcessFixtures.thy ===== *)
theory ProcessFixtures
  imports UnixProcess Retention
begin

text \<open>
  A simulated machine for bounded subprocess calls: a child that writes given chunks and runs for a
  given number of polls, on a clock that only sleeping moves. It is live and reads honestly, so the
  theorems on termination and retention apply to it.
\<close>

section \<open>The machine\<close>

record machine =
  mc_clock :: nat
  mc_polls :: nat
  mc_chunks :: "bytes list"
  mc_subreaper :: bool
  mc_proc :: bool

definition would_block :: io_error where
  "would_block = \<lparr>ie_kind = IO_WouldBlock, ie_text = ''Resource temporarily unavailable''\<rparr>"

definition not_found :: io_error where
  "not_found = \<lparr>ie_kind = IO_NotFound, ie_text = ''No such file or directory''\<rparr>"

definition machine_read :: "stream \<Rightarrow> nat \<Rightarrow> (machine, io_error, bytes) eff" where
  "machine_read s n m =
     (case (s, mc_chunks m) of
        (Stdout, c # cs) \<Rightarrow> (Inr (take n c), m\<lparr>mc_chunks := cs\<rparr>)
      | _ \<Rightarrow> (if mc_polls m = 0 then Inr [] else Inl would_block, m))"

definition machine_wait :: "(machine, io_error, exit_status option) eff" where
  "machine_wait m =
     (if mc_polls m = 0 then (Inr (Some (True, ''exit status: 0'')), m)
      else (Inr None, m\<lparr>mc_polls := mc_polls m - 1\<rparr>))"

definition example_kernel :: "machine kernel" where
  "example_kernel =
     \<lparr>kn_spawn = (\<lambda>c piped. okE 100), kn_getfl = (\<lambda>p. okE 2), kn_setfl = (\<lambda>p f. okE ()),
      kn_nonblock = 2048, kn_read = machine_read, kn_write = (\<lambda>b. okE (length b)),
      kn_try_wait = machine_wait, kn_kill_child = okE (), kn_kill_group = (\<lambda>pg. okE ()),
      kn_now = (\<lambda>m. (mc_clock m, m)), kn_sleep = (\<lambda>d m. m\<lparr>mc_clock := mc_clock m + d\<rparr>),
      kn_lock = okE (), kn_unlock = (\<lambda>m. m),
      kn_child_subreaper = (\<lambda>m. (Inr (if mc_subreaper m then Some 1 else None), m)),
      kn_set_child_subreaper = (\<lambda>p m. (Inr (), m\<lparr>mc_subreaper := p \<noteq> None\<rparr>)),
      kn_own_pid = (\<lambda>m. (7, m)),
      kn_read_dir = (\<lambda>p m. (if mc_proc m then Inr [Inr (Some ''7''), Inr (Some ''self'')] else Inl not_found, m)),
      kn_read_to_string = (\<lambda>p. okE ''7 (xtask) S 1 7 7''), kn_getpgid = (\<lambda>p. okE 7),
      kn_pid_from_raw = Some, kn_kill_process = (\<lambda>p. okE ()), kn_waitpid = (\<lambda>p. okE ())\<rparr>"

definition example_gauge :: "machine gauge" where
  "example_gauge = \<lparr>ga_clock = mc_clock, ga_alive = mc_polls\<rparr>"

definition example_limits :: output_limits where
  "example_limits = \<lparr>ol_stdout = 4, ol_stderr = 4\<rparr>"

definition example_machine :: machine where
  "example_machine = \<lparr>mc_clock = 0, mc_polls = 2, mc_chunks = [[104, 105], [33]],
     mc_subreaper = False, mc_proc = True\<rparr>"

definition example_command :: command where
  "example_command = command_new ''git''"

lemma example_live: "live_kernel example_kernel example_gauge"
  unfolding live_kernel_def reads_clock_def sleeps_def polls_def passes_def later_def example_kernel_def example_gauge_def
  by (auto simp: machine_read_def machine_wait_def split: stream.split list.split)

lemma example_honest: "honest_reads example_kernel"
  unfolding honest_reads_def example_kernel_def
  by (auto simp: machine_read_def split: stream.splits list.splits if_splits)

section \<open>Example calls\<close>

text \<open>The call gets all the output; with a limit below it the call fails, and in both cases ends.\<close>

lemma example_call:
  "bounded_output example_kernel example_command None example_limits example_machine =
     Some (Inr \<lparr>out_success = True, out_status = ''exit status: 0'', out_stdout = [104, 105, 33],
       out_stderr = []\<rparr>, \<lparr>mc_clock = 10 * 10 ^ 6, mc_polls = 0, mc_chunks = [], mc_subreaper = False,
         mc_proc = True\<rparr>)"
  by code_simp

lemma example_call_exceeded:
  "map_option (map_sum ie_text id \<circ> fst)
     (bounded_output example_kernel example_command None \<lparr>ol_stdout = 2, ol_stderr = 0\<rparr> example_machine) =
   Some (Inl ''git stdout exceeded its 2-byte limit'')"
  by code_simp

section \<open>Witnesses\<close>

lemma subprocess_returns_witness:
  "\<exists>result m. bounded_output example_kernel example_command (Some [1, 2]) example_limits
     example_machine = Some (result, m)"
  by (rule subprocess_returns [OF example_live])

lemma output_retention_witness:
  "let st = supervisor_start example_limits [1, 2];
       st' = snd (projr (fst (pump example_kernel [1, 2] st example_machine)))
   in cp_bytes (su_stdout st') = [104, 105, 33] \<and> length (cp_bytes (su_stdout st')) \<le> 4 + 1"
proof -
  let ?st = "supervisor_start example_limits [1, 2]"
  have "\<exists>p st' m. pump example_kernel [1, 2] ?st example_machine = (Inr (p, st'), m) \<and>
      cp_bytes (su_stdout st') = [104, 105, 33]"
    by (rule exI, rule exI, rule exI, rule conjI, code_simp, simp)
  then obtain p st' m where run: "pump example_kernel [1, 2] ?st example_machine = (Inr (p, st'), m)"
    and out: "cp_bytes (su_stdout st') = [104, 105, 33]" by blast
  from output_retention [OF example_honest supervising.start [of example_kernel "kn_try_wait example_kernel"
      "''git''"] run] run out show ?thesis by (simp add: example_limits_def)
qed

section \<open>A scope that is never entered\<close>

text \<open>
  C39: a call that fails to enter its subreaper scope. When the caller was no subreaper, the attribute
  was set, and the scan of \<open>/proc\<close> for the caller's own children then fails, the call fails with that
  error, starts no child and releases the lock; there is no scope yet whose drop would reset the
  attribute, so nothing happens to it after it was set.
\<close>

theorem scope_failure:
  assumes "validate_limits limits input = Inr ()"
    and "kn_lock k w = (Inr (), w1)"
    and "kn_child_subreaper k w1 = (Inr None, w2)"
    and "kn_set_child_subreaper k (kn_pid_from_raw k 1) w2 = (Inr (), w3)"
    and "direct_children k w3 = (Inl e, w4)"
  shows "bounded_output k command input limits w = Some (Inl e, kn_unlock k w4)"
  using assms
  by (simp add: bounded_output_def output_with_status_poll_def scope_enter_def bindP_def runE_def
      liftE_def bindE_def map_errE_def map_err_def on_errorE_def Let_def)

theorem scope_failure_witness:
  "direct_children example_kernel (example_machine\<lparr>mc_subreaper := True, mc_proc := False\<rparr>)
     = (Inl not_found, example_machine\<lparr>mc_subreaper := True, mc_proc := False\<rparr>) \<and>
   bounded_output example_kernel example_command None example_limits (example_machine\<lparr>mc_proc := False\<rparr>)
     = Some (Inl not_found, example_machine\<lparr>mc_subreaper := True, mc_proc := False\<rparr>)"
proof -
  let ?m = "example_machine\<lparr>mc_subreaper := True, mc_proc := False\<rparr>"
  have scan: "direct_children example_kernel ?m = (Inl not_found, ?m)" by code_simp
  have "bounded_output example_kernel example_command None example_limits (example_machine\<lparr>mc_proc := False\<rparr>)
      = Some (Inl not_found, kn_unlock example_kernel ?m)"
    by (rule scope_failure [OF _ _ _ _ scan]) code_simp+
  with scan show ?thesis by (simp add: example_kernel_def)
qed

section \<open>A machine that is not Linux\<close>

text \<open>The group is gone at once, or never.\<close>

lemma unix_example_call:
  "map_option (map_sum ie_text out_stdout \<circ> fst)
     (unix_bounded_output example_kernel (\<lambda>pg. failE not_found) example_command None example_limits example_machine)
     = Some (Inr [104, 105, 33])"
  by code_simp

lemma unix_example_returns:
  "\<exists>result m. unix_bounded_output example_kernel (\<lambda>pg. okE ()) example_command (Some [1, 2]) example_limits
     example_machine = Some (result, m)"
  by (rule unix_subprocess_returns [OF example_live]) simp

end
