(* ===== verification/ProgramFixtures.thy ===== *)
theory ProgramFixtures
  imports Subprocesses ProcessFixtures
begin

text \<open>
  A run of the package check on the simulated machine of \<open>ProcessFixtures\<close>: the witness of the theorem
  on all subprocesses of the program.
\<close>

definition quiet_os :: "'w os" where
  "quiet_os = scripted_os (\<lambda>args. None) (\<lambda>k. None) (\<lambda>p. None)"

lemma example_calls:
  "map (\<lambda>call. (cm_args (sc_command call), map_option is_ok (sc_result call)))
     (snd (snd (package_content_run (kernel_os example_kernel quiet_os) ''/r'' (example_machine, [])))) =
   [(package_list_args ''yaml-sigil-traits'', Some True)]"
  by code_simp

lemma kernel_print: "snd (os_print (kernel_os k os') s w) = snd w"
  by (cases w) (simp add: kernel_os_def beside_os_def)

lemma example_program:
  "snd (snd (xtask_run t at js de (kernel_os k os') sh root Task_PackageContent w)) =
   snd (snd (package_content_run (kernel_os k os') root w))"
  by (simp add: xtask_run_def map_errE_def kernel_print split: prod.split sum.split)


end
