(* ===== verification/Traffic.thy ===== *)
theory Traffic
  imports Transport CratesIo
begin

text \<open>
  Reasoning about the requests an operation makes. A traffic log holds every exchange with GitHub,
  newest first, with its answer. The interface \<open>observed_transport\<close> says when a state carries such a
  log for a transport; its clients get rules for two judgements about an effect: \<open>observes\<close>, that it
  only reads and what its success tells about the answers, and \<open>triple\<close>, a Hoare triple on the log.
\<close>

section \<open>Traffic\<close>

datatype 'j event =
    Got string "string + 'j option"
  | Queried json "string + 'j"
  | Posted string string json "string + 'j"

fun is_post :: "'j event \<Rightarrow> bool" where
  "is_post (Posted _ _ _ _) = True"
| "is_post _ = False"

text \<open>The exchanges since the last mutation, and the mutations in the order they were made.\<close>

definition since :: "'j event list \<Rightarrow> 'j event set" where
  "since l = set (takeWhile (\<lambda>e. \<not> is_post e) l)"

fun mutations :: "'j event list \<Rightarrow> (string \<times> string \<times> json) list" where
  "mutations [] = []"
| "mutations (Posted verb path payload answer # l) = mutations l @ [(verb, path, payload)]"
| "mutations (_ # l) = mutations l"

text \<open>Every mutation was justified by the exchanges since the mutation before it.\<close>

primrec authorized ::
  "('j event set \<Rightarrow> string \<times> string \<times> json \<Rightarrow> bool) \<Rightarrow> 'j event list \<Rightarrow> bool" where
  "authorized J [] \<longleftrightarrow> True"
| "authorized J (e # l) \<longleftrightarrow> authorized J l \<and>
     (case e of Posted verb path payload _ \<Rightarrow> J (since l) (verb, path, payload) | _ \<Rightarrow> True)"

lemma since_subset: "since l \<subseteq> set l"
  by (auto simp: since_def dest: set_takeWhileD)

lemma reads_append:
  assumes "list_all (\<lambda>e. \<not> is_post e) d"
  shows "since (d @ l) = set d \<union> since l" and "mutations (d @ l) = mutations l"
    and "authorized J (d @ l) \<longleftrightarrow> authorized J l"
proof -
  from assms show "since (d @ l) = set d \<union> since l"
    by (induction d) (auto simp: since_def)
  show "mutations (d @ l) = mutations l"
    using assms
  proof (induction d)
    case (Cons e d)
    then show ?case by (cases e) auto
  qed simp
  show "authorized J (d @ l) \<longleftrightarrow> authorized J l"
    using assms
  proof (induction d)
    case (Cons e d)
    then show ?case by (cases e) auto
  qed simp
qed

section \<open>Logs of a transport\<close>

definition answered :: "string \<Rightarrow> string + 'j \<Rightarrow> 'j event" where
  "answered path r = Got path (case r of Inl e \<Rightarrow> Inl e | Inr b \<Rightarrow> Inr (Some b))"

definition log_transport :: "('w, 'j) transport \<Rightarrow> ('w \<times> 'j event list, 'j) transport" where
  "log_transport gh =
     \<lparr>t_get = (\<lambda>path (w, l). case t_get gh path w of (r, w') \<Rightarrow> (r, (w', answered path r # l))),
      t_get_optional = (\<lambda>path (w, l). case t_get_optional gh path w of
         (r, w') \<Rightarrow> (r, (w', Got path r # l))),
      t_graphql = (\<lambda>payload (w, l). case t_graphql gh payload w of
         (r, w') \<Rightarrow> (r, (w', Queried payload r # l))),
      t_mutate = (\<lambda>verb path payload (w, l). case t_mutate gh verb path payload w of
         (r, w') \<Rightarrow> (r, (w', Posted verb path payload r # l))),
      t_invalid = t_invalid gh\<rparr>"

definition beside_registry :: "'w registry \<Rightarrow> ('w \<times> 'c) registry" where
  "beside_registry reg =
     \<lparr>rg_exact_version = (\<lambda>p v. beside (rg_exact_version reg p v)),
      rg_download = (\<lambda>p v. beside (rg_download reg p v))\<rparr>"

section \<open>Judgements\<close>

definition observes ::
  "('s \<Rightarrow> 'j event list) \<Rightarrow> ('s, 'e, 'a) eff \<Rightarrow> ('a \<Rightarrow> 'j event set \<Rightarrow> bool) \<Rightarrow> bool" where
  "observes log m P \<longleftrightarrow>
     (\<forall>s r s'. m s = (r, s') \<longrightarrow>
        (\<exists>d. log s' = d @ log s \<and> list_all (\<lambda>e. \<not> is_post e) d \<and> (\<forall>x. r = Inr x \<longrightarrow> P x (set d))))"

abbreviation reads :: "('s \<Rightarrow> 'j event list) \<Rightarrow> ('s, 'e, 'a) eff \<Rightarrow> bool" where
  "reads log m \<equiv> observes log m (\<lambda>_ _. True)"

lemma observesE:
  assumes "observes log m P" and "m s = (r, s')"
  obtains d where "log s' = d @ log s" "list_all (\<lambda>e. \<not> is_post e) d"
    "\<And>x. r = Inr x \<Longrightarrow> P x (set d)"
  using assms unfolding observes_def by metis

lemma observes_weaken:
  "observes log m P \<Longrightarrow> (\<And>x D. P x D \<Longrightarrow> Q x D) \<Longrightarrow> observes log m Q"
  unfolding observes_def by meson

lemma observes_bindE:
  assumes "observes log m P" and "\<And>x. observes log (f x) (Q x)"
  shows "observes log (bindE m f) (\<lambda>y D. \<exists>x D1 D2. D = D1 \<union> D2 \<and> P x D1 \<and> Q x y D2)"
  unfolding observes_def
proof (intro allI impI)
  fix s r s'
  assume b: "bindE m f s = (r, s')"
  obtain r1 s1 where m: "m s = (r1, s1)" by (cases "m s") auto
  from observesE [OF assms(1) m] obtain d where d: "log s1 = d @ log s"
      "list_all (\<lambda>e. \<not> is_post e) d" "\<And>x. r1 = Inr x \<Longrightarrow> P x (set d)" by metis
  show "\<exists>d. log s' = d @ log s \<and> list_all (\<lambda>e. \<not> is_post e) d \<and>
      (\<forall>y. r = Inr y \<longrightarrow> (\<exists>x D1 D2. set d = D1 \<union> D2 \<and> P x D1 \<and> Q x y D2))"
  proof (cases r1)
    case (Inl e)
    with b m d show ?thesis by auto
  next
    case (Inr x)
    with b m have "f x s1 = (r, s')" by simp
    from observesE [OF assms(2) this] obtain d' where d': "log s' = d' @ log s1"
        "list_all (\<lambda>e. \<not> is_post e) d'" "\<And>y. r = Inr y \<Longrightarrow> Q x y (set d')" by metis
    with d Inr show ?thesis by (intro exI [of _ "d' @ d"]) (auto simp: Un_commute)
  qed
qed

lemma reads_bindE: "reads log m \<Longrightarrow> (\<And>x. reads log (f x)) \<Longrightarrow> reads log (bindE m f)"
  by (rule observes_weaken [OF observes_bindE]) auto

text \<open>What success tells: of the first part, when the rest only reads, or of the rest.\<close>

lemma observes_first:
  assumes "observes log m (\<lambda>_. P)" and "\<And>x. reads log (f x)" and "\<And>D E. P D \<Longrightarrow> P (D \<union> E)"
  shows "observes log (bindE m f) (\<lambda>_. P)"
  by (rule observes_weaken [OF observes_bindE [OF assms(1,2)]]) (use assms(3) in blast)

lemma observes_rest:
  assumes "reads log m" and "\<And>x. observes log (f x) Q" and "\<And>y D E. Q y E \<Longrightarrow> Q y (D \<union> E)"
  shows "observes log (bindE m f) Q"
  by (rule observes_weaken [OF observes_bindE [OF assms(1,2)]]) (use assms(3) in blast)

lemma observes_basic:
  "observes log (okE x) (\<lambda>y D. y = x)"
  "observes log (failE e) (\<lambda>y D. False)"
  "observes log (liftE q) (\<lambda>y D. q = Inr y)"
  "observes log (fail_ifE b e) (\<lambda>y D. \<not> b)"
  unfolding observes_def okE_def failE_def liftE_def fail_ifE_def fail_if_def by auto

lemma reads_basic [intro, simp]:
  "reads log (okE x)" "reads log (failE e)" "reads log (liftE q)" "reads log (fail_ifE b e)"
  by (rule observes_weaken [OF observes_basic(1)] observes_weaken [OF observes_basic(2)]
      observes_weaken [OF observes_basic(3)] observes_weaken [OF observes_basic(4)], simp)+

lemma reads_map_errE: "reads log m \<Longrightarrow> reads log (map_errE f m)"
  unfolding observes_def map_errE_def by (fastforce split: prod.splits)

text \<open>What a result says of itself.\<close>

lemma observes_result:
  assumes "observes log m P" and "\<And>s x s'. m s = (Inr x, s') \<Longrightarrow> R x"
  shows "observes log m (\<lambda>x D. P x D \<and> R x)"
  using assms unfolding observes_def by (metis (no_types, lifting))

lemma reads_attemptE: "reads log m \<Longrightarrow> reads log (attemptE m)"
  unfolding observes_def attemptE_def by (fastforce split: prod.splits)

lemma reads_forE: "(\<And>x. reads log (f x)) \<Longrightarrow> reads log (forE xs f)"
  by (induction xs) (auto intro: reads_bindE)

lemma reads_if: "(b \<Longrightarrow> reads log m) \<Longrightarrow> (\<not> b \<Longrightarrow> reads log m') \<Longrightarrow> reads log (if b then m else m')"
  by simp

lemma reads_case_option:
  "(x = None \<Longrightarrow> reads log m) \<Longrightarrow> (\<And>y. x = Some y \<Longrightarrow> reads log (f y)) \<Longrightarrow>
   reads log (case x of None \<Rightarrow> m | Some y \<Rightarrow> f y)"
  by (cases x) simp_all

lemma reads_case_prod:
  "(\<And>a b. x = (a, b) \<Longrightarrow> reads log (f a b)) \<Longrightarrow> reads log (case x of (a, b) \<Rightarrow> f a b)"
  by (cases x) simp

named_theorems reads_intros \<open>operations that only read\<close>

lemmas reads_rules =
  reads_bindE reads_if reads_case_option reads_case_prod reads_map_errE reads_attemptE reads_forE
  reads_basic

section \<open>Triples\<close>

type_synonym 'j assertion = "'j event list \<Rightarrow> bool"

definition triple ::
  "('s \<Rightarrow> 'j event list) \<Rightarrow> ('j event set \<Rightarrow> string \<times> string \<times> json \<Rightarrow> bool) \<Rightarrow> 'j assertion \<Rightarrow>
   ('s, 'e, 'a) eff \<Rightarrow> ('e \<Rightarrow> 'j assertion) \<Rightarrow> ('a \<Rightarrow> 'j assertion) \<Rightarrow> bool" where
  "triple log J A m E B \<longleftrightarrow>
     (\<forall>s r s'. m s = (r, s') \<longrightarrow> authorized J (log s) \<longrightarrow> A (log s) \<longrightarrow>
        authorized J (log s') \<and> set (log s) \<subseteq> set (log s') \<and>
        (case r of Inl e \<Rightarrow> E e (log s') | Inr x \<Rightarrow> B x (log s')))"

text \<open>An assertion that holds on whatever is read.\<close>

definition stable :: "'j assertion \<Rightarrow> bool" where
  "stable A \<longleftrightarrow> (\<forall>l e. A l \<longrightarrow> \<not> is_post e \<longrightarrow> A (e # l))"

lemma stable_append:
  "stable A \<Longrightarrow> list_all (\<lambda>e. \<not> is_post e) d \<Longrightarrow> A l \<Longrightarrow> A (d @ l)"
  by (induction d) (auto simp: stable_def)

lemma stable_intros [intro, simp]:
  "stable (\<lambda>l. P (mutations l))"
  "stable A \<Longrightarrow> stable B \<Longrightarrow> stable (\<lambda>l. A l \<and> B l)"
  "(\<And>D E. S D \<Longrightarrow> D \<subseteq> E \<Longrightarrow> S E) \<Longrightarrow> stable (\<lambda>l. S (since l))"
  "stable (\<lambda>l. b)"
proof -
  show "stable (\<lambda>l. P (mutations l))"
    using reads_append(2) [of "[e]" for e] unfolding stable_def by fastforce
  show "stable (\<lambda>l. S (since l))" if mono: "\<And>D E. S D \<Longrightarrow> D \<subseteq> E \<Longrightarrow> S E"
  proof -
    have "S (since (e # l))" if "S (since l)" and "\<not> is_post e" for e l
      using reads_append(1) [of "[e]" l] that mono [of "since l" "since (e # l)"] by auto
    then show ?thesis unfolding stable_def by blast
  qed
qed (auto simp: stable_def)

lemma triple_bindE:
  assumes "triple log J A m E B" and "\<And>x. triple log J (B x) (f x) E C"
  shows "triple log J A (bindE m f) E C"
  unfolding triple_def
proof (intro allI impI)
  fix s r s'
  assume b: "bindE m f s = (r, s')" and pre: "authorized J (log s)" "A (log s)"
  obtain r1 s1 where m: "m s = (r1, s1)" by (cases "m s") auto
  with assms(1) pre have 1: "authorized J (log s1)" "set (log s) \<subseteq> set (log s1)"
      "case r1 of Inl e \<Rightarrow> E e (log s1) | Inr x \<Rightarrow> B x (log s1)"
    unfolding triple_def by blast+
  show "authorized J (log s') \<and> set (log s) \<subseteq> set (log s') \<and>
      (case r of Inl e \<Rightarrow> E e (log s') | Inr x \<Rightarrow> C x (log s'))"
  proof (cases r1)
    case (Inl e)
    with b m 1 show ?thesis by auto
  next
    case (Inr x)
    with b m have "f x s1 = (r, s')" by simp
    with Inr 1 assms(2) [of x] show ?thesis unfolding triple_def by (auto split: sum.split) blast+
  qed
qed

lemma triple_observes:
  assumes "observes log m P" and "stable A" and "\<And>e l. A l \<Longrightarrow> E e l"
  shows "triple log J A m E (\<lambda>x l. A l \<and> (\<exists>D. D \<subseteq> since l \<and> P x D))"
  unfolding triple_def
proof (intro allI impI)
  fix s r s'
  assume run: "m s = (r, s')" and pre: "authorized J (log s)" "A (log s)"
  from observesE [OF assms(1) run] obtain d where d: "log s' = d @ log s"
      "list_all (\<lambda>e. \<not> is_post e) d" "\<And>x. r = Inr x \<Longrightarrow> P x (set d)" by metis
  from d(1,2) pre have "authorized J (log s')" by (simp add: reads_append)
  moreover from d(1,2) pre(2) stable_append [OF assms(2)] have "A (log s')" by simp
  moreover from d(1,2) have "set d \<subseteq> since (log s')" by (simp add: reads_append)
  ultimately show "authorized J (log s') \<and> set (log s) \<subseteq> set (log s') \<and> (case r of Inl e \<Rightarrow> E e (log s')
      | Inr x \<Rightarrow> A (log s') \<and> (\<exists>D. D \<subseteq> since (log s') \<and> P x D))"
    using d(1,3) assms(3) by (auto split: sum.split)
qed

lemma triple_weaken:
  assumes "triple log J A m E B" and "\<And>l. A' l \<Longrightarrow> A l" and "\<And>e l. E e l \<Longrightarrow> E' e l"
    and "\<And>x l. B x l \<Longrightarrow> B' x l"
  shows "triple log J A' m E' B'"
  unfolding triple_def
proof (intro allI impI)
  fix s r s'
  assume "m s = (r, s')" "authorized J (log s)" "A' (log s)"
  with assms(1,2) have "authorized J (log s')" "set (log s) \<subseteq> set (log s')"
      "case r of Inl e \<Rightarrow> E e (log s') | Inr x \<Rightarrow> B x (log s')"
    unfolding triple_def by blast+
  with assms(3,4) show "authorized J (log s') \<and> set (log s) \<subseteq> set (log s') \<and>
      (case r of Inl e \<Rightarrow> E' e (log s') | Inr x \<Rightarrow> B' x (log s'))"
    by (auto split: sum.splits)
qed

lemma triple_reads:
  assumes "reads log m" and "stable A" and "\<And>e l. A l \<Longrightarrow> E e l"
  shows "triple log J A m E (\<lambda>_. A)"
  by (rule triple_weaken [OF triple_observes [of log m "\<lambda>_ _. True" A E J, OF assms]]) simp_all

lemma triple_attemptE:
  assumes "triple log J A m E B"
  shows "triple log J A (attemptE m) F (\<lambda>r l. case r of Inl e \<Rightarrow> E e l | Inr x \<Rightarrow> B x l)"
  using assms unfolding triple_def attemptE_def by (fastforce split: prod.splits)

lemma triple_okE: "(\<And>l. A l \<Longrightarrow> B x l) \<Longrightarrow> triple log J A (okE x) E B"
  unfolding triple_def okE_def by auto

text \<open>A case distinction on what the precondition says beside the log.\<close>

lemma triple_assume: "(b \<Longrightarrow> triple log J A m E B) \<Longrightarrow> triple log J (\<lambda>l. A l \<and> b) m E B"
  unfolding triple_def by blast

text \<open>What the log already shows stays shown.\<close>

lemma triple_frame:
  assumes "triple log J A m E B" and "\<And>D D'. F D \<Longrightarrow> D \<subseteq> D' \<Longrightarrow> F D'"
  shows "triple log J (\<lambda>l. A l \<and> F (set l)) m (\<lambda>e l. E e l \<and> F (set l)) (\<lambda>x l. B x l \<and> F (set l))"
  unfolding triple_def
proof (intro allI impI)
  fix s r s'
  assume "m s = (r, s')" "authorized J (log s)" "A (log s) \<and> F (set (log s))"
  with assms(1) have 1: "authorized J (log s')" "set (log s) \<subseteq> set (log s')" "F (set (log s))"
      "case r of Inl e \<Rightarrow> E e (log s') | Inr x \<Rightarrow> B x (log s')"
    unfolding triple_def by blast+
  from assms(2) [OF 1(3,2)] have "F (set (log s'))" .
  with 1 show "authorized J (log s') \<and> set (log s) \<subseteq> set (log s') \<and> (case r of
      Inl e \<Rightarrow> E e (log s') \<and> F (set (log s')) | Inr x \<Rightarrow> B x (log s') \<and> F (set (log s')))"
    by (auto split: sum.splits)
qed

section \<open>The observed transport\<close>

locale observed_transport =
  fixes gh :: "('s, 'j) transport" and log :: "'s \<Rightarrow> 'j event list"
  assumes get_logged: "t_get gh path s = (r, s') \<Longrightarrow> log s' = answered path r # log s"
    and optional_logged: "t_get_optional gh path s = (q, s') \<Longrightarrow> log s' = Got path q # log s"
    and graphql_logged: "t_graphql gh payload s = (r, s') \<Longrightarrow> log s' = Queried payload r # log s"
    and mutate_logged:
      "t_mutate gh verb path payload s = (r, s') \<Longrightarrow> log s' = Posted verb path payload r # log s"
begin

lemma observes_get:
  "observes log (get gh de path) (\<lambda>x D. \<exists>b. Got path (Inr (Some b)) \<in> D \<and> de b = Inr x)"
  unfolding observes_def
proof (intro allI impI)
  fix s r s'
  assume run: "get gh de path s = (r, s')"
  obtain q s1 where q: "t_get gh path s = (q, s1)" by (cases "t_get gh path s") auto
  with run have s1: "s1 = s'" by (cases q) (auto simp: get_def)
  have "\<exists>b. answered path q = Got path (Inr (Some b)) \<and> de b = Inr x" if "r = Inr x" for x
    using run q that by (cases q) (auto simp: get_def decode_def res_simps answered_def)
  with get_logged [OF q] s1 show "\<exists>d. log s' = d @ log s \<and> list_all (\<lambda>e. \<not> is_post e) d \<and>
      (\<forall>x. r = Inr x \<longrightarrow> (\<exists>b. Got path (Inr (Some b)) \<in> set d \<and> de b = Inr x))"
    by (intro exI [of _ "[answered path q]"]) (auto simp: answered_def)
qed

lemma observes_get_optional:
  "observes log (get_optional gh de path) (\<lambda>x D. case x of
     None \<Rightarrow> Got path (Inr None) \<in> D
   | Some y \<Rightarrow> \<exists>b. Got path (Inr (Some b)) \<in> D \<and> de b = Inr y)"
  unfolding observes_def
proof (intro allI impI)
  fix s r s'
  assume run: "get_optional gh de path s = (r, s')"
  obtain q s1 where q: "t_get_optional gh path s = (q, s1)" by (cases "t_get_optional gh path s") auto
  with run have s1: "s1 = s'"
    by (cases q) (auto simp: get_optional_def bindE_apply split: option.splits prod.splits sum.splits)
  have "case x of None \<Rightarrow> q = Inr None | Some y \<Rightarrow> \<exists>b. q = Inr (Some b) \<and> de b = Inr y"
    if "r = Inr x" for x
    using run q that
    by (cases q) (auto simp: get_optional_def decode_def res_simps split: option.splits)
  with optional_logged [OF q] s1 show "\<exists>d. log s' = d @ log s \<and> list_all (\<lambda>e. \<not> is_post e) d \<and>
      (\<forall>x. r = Inr x \<longrightarrow> (case x of None \<Rightarrow> Got path (Inr None) \<in> set d
         | Some y \<Rightarrow> \<exists>b. Got path (Inr (Some b)) \<in> set d \<and> de b = Inr y))"
    by (intro exI [of _ "[Got path q]"]) (auto split: option.splits)
qed

lemma reads_get [reads_intros]: "reads log (get gh de path)"
  by (rule observes_weaken [OF observes_get]) simp

lemma reads_get_optional [reads_intros]: "reads log (get_optional gh de path)"
  by (rule observes_weaken [OF observes_get_optional]) simp

lemma observes_graphql:
  "observes log (graphql gh de payload) (\<lambda>x D. \<exists>b. Queried payload (Inr b) \<in> D \<and> de b = Inr x)"
  unfolding observes_def
proof (intro allI impI)
  fix s r s'
  assume run: "graphql gh de payload s = (r, s')"
  obtain q s1 where q: "t_graphql gh payload s = (q, s1)" by (cases "t_graphql gh payload s") auto
  with run have s1: "s1 = s'" by (cases q) (auto simp: graphql_def)
  have "\<exists>b. q = Inr b \<and> de b = Inr x" if "r = Inr x" for x
    using run q that by (cases q) (auto simp: graphql_def decode_def res_simps)
  with graphql_logged [OF q] s1 show "\<exists>d. log s' = d @ log s \<and> list_all (\<lambda>e. \<not> is_post e) d \<and>
      (\<forall>x. r = Inr x \<longrightarrow> (\<exists>b. Queried payload (Inr b) \<in> set d \<and> de b = Inr x))"
    by (intro exI [of _ "[Queried payload q]"]) auto
qed

lemma reads_graphql [reads_intros]: "reads log (graphql gh de payload)"
  by (rule observes_weaken [OF observes_graphql]) simp

lemma triple_mutate:
  assumes "\<And>l. A l \<Longrightarrow> J (since l) (verb, path, payload)"
    and "\<And>e a l. A l \<Longrightarrow> E e (Posted verb path payload a # l)"
    and "\<And>x b l. A l \<Longrightarrow> de b = Inr x \<Longrightarrow> B x (Posted verb path payload (Inr b) # l)"
  shows "triple log J A (mutate gh de verb path payload) E B"
  unfolding triple_def
proof (intro allI impI)
  fix s r s'
  assume run: "mutate gh de verb path payload s = (r, s')"
    and pre: "authorized J (log s)" "A (log s)"
  obtain q s1 where q: "t_mutate gh verb path payload s = (q, s1)"
    by (cases "t_mutate gh verb path payload s") auto
  with run have s1: "s1 = s'" by (cases q) (auto simp: mutate_def)
  note l = mutate_logged [OF q, unfolded s1]
  from l pre assms(1) have "authorized J (log s')" "set (log s) \<subseteq> set (log s')" by auto
  moreover have "case r of Inl e \<Rightarrow> E e (log s') | Inr x \<Rightarrow> B x (log s')"
  proof (cases r)
    case (Inl e)
    with l pre(2) assms(2) show ?thesis by simp
  next
    case (Inr x)
    with run q obtain b where "q = Inr b" "de b = Inr x"
      by (cases q) (auto simp: mutate_def decode_def res_simps)
    with Inr l pre(2) assms(3) show ?thesis by simp
  qed
  ultimately show "authorized J (log s') \<and> set (log s) \<subseteq> set (log s') \<and>
      (case r of Inl e \<Rightarrow> E e (log s') | Inr x \<Rightarrow> B x (log s'))"
    by blast
qed

end

text \<open>Beside it a machine and a registry that do not talk to GitHub.\<close>

locale observed_world = observed_transport gh log
  for gh :: "('s, 'j) transport" and log :: "'s \<Rightarrow> 'j event list" +
  fixes os' :: "'s os" and reg :: "'s registry"
  assumes output_quiet: "os_output os' c input limits s = (r1, s') \<Longrightarrow> log s' = log s"
    and manifest_quiet: "os_read_manifest os' root p s = (r2, s') \<Longrightarrow> log s' = log s"
    and sleep_quiet: "log (os_sleep os' n s) = log s"
    and print_quiet: "log (os_print os' text s) = log s"
    and version_quiet: "rg_exact_version reg p v s = (r3, s') \<Longrightarrow> log s' = log s"
    and download_quiet: "rg_download reg p v s = (r4, s') \<Longrightarrow> log s' = log s"
begin

lemma reads_os [reads_intros]:
  "reads log (os_output os' c input limits)"
  "reads log (os_read_manifest os' root p)"
  "reads log (modifyE (os_sleep os' n))"
  "reads log (modifyE (os_print os' text))"
  "reads log (readE (os_var os' k))"
  unfolding observes_def modifyE_def readE_def
  using output_quiet manifest_quiet sleep_quiet print_quiet by auto

lemma reads_registry [reads_intros]:
  "reads log (rg_exact_version reg p v)"
  "reads log (rg_download reg p v)"
  unfolding observes_def using version_quiet download_quiet by auto

end

lemma beside_quiet: "beside m s = (r, s') \<Longrightarrow> snd s' = snd s"
  by (auto simp: beside_def split: prod.splits)

interpretation logged: observed_world "log_transport gh" snd "beside_os os'" "beside_registry reg"
  for gh :: "('w, 'j) transport" and os' :: "'w os" and reg :: "'w registry"
proof unfold_locales
qed (auto simp: log_transport_def beside_os_def beside_registry_def split: prod.splits
    dest: beside_quiet)

end
