(* ===== verification/FinalizeSafety.thy ===== *)
theory FinalizeSafety
  imports Finalize Traffic
begin

text \<open>
  What the finalizer writes. Over any transport that is observed, its mutations are at most the tag
  object, the tag ref and the Release, in this order, with the contents the source determines; each is
  made after the missing object was read as absent and protected main was read as the executing policy,
  with no other mutation between.
\<close>

section \<open>The plan\<close>

definition names_main :: "'j serde \<Rightarrow> 'j \<Rightarrow> string \<Rightarrow> bool" where
  "names_main de body sha \<longleftrightarrow>
     (\<exists>r. (de_ref de body = Inr r \<or> de_support_ref de body = Inr r) \<and>
        gr_name r = ''refs/heads/main'' \<and> go_kind (gr_object r) = ''commit'' \<and> go_sha (gr_object r) = sha)"

definition main_confirmed :: "'j serde \<Rightarrow> string \<Rightarrow> 'j event set \<Rightarrow> bool" where
  "main_confirmed de sha D \<longleftrightarrow> (\<exists>b. Got main_ref_path (Inr (Some b)) \<in> D \<and> names_main de b sha)"

definition policy_of :: "Context \<Rightarrow> string" where
  "policy_of cx = (case cx_binding cx of None \<Rightarrow> cx_sha cx | Some b \<Rightarrow> bn_main b)"

definition tag_retained :: "'j serde \<Rightarrow> ReleaseSpec \<Rightarrow> 'j event set \<Rightarrow> bool" where
  "tag_retained de spec D \<longleftrightarrow>
     (\<exists>b r. Got (tag_ref_path spec) (Inr (Some b)) \<in> D \<and> de_ref de b = Inr r \<and>
        gr_name r = ''refs/tags/'' @ sp_tag spec \<and> go_kind (gr_object r) = ''tag'')"

definition justified ::
  "'j serde \<Rightarrow> string \<Rightarrow> ReleaseSpec \<Rightarrow> 'j event set \<Rightarrow> string \<times> string \<times> json \<Rightarrow> bool" where
  "justified de policy spec D mutation \<longleftrightarrow>
     main_confirmed de policy D \<and>
     (fst (snd mutation) = refs_path ''tags'' \<longrightarrow> Got (tag_ref_path spec) (Inr None) \<in> D) \<and>
     (fst (snd mutation) = releases_path \<longrightarrow>
        Got (release_tag_path spec) (Inr None) \<in> D \<and> tag_retained de spec D)"

definition tag_post :: "semver \<Rightarrow> ReleaseSpec \<Rightarrow> string \<times> string \<times> json" where
  "tag_post sv spec = (''POST'', refs_path ''tags'', tag_payload sv spec)"

definition ref_post :: "ReleaseSpec \<Rightarrow> string \<Rightarrow> string \<times> string \<times> json" where
  "ref_post spec sha = (''POST'', refs_path ''refs'', ref_payload spec sha)"

definition release_post :: "ReleaseSpec \<Rightarrow> Guard \<Rightarrow> string \<times> string \<times> json" where
  "release_post spec g = (''POST'', releases_path, release_payload spec g)"

text \<open>The mutations of the tag phase that may have been made when the Release phase begins.\<close>

definition tag_done :: "semver \<Rightarrow> ReleaseSpec \<Rightarrow> (string \<times> string \<times> json) list \<Rightarrow> bool" where
  "tag_done sv spec ms \<longleftrightarrow>
     ms = [] \<or> (\<exists>sha. is_sha sha \<and> ms = [tag_post sv spec, ref_post spec sha])"

definition planned :: "semver \<Rightarrow> ReleaseSpec \<Rightarrow> (string \<times> string \<times> json) list \<Rightarrow> bool" where
  "planned sv spec ms \<longleftrightarrow>
     ms = [tag_post sv spec] \<or> tag_done sv spec ms \<or>
     (\<exists>tags g. tag_done sv spec tags \<and> gu_target g = sp_tag spec \<and> ms = tags @ [release_post spec g])"

section \<open>Reading operations\<close>

lemma main_ref_path_eq: "refs_path (''ref/'' @ ''heads/main'') = main_ref_path"
  by (simp add: main_ref_path_def)

lemma main_confirmed_mono: "main_confirmed de sha D \<Longrightarrow> D \<subseteq> D' \<Longrightarrow> main_confirmed de sha D'"
  unfolding main_confirmed_def by blast

lemma tag_retained_mono: "tag_retained de spec D \<Longrightarrow> D \<subseteq> D' \<Longrightarrow> tag_retained de spec D'"
  unfolding tag_retained_def by blast

context observed_transport
begin

lemma observes_live_main:
  "observes log (require_live_policy_main de gh sha) (\<lambda>_. main_confirmed de sha)"
  unfolding require_live_policy_main_def
  by (rule observes_weaken [OF observes_bindE [OF observes_get observes_basic(4)]])
    (auto simp: main_confirmed_def names_main_def main_ref_path_def)

lemma observes_read_main:
  "observes log (read_ref de gh ''refs/heads/main'') (\<lambda>x. main_confirmed de x)"
proof -
  have "strip_prefix ''refs/heads/main'' ''refs/'' = Some ''heads/main''"
    using strip_prefix_append [of "''refs/''" "''heads/main''"] by simp
  then have "observes log (read_ref de gh ''refs/heads/main'') (\<lambda>x D. \<exists>b r. Got main_ref_path (Inr (Some b)) \<in> D
      \<and> de_support_ref de b = Inr r \<and> gr_name r = ''refs/heads/main'' \<and> go_kind (gr_object r) = ''commit''
      \<and> go_sha (gr_object r) = x)"
    unfolding read_ref_def
    by (intro observes_weaken [OF observes_bindE [OF observes_basic(3)
          observes_bindE [OF observes_get observes_bindE [OF observes_basic(4) observes_basic(1)]]]])
      (fastforce simp: res_simps main_ref_path_eq [simplified])
  then show ?thesis
    by (rule observes_weaken) (auto simp: main_confirmed_def names_main_def)
qed

lemma reads_read_ref [reads_intros]: "reads log (read_ref de gh base)"
  unfolding read_ref_def by (intro reads_rules reads_intros)

lemma reads_evidence [reads_intros]:
  "reads log (require_live_policy_main de gh sha)"
  "reads log (require_ancestor_of_policy de gh source sha)"
  "reads log (compare de gh source tip)"
  "reads log (verify_anchor de gh anchor main commit)"
  unfolding require_live_policy_main_def require_ancestor_of_policy_def compare_def verify_anchor_def Let_def
  by (intro reads_rules reads_intros)+

lemma observes_binding:
  "observes log (binding_verify de gh b) (\<lambda>_. main_confirmed de (bn_main b))"
proof -
  have main: "observes log (bindE (read_ref de gh ''refs/heads/main'') (\<lambda>main. fail_ifE (main \<noteq> bn_main b) e))
      (\<lambda>_. main_confirmed de (bn_main b))" for e
    by (rule observes_weaken [OF observes_bindE [OF observes_read_main observes_basic(4)]])
      (auto elim: main_confirmed_mono)
  have mono: "main_confirmed de (bn_main b) D \<Longrightarrow> main_confirmed de (bn_main b) (E \<union> D)" for D E
    by (rule main_confirmed_mono) auto
  show ?thesis
    unfolding binding_verify_def
    by (rule observes_rest, intro reads_rules reads_intros, rule observes_rest [rotated 1], rule observes_rest [rotated 1],
      rule observes_rest [rotated 1], rule observes_rest [rotated 1], rule observes_rest [rotated 1],
      rule observes_rest [rotated 1], rule main, (intro reads_rules reads_intros | erule mono)+)
qed

lemma observes_rebind:
  "observes log (spec_rebind de gh spec main) (\<lambda>_. main_confirmed de
     (case sp_binding spec of None \<Rightarrow> main | Some b \<Rightarrow> bn_main b))"
proof (cases "sp_binding spec")
  case None
  have "observes log (bindE (require_ancestor_of_policy de gh (sp_source spec) main) (\<lambda>_.
      require_live_policy_main de gh main)) (\<lambda>_. main_confirmed de main)"
    by (rule observes_rest [OF _ observes_live_main])
      (auto intro: reads_intros elim: main_confirmed_mono)
  with None show ?thesis by (simp add: spec_rebind_def)
next
  case (Some b)
  then show ?thesis by (simp add: spec_rebind_def observes_binding)
qed

lemma reads_rebind [reads_intros]:
  "reads log (binding_verify de gh b)"
  "reads log (context_rebind de gh cx)"
  by (rule observes_weaken [OF observes_binding], simp)
    (auto simp: context_rebind_def intro!: reads_rules reads_intros
      intro: observes_weaken [OF observes_binding] split: option.split)

lemma reads_latest [reads_intros]:
  "reads log (read_latest sv de gh)"
  "reads log (guard_verify sv de gh g)"
  "reads log (require_unchanged sv de gh g)"
  "reads log (verify_app_scope de gh slug)"
  unfolding guard_verify_def require_unchanged_def verify_app_scope_def read_latest_def Let_def
  by (intro reads_rules reads_intros)+

lemma observes_capture:
  "observes log (guard_capture sv de gh l tag) (\<lambda>g D. gu_target g = tag)"
  unfolding guard_capture_def
  by (intro observes_weaken [OF observes_bindE [OF reads_basic(3) observes_bindE [OF reads_latest(1)
        observes_bindE [OF reads_basic(4) observes_bindE [OF reads_basic(3) observes_basic(1)]]]]]) auto

lemma observes_inspect_tag:
  "observes log (inspect_tag sv de gh spec) (\<lambda>x D. case x of
     None \<Rightarrow> Got (tag_ref_path spec) (Inr None) \<in> D
   | Some sha \<Rightarrow> is_sha sha \<and> tag_retained de spec D)"
proof -
  have found: "observes log (case q of None \<Rightarrow> okE None | Some reference \<Rightarrow>
       bindE (fail_ifE
           (gr_name reference \<noteq> ''refs/tags/'' @ sp_tag spec \<or>
            go_kind (gr_object reference) \<noteq> ''tag'' \<or> \<not> is_sha (go_sha (gr_object reference)))
           ''release tag ref is not one annotated tag'') (\<lambda>_.
         bindE (get gh (de_tag de) (refs_path (''tags/'' @ go_sha (gr_object reference)))) (\<lambda>tag.
         bindE (liftE (validate_tag_object sv tag spec)) (\<lambda>_.
         bindE (fail_ifE (at_sha tag \<noteq> go_sha (gr_object reference))
           ''annotated tag object readback differs'') (\<lambda>_.
         okE (Some (go_sha (gr_object reference))))))))
      (\<lambda>x D. case q of None \<Rightarrow> x = None | Some r \<Rightarrow> x = Some (go_sha (gr_object r)) \<and>
         is_sha (go_sha (gr_object r)) \<and> gr_name r = ''refs/tags/'' @ sp_tag spec \<and>
         go_kind (gr_object r) = ''tag'')" for q
  proof (cases q)
    case None
    then show ?thesis by (simp add: observes_weaken [OF observes_basic(1)])
  next
    case (Some r)
    then show ?thesis
      by (auto intro!: observes_weaken [OF observes_bindE [OF observes_basic(4)
            observes_bindE [OF reads_get observes_bindE [OF reads_basic(3)
            observes_bindE [OF reads_basic(4) observes_basic(1)]]]]])
  qed
  show ?thesis
    unfolding inspect_tag_def
    by (rule observes_weaken [OF observes_bindE [OF observes_get_optional found]])
      (fastforce simp: tag_retained_def split: option.splits)
qed

lemma observes_exact_tag:
  "observes log (require_exact_tag_object sv de gh spec sha) (\<lambda>_. tag_retained de spec)"
proof -
  have found: "observes log (case q of Some observed \<Rightarrow> fail_ifE (observed \<noteq> sha) e | None \<Rightarrow> failE e')
      (\<lambda>_ D. q = Some sha)" for q e e'
    by (cases q) (auto intro: observes_weaken [OF observes_basic(2)] observes_weaken [OF observes_basic(4)])
  show ?thesis
    unfolding require_exact_tag_object_def
    by (rule observes_weaken [OF observes_bindE [OF reads_basic(3)
          observes_bindE [OF observes_inspect_tag found]]])
      (auto elim: tag_retained_mono)
qed

lemma observes_inspect_release:
  "observes log (inspect_release de gh spec) (\<lambda>x D. \<not> x \<longrightarrow> Got (release_tag_path spec) (Inr None) \<in> D)"
proof -
  have found: "observes log (case q of None \<Rightarrow> okE False
      | Some release \<Rightarrow> bindE (liftE (validate_release release spec)) (\<lambda>_. okE True)) (\<lambda>x D. x \<longleftrightarrow> q \<noteq> None)" for q
  proof (cases q)
    case None
    then show ?thesis by (simp add: observes_weaken [OF observes_basic(1)])
  next
    case (Some r)
    then show ?thesis
      by (auto intro!: observes_weaken [OF observes_bindE [OF reads_basic(3) observes_basic(1)]])
  qed
  show ?thesis
    unfolding inspect_release_def
    by (rule observes_weaken [OF observes_bindE [OF observes_get_optional found]])
      (auto split: option.splits)
qed

lemma reads_inspect [reads_intros]:
  "reads log (inspect_tag sv de gh spec)"
  "reads log (require_exact_tag_object sv de gh spec sha)"
  "reads log (inspect_release de gh spec)"
  "reads log (guard_capture sv de gh l tag)"
  "reads log (spec_rebind de gh spec main)"
  by (rule observes_weaken [OF observes_inspect_tag] observes_weaken [OF observes_exact_tag]
      observes_weaken [OF observes_inspect_release] observes_weaken [OF observes_capture]
      observes_weaken [OF observes_rebind], simp)+

end

section \<open>The tag phase\<close>

lemma paths_distinct [simp]:
  "refs_path ''tags'' \<noteq> releases_path" "refs_path ''refs'' \<noteq> releases_path"
  "refs_path ''refs'' \<noteq> refs_path ''tags''" "releases_path \<noteq> refs_path ''tags''"
  by (simp_all add: refs_path_def releases_path_def)

lemma planned_tags: "tag_done sv spec ms \<Longrightarrow> planned sv spec ms"
  by (simp add: planned_def)

definition spec_policy :: "ReleaseSpec \<Rightarrow> string \<Rightarrow> string" where
  "spec_policy spec main = (case sp_binding spec of None \<Rightarrow> main | Some b \<Rightarrow> bn_main b)"

lemma stable_confirmed [intro, simp]: "stable (\<lambda>l. main_confirmed de sha (since l))"
  by (rule stable_intros(3)) (rule main_confirmed_mono)

lemma stable_got [intro, simp]: "stable (\<lambda>l. e \<in> since l)"
  by (intro stable_intros(3)) auto

lemma stable_retained [intro, simp]: "stable (\<lambda>l. tag_retained de spec (since l))"
  by (rule stable_intros(3)) (rule tag_retained_mono)

context observed_transport
begin

abbreviation (input) any_plan :: "semver \<Rightarrow> ReleaseSpec \<Rightarrow> string \<Rightarrow> 'j assertion" where
  "any_plan sv spec e l \<equiv> planned sv spec (mutations l)"

lemma triple_learn:
  assumes "observes log m (\<lambda>_. S)" and "\<And>D D'. S D \<Longrightarrow> D \<subseteq> D' \<Longrightarrow> S D'"
    and "stable A" and "\<And>e l. A l \<Longrightarrow> E e l"
  shows "triple log J A m E (\<lambda>_ l. A l \<and> S (since l))"
  by (rule triple_weaken [OF triple_observes [OF assms(1,3,4)]]) (use assms(2) in blast)+

lemmas triple_rebind = triple_learn [OF observes_rebind main_confirmed_mono, folded spec_policy_def]
lemmas triple_exact_tag = triple_learn [OF observes_exact_tag tag_retained_mono]

lemma triple_inspect_tag:
  assumes "stable A" and "\<And>e l. A l \<Longrightarrow> E e l"
  shows "triple log J A (inspect_tag sv de gh spec) E (\<lambda>x l. A l \<and> (case x of
      None \<Rightarrow> Got (tag_ref_path spec) (Inr None) \<in> since l | Some sha \<Rightarrow> is_sha sha))"
  by (rule triple_weaken [OF triple_observes [OF observes_inspect_tag assms]])
    (auto split: option.splits)

lemma reads_confirm_tag [reads_intros]: "reads log (confirm_tag sv de gh spec sha mutation)"
  unfolding confirm_tag_def by (auto intro!: reads_rules reads_intros split: sum.split)

text \<open>The ref is posted for the tag object that was validated.\<close>

lemma triple_expose_tag:
  "triple log (justified de (spec_policy spec main) spec) (\<lambda>l. mutations l = [tag_post sv spec])
    (expose_tag sv de gh spec main tag) (any_plan sv spec) (\<lambda>_ l. tag_done sv spec (mutations l))"
proof -
  let ?J = "justified de (spec_policy spec main) spec"
  let ?m1 = "[tag_post sv spec]" and ?m2 = "[tag_post sv spec, ref_post spec (at_sha tag)]"
  have 0: "planned sv spec ?m1" by (simp add: planned_def)
  have valid: "triple log ?J (\<lambda>l. mutations l = ?m1) (liftE (validate_tag_object sv tag spec))
      (any_plan sv spec) (\<lambda>_ l. mutations l = ?m1 \<and> is_sha (at_sha tag))"
    by (rule triple_weaken [OF triple_observes [OF observes_basic(3), where A = "\<lambda>l. mutations l = ?m1"
        and E = "any_plan sv spec"]]) (auto simp: 0 validate_tag_object_def res_simps)
  have post: "triple log ?J (\<lambda>l. mutations l = ?m1 \<and> main_confirmed de (spec_policy spec main) (since l))
      (attemptE (mutate gh (de_ref de) ''POST'' (refs_path ''refs'') (ref_payload spec (at_sha tag))))
      (any_plan sv spec) (\<lambda>_ l. mutations l = ?m2)"
    by (rule triple_weaken [OF triple_attemptE [OF triple_mutate
        [where A = "\<lambda>l. mutations l = ?m1 \<and> main_confirmed de (spec_policy spec main) (since l)"
          and E = "\<lambda>_ l. mutations l = ?m2" and B = "\<lambda>_ l. mutations l = ?m2"]]])
      (auto simp: justified_def ref_post_def split: sum.splits)
  have confirm: "triple log ?J (\<lambda>l. mutations l = ?m2) (confirm_tag sv de gh spec (at_sha tag) mutation)
      (any_plan sv spec) (\<lambda>_ l. tag_done sv spec (mutations l))" if "is_sha (at_sha tag)" for mutation
    by (rule triple_weaken [OF triple_reads [OF reads_confirm_tag,
        where A = "\<lambda>l. mutations l = ?m2" and E = "any_plan sv spec"]])
      (use that in \<open>auto simp: tag_done_def planned_def\<close>)
  show ?thesis
    unfolding expose_tag_def
    by (intro triple_bindE [OF valid] triple_assume triple_bindE [OF triple_rebind] triple_bindE [OF post] confirm)
      (auto simp: 0)
qed

lemma triple_reconcile_tag:
  "triple log (justified de (spec_policy spec main) spec) (\<lambda>l. mutations l = [])
    (reconcile_tag sv de gh spec main) (any_plan sv spec) (\<lambda>_ l. tag_done sv spec (mutations l))"
proof -
  let ?J = "justified de (spec_policy spec main) spec"
  let ?absent = "\<lambda>l. Got (tag_ref_path spec) (Inr None) \<in> since l"
  have 0: "planned sv spec []" "tag_done sv spec []"
    by (simp_all add: planned_def tag_done_def)
  have rebind: "triple log ?J (\<lambda>l. mutations l = [] \<and> ?absent l) (spec_rebind de gh spec main) (any_plan sv spec)
      (\<lambda>_ l. (mutations l = [] \<and> ?absent l) \<and> main_confirmed de (spec_policy spec main) (since l))"
    by (rule triple_rebind) (auto simp: 0)
  have post: "triple log ?J (\<lambda>l. (mutations l = [] \<and> ?absent l) \<and> main_confirmed de (spec_policy spec main) (since l))
      (mutate gh (de_tag de) ''POST'' (refs_path ''tags'') (tag_payload sv spec)) (any_plan sv spec)
      (\<lambda>_ l. mutations l = [tag_post sv spec])"
    by (rule triple_mutate) (auto simp: justified_def tag_post_def planned_def)
  have rest: "triple log ?J (\<lambda>l. mutations l = [] \<and> (case found of None \<Rightarrow> ?absent l | Some sha \<Rightarrow> is_sha sha))
      (case found of
        Some object_sha \<Rightarrow> okE object_sha
      | None \<Rightarrow>
          bindE (spec_rebind de gh spec main) (\<lambda>_.
          bindE (mutate gh (de_tag de) ''POST'' (refs_path ''tags'') (tag_payload sv spec)) (\<lambda>tag.
          expose_tag sv de gh spec main tag)))
      (any_plan sv spec) (\<lambda>_ l. tag_done sv spec (mutations l))" for found
  proof (cases found)
    case None
    with triple_bindE [OF rebind triple_bindE [OF post triple_expose_tag]] show ?thesis by simp
  next
    case (Some sha)
    then show ?thesis by (auto intro!: triple_okE simp: 0)
  qed
  show ?thesis
    unfolding reconcile_tag_def
    by (rule triple_bindE [OF triple_inspect_tag rest]) (auto simp: 0)
qed

end

section \<open>The Release phase\<close>

context observed_transport
begin

lemma reads_confirm_release [reads_intros]:
  "reads log (confirm_release sv de gh spec sha g mutation)"
  unfolding confirm_release_def by (auto intro!: reads_rules reads_intros split: sum.split)

lemma triple_create_release:
  assumes "tag_done sv spec ms" and "gu_target g = sp_tag spec"
  shows "triple log (justified de (spec_policy spec main) spec)
    (\<lambda>l. mutations l = ms \<and> Got (release_tag_path spec) (Inr None) \<in> since l)
    (create_release sv de gh spec sha main g) (any_plan sv spec) (\<lambda>_ l. planned sv spec (mutations l))"
proof -
  let ?J = "justified de (spec_policy spec main) spec"
  let ?A = "\<lambda>l. mutations l = ms \<and> Got (release_tag_path spec) (Inr None) \<in> since l"
  let ?B = "\<lambda>l. ?A l \<and> main_confirmed de (spec_policy spec main) (since l)"
  let ?C = "\<lambda>l. ?B l \<and> tag_retained de spec (since l)"
  let ?m = "ms @ [release_post spec g]"
  have 0: "planned sv spec ms" "planned sv spec ?m"
    using assms by (auto simp: planned_def)
  have rebind: "triple log ?J ?A (spec_rebind de gh spec main) (any_plan sv spec) (\<lambda>_. ?B)"
    by (rule triple_rebind) (auto simp: 0)
  have tag: "triple log ?J ?B (require_exact_tag_object sv de gh spec sha) (any_plan sv spec) (\<lambda>_. ?C)"
    by (rule triple_exact_tag) (auto simp: 0)
  have unchanged: "triple log ?J ?C (require_unchanged sv de gh g) (any_plan sv spec) (\<lambda>_. ?C)"
    by (rule triple_reads) (auto intro: reads_intros simp: 0)
  have post: "triple log ?J ?C
      (attemptE (mutate gh (de_release de) ''POST'' releases_path (release_payload spec g)))
      (any_plan sv spec) (\<lambda>_ l. mutations l = ?m)"
    by (rule triple_weaken [OF triple_attemptE [OF triple_mutate
        [where A = ?C and E = "\<lambda>_ l. mutations l = ?m" and B = "\<lambda>_ l. mutations l = ?m"]]])
      (auto simp: justified_def release_post_def split: sum.splits)
  have confirm: "triple log ?J (\<lambda>l. mutations l = ?m) (confirm_release sv de gh spec sha g mutation)
      (any_plan sv spec) (\<lambda>_ l. planned sv spec (mutations l))" for mutation
    by (rule triple_weaken [OF triple_reads [OF reads_confirm_release,
        where A = "\<lambda>l. mutations l = ?m" and E = "any_plan sv spec"]]) (auto simp: 0)
  show ?thesis
    unfolding create_release_def
    by (intro triple_bindE [OF rebind] triple_bindE [OF tag] triple_bindE [OF unchanged]
        triple_bindE [OF post] confirm)
qed

lemma triple_reconcile_release:
  assumes "tag_done sv spec ms"
  shows "triple log (justified de (spec_policy spec main) spec) (\<lambda>l. mutations l = ms)
    (reconcile_release sv de gh spec sha main) (any_plan sv spec) (\<lambda>_ l. planned sv spec (mutations l))"
proof -
  let ?J = "justified de (spec_policy spec main) spec"
  let ?A = "\<lambda>l. mutations l = ms"
  let ?absent = "\<lambda>l. Got (release_tag_path spec) (Inr None) \<in> since l"
  note 0 = planned_tags [OF assms]
  have capture: "triple log ?J ?A (guard_capture sv de gh (sp_line spec) (sp_tag spec)) (any_plan sv spec)
      (\<lambda>g l. ?A l \<and> gu_target g = sp_tag spec)"
    by (rule triple_weaken [OF triple_observes [OF observes_capture, where A = ?A and E = "any_plan sv spec"]])
      (auto simp: 0)
  have inspect: "triple log ?J ?A (inspect_release de gh spec) (any_plan sv spec)
      (\<lambda>x l. ?A l \<and> (\<not> x \<longrightarrow> ?absent l))"
    by (rule triple_weaken [OF triple_observes [OF observes_inspect_release, where A = ?A and E = "any_plan sv spec"]])
      (auto simp: 0)
  have present: "triple log ?J ?A (bindE (require_exact_tag_object sv de gh spec sha) (\<lambda>_. guard_verify sv de gh g))
      (any_plan sv spec) (\<lambda>_ l. planned sv spec (mutations l))" for g
    by (rule triple_weaken [OF triple_reads [where A = ?A and E = "any_plan sv spec"]])
      (auto simp: 0 intro: reads_rules reads_intros)
  have branch: "triple log ?J (\<lambda>l. ?A l \<and> (\<not> x \<longrightarrow> ?absent l)) (if x then
        bindE (require_exact_tag_object sv de gh spec sha) (\<lambda>_. guard_verify sv de gh g)
      else create_release sv de gh spec sha main g) (any_plan sv spec) (\<lambda>_ l. planned sv spec (mutations l))"
    if "gu_target g = sp_tag spec" for x g
    using present [of g] triple_create_release [OF assms that] by (cases x) simp_all
  show ?thesis
    unfolding reconcile_release_def
    by (intro triple_bindE [OF capture] triple_assume triple_bindE [OF inspect] branch)
qed

end

section \<open>The finalizer\<close>

context observed_world
begin

lemma reads_sources [reads_intros]:
  "reads log (validate_source_version t os' root v)"
  "reads log (verify_published_source t at reg cx v)"
  "reads log (release_body sv os' root v)"
  unfolding validate_source_version_def verify_published_source_def release_body_def
    manifest_version_def require_archive_def Let_def
  by (intro reads_rules reads_intros)+

text \<open>The part of the finalizer after everything it prepares was read.\<close>

lemma triple_reconcile:
  "triple log (justified de (spec_policy spec main) spec) (\<lambda>l. mutations l = [])
    (bindE (reconcile_tag sv de gh spec main) (\<lambda>sha.
     bindE (reconcile_release sv de gh spec sha main) (\<lambda>_.
     modifyE (os_print os' text))))
    (\<lambda>_ l. planned sv spec (mutations l)) (\<lambda>_ l. planned sv spec (mutations l))"
proof (rule triple_bindE [OF triple_reconcile_tag])
  let ?J = "justified de (spec_policy spec main) spec"
  fix sha
  have "triple log ?J (\<lambda>l. tag_done sv spec (mutations l)) (reconcile_release sv de gh spec sha main)
      (any_plan sv spec) (\<lambda>_ l. planned sv spec (mutations l))"
    using triple_reconcile_release unfolding triple_def by blast
  moreover have "triple log ?J (\<lambda>l. planned sv spec (mutations l)) (modifyE (os_print os' text))
      (any_plan sv spec) (\<lambda>_ l. planned sv spec (mutations l))"
    by (rule triple_reads) (auto intro: reads_intros)
  ultimately show "triple log ?J (\<lambda>l. tag_done sv spec (mutations l))
      (bindE (reconcile_release sv de gh spec sha main) (\<lambda>_. modifyE (os_print os' text)))
      (any_plan sv spec) (\<lambda>_ l. planned sv spec (mutations l))"
    by (rule triple_bindE)
qed

end

text \<open>What is fixed of the specification before the source is read.\<close>

definition plan_spec :: "release_tools \<Rightarrow> Context \<Rightarrow> version \<Rightarrow> ReleaseSpec" where
  "plan_spec t cx v = release_spec t cx v [] []"

lemma justified_release_spec:
  "justified de policy (release_spec t cx v body date) = justified de policy (plan_spec t cx v)"
  unfolding justified_def fun_eq_iff
  by (simp add: plan_spec_def release_spec_def tag_ref_path_def release_tag_path_def tag_retained_def)

lemma spec_policy_release_spec [simp]:
  "spec_policy (release_spec t cx v body date) (cx_sha cx) = policy_of cx"
  by (simp add: spec_policy_def policy_of_def release_spec_def)

text \<open>The source determines the specification: its changelog section and its merged commit.\<close>

definition source_date :: "'j serde \<Rightarrow> Context \<Rightarrow> string \<Rightarrow> 'j event set \<Rightarrow> bool" where
  "source_date de cx date D \<longleftrightarrow>
     (\<exists>b commit. Got (commit_path (cx_source cx)) (Inr (Some b)) \<in> D \<and> de_commit de b = Inr commit \<and>
        validate_commit commit (cx_source cx) True = Inr () \<and>
        date = gs_date (cb_committer (co_commit commit)))"

definition determined ::
  "release_tools \<Rightarrow> 'j serde \<Rightarrow> Context \<Rightarrow> version \<Rightarrow> ReleaseSpec \<Rightarrow> 'j event set \<Rightarrow> bool" where
  "determined t de cx v spec D \<longleftrightarrow>
     (\<exists>changelog body date. changelog_section changelog (''## ['' @ rt_show t v @ '']'') = Inr body \<and>
        source_date de cx date D \<and> spec = release_spec t cx v body date)"

definition finalize_plan ::
  "release_tools \<Rightarrow> 'j serde \<Rightarrow> Context \<Rightarrow> version \<Rightarrow> 'j event list \<Rightarrow> bool" where
  "finalize_plan t de cx v l \<longleftrightarrow>
     mutations l = [] \<or>
     (\<exists>spec. determined t de cx v spec (set l) \<and> planned (rt_semver t) spec (mutations l))"

lemma justified_determined:
  "determined t de cx v spec D \<Longrightarrow> justified de policy spec = justified de policy (plan_spec t cx v)"
  unfolding determined_def by (auto simp: justified_release_spec)

lemma finalize_planI:
  "changelog_section changelog (''## ['' @ rt_show t v @ '']'') = Inr body \<Longrightarrow>
   planned (rt_semver t) (release_spec t cx v body date) (mutations l) \<Longrightarrow>
   source_date de cx date (set l) \<Longrightarrow> finalize_plan t de cx v l"
  unfolding finalize_plan_def determined_def by blast

lemma source_date_mono: "source_date de cx date D \<Longrightarrow> D \<subseteq> D' \<Longrightarrow> source_date de cx date D'"
  unfolding source_date_def by blast

context observed_world
begin

lemma observes_body:
  "observes log (release_body sv os' root v)
    (\<lambda>body D. \<exists>changelog. changelog_section changelog (''## ['' @ sv_show sv v @ '']'') = Inr body)"
  unfolding release_body_def
  by (rule observes_weaken [OF observes_bindE [OF reads_map_errE [OF reads_os(2)] observes_basic(3)]]) auto

lemma triple_finalize_spec:
  assumes "changelog_section changelog (''## ['' @ rt_show t v @ '']'') = Inr body"
  shows "triple log (justified de (policy_of cx) (plan_spec t cx v))
    (\<lambda>l. mutations l = [] \<and> source_date de cx date (set l))
    (let spec = release_spec t cx v body date
     in bindE (context_rebind de gh cx) (\<lambda>_.
        bindE (reconcile_tag (rt_semver t) de gh spec (cx_sha cx)) (\<lambda>tag_object_sha.
        bindE (reconcile_release (rt_semver t) de gh spec tag_object_sha (cx_sha cx)) (\<lambda>_.
        modifyE (os_print os' (text spec))))))
    (\<lambda>_. finalize_plan t de cx v) (\<lambda>_. finalize_plan t de cx v)"
proof -
  let ?spec = "release_spec t cx v body date"
  let ?J = "justified de (policy_of cx) (plan_spec t cx v)"
  let ?P = "\<lambda>l. planned (rt_semver t) ?spec (mutations l)"
  have rebind: "triple log ?J (\<lambda>l. mutations l = []) (context_rebind de gh cx) (\<lambda>_. ?P) (\<lambda>_ l. mutations l = [])"
    by (rule triple_reads) (auto intro: reads_intros simp: planned_def tag_done_def)
  have "triple log ?J (\<lambda>l. mutations l = [])
     (let spec = ?spec
      in bindE (context_rebind de gh cx) (\<lambda>_.
         bindE (reconcile_tag (rt_semver t) de gh spec (cx_sha cx)) (\<lambda>tag_object_sha.
         bindE (reconcile_release (rt_semver t) de gh spec tag_object_sha (cx_sha cx)) (\<lambda>_.
         modifyE (os_print os' (text spec)))))) (\<lambda>_. ?P) (\<lambda>_. ?P)"
    unfolding Let_def
    using triple_bindE [OF rebind triple_reconcile [of de ?spec "cx_sha cx", unfolded justified_release_spec
        spec_policy_release_spec]] .
  from triple_frame [OF this source_date_mono] show ?thesis
    by (rule triple_weaken) (auto intro: finalize_planI [OF assms])
qed

lemma triple_finalize:
  "triple log (justified de (policy_of cx) (plan_spec t cx v)) (\<lambda>l. mutations l = [])
    (finalize t at de os' root gh reg cx v slug)
    (\<lambda>_. finalize_plan t de cx v) (\<lambda>_. finalize_plan t de cx v)"
proof -
  let ?J = "justified de (policy_of cx) (plan_spec t cx v)"
  let ?A = "\<lambda>l. mutations l = []"
  let ?E = "\<lambda>_. finalize_plan t de cx v"
  let ?F = "\<lambda>commit D. \<exists>b. Got (commit_path (cx_source cx)) (Inr (Some b)) \<in> D \<and> de_commit de b = Inr commit"
  have 0: "finalize_plan t de cx v l" if "?A l" for l
    using that by (simp add: finalize_plan_def)
  have step: "triple log ?J ?A m ?E (\<lambda>_. ?A)" if "reads log m" for m
    by (rule triple_reads [OF that]) (auto intro: 0)
  have commit: "triple log ?J ?A (get gh (de_commit de) (commit_path (cx_source cx))) ?E
      (\<lambda>commit l. ?A l \<and> ?F commit (set l))"
    by (rule triple_weaken [OF triple_observes [OF observes_get, where A = ?A and E = ?E]])
      (use since_subset in \<open>auto intro: 0\<close>)
  have valid: "triple log ?J (\<lambda>l. ?A l \<and> ?F commit (set l)) (liftE (validate_commit commit (cx_source cx) True)) ?E
      (\<lambda>_ l. ?A l \<and> source_date de cx (gs_date (cb_committer (co_commit commit))) (set l))" for commit
    by (rule triple_weaken [OF triple_frame [OF triple_observes [OF observes_basic(3), where A = ?A and E = ?E],
        where F = "?F commit"]])
      (auto intro: 0 simp: source_date_def)
  have body: "triple log ?J (\<lambda>l. ?A l \<and> source_date de cx date (set l)) (release_body (rt_semver t) os' root v) ?E
      (\<lambda>body l. (?A l \<and> source_date de cx date (set l)) \<and>
        (\<exists>changelog. changelog_section changelog (''## ['' @ rt_show t v @ '']'') = Inr body))" for date
    by (rule triple_weaken [OF triple_frame [OF triple_observes [OF observes_body, where A = ?A and E = ?E]
         source_date_mono]]) (auto intro: 0)
  show ?thesis
    unfolding finalize_def
    by (intro triple_bindE [OF step [OF reads_sources(1)]] triple_bindE [OF step [OF reads_rebind(2)]]
        triple_bindE [OF step [OF reads_sources(2)]] triple_bindE [OF step [OF reads_latest(4)]]
        triple_bindE [OF commit] triple_bindE [OF valid] triple_bindE [OF body] triple_assume)
      (elim exE, erule triple_finalize_spec)
qed

end


end
