(* ===== verification/FinalizeResult.thy ===== *)
theory FinalizeResult
  imports Finalize
begin

text \<open>
  What the finalizer's success and its wait for the registry mean, for any transport and registry: the
  objects it leaves were read back exact, and the wait polls a bounded number of times.
\<close>

section \<open>Exact objects\<close>

definition exact_tag :: "semver \<Rightarrow> ReleaseSpec \<Rightarrow> string \<Rightarrow> AnnotatedTag \<Rightarrow> bool" where
  "exact_tag sv spec sha tag \<longleftrightarrow>
     is_sha sha \<and>
     tag = \<lparr>at_sha = sha, at_tag = sp_tag spec, at_message = tag_message sv spec,
       at_object = \<lparr>go_sha = sp_source spec, go_kind = ''commit''\<rparr>,
       at_tagger = \<lparr>gs_name = APP_LOGIN, gs_email = APP_EMAIL, gs_date = sp_tagger_date spec\<rparr>\<rparr>"

definition exact_release :: "ReleaseSpec \<Rightarrow> GitHubRelease \<Rightarrow> bool" where
  "exact_release spec release \<longleftrightarrow>
     gh_id release \<noteq> 0 \<and>
     release = \<lparr>gh_id = gh_id release, gh_tag_name = sp_tag spec, gh_target_commitish = sp_source spec,
       gh_name = sp_tag spec, gh_body = sp_body spec, gh_draft = False,
       gh_prerelease = (v_pre (sp_version spec) \<noteq> []), gh_immutable = True,
       gh_author = \<lparr>us_login = APP_LOGIN, us_id = APP_ID, us_kind = ''Bot''\<rparr>, gh_assets = []\<rparr>"

lemma validate_tag_object_Inr [res_simps]:
  fixes tag :: AnnotatedTag
  shows "validate_tag_object sv tag spec = Inr u \<longleftrightarrow> exact_tag sv spec (at_sha tag) tag"
  by (cases tag; cases "at_object tag"; cases "at_tagger tag")
    (auto simp: validate_tag_object_def exact_tag_def fail_if_Inr)

lemma validate_release_Inr [res_simps]:
  fixes release :: GitHubRelease
  shows "validate_release release spec = Inr u \<longleftrightarrow> exact_release spec release"
  by (cases release; cases "gh_author release")
    (auto simp: validate_release_def exact_release_def fail_if_Inr Let_def)

text \<open>Two consecutive reads: the tag ref names \<open>sha\<close>, and \<open>sha\<close> is the exact tag object.\<close>

definition tag_read ::
  "semver \<Rightarrow> 'j serde \<Rightarrow> ('w, 'j) transport \<Rightarrow> ReleaseSpec \<Rightarrow> string \<Rightarrow> 'w \<Rightarrow> 'w \<Rightarrow> bool" where
  "tag_read sv de gh spec sha w w' \<longleftrightarrow>
     (\<exists>w1 tag. get_optional gh (de_ref de) (tag_ref_path spec) w =
        (Inr (Some \<lparr>gr_name = ''refs/tags/'' @ sp_tag spec, gr_object = \<lparr>go_sha = sha, go_kind = ''tag''\<rparr>\<rparr>), w1) \<and>
        get gh (de_tag de) (refs_path (''tags/'' @ sha)) w1 = (Inr tag, w') \<and> exact_tag sv spec sha tag)"

definition release_read ::
  "'j serde \<Rightarrow> ('w, 'j) transport \<Rightarrow> ReleaseSpec \<Rightarrow> 'w \<Rightarrow> 'w \<Rightarrow> bool" where
  "release_read de gh spec w w' \<longleftrightarrow>
     (\<exists>release. get_optional gh (de_release de) (release_tag_path spec) w = (Inr (Some release), w') \<and>
        exact_release spec release)"

lemma inspect_tag_Some:
  assumes "inspect_tag sv de gh spec w = (Inr (Some sha), w')"
  shows "tag_read sv de gh spec sha w w'"
proof -
  obtain reference :: GitRef and w1 and tag :: AnnotatedTag where
    r: "get_optional gh (de_ref de) (tag_ref_path spec) w = (Inr (Some reference), w1)"
      "gr_name reference = ''refs/tags/'' @ sp_tag spec" "go_kind (gr_object reference) = ''tag''"
      "get gh (de_tag de) (refs_path (''tags/'' @ sha)) w1 = (Inr tag, w')"
      "exact_tag sv spec (at_sha tag) tag" "at_sha tag = sha" "go_sha (gr_object reference) = sha"
    using assms
    by (auto simp: inspect_tag_def bindE_Inr liftE_Inr fail_ifE_Inr okE_Inr validate_tag_object_Inr
        if_Inl_Inr split: option.splits)
  then have "reference = \<lparr>gr_name = ''refs/tags/'' @ sp_tag spec, gr_object = \<lparr>go_sha = sha, go_kind = ''tag''\<rparr>\<rparr>"
    by (cases reference; cases "gr_object reference") simp
  with r show ?thesis unfolding tag_read_def by auto
qed

lemma require_exact_tag_object_Inr:
  assumes "require_exact_tag_object sv de gh spec sha w = (Inr u, w')"
  shows "tag_read sv de gh spec sha w w'"
  using assms
  by (auto simp: require_exact_tag_object_def bindE_Inr liftE_Inr fail_ifE_Inr failE_Inr if_Inl_Inr
      intro: inspect_tag_Some split: option.splits)

lemma inspect_release_True:
  assumes "inspect_release de gh spec w = (Inr True, w')"
  shows "release_read de gh spec w w'"
  using assms
  by (auto simp: inspect_release_def release_read_def bindE_Inr liftE_Inr okE_Inr validate_release_Inr
      split: option.splits)

lemma confirm_release_Inr:
  assumes "confirm_release sv de gh spec sha g mutation w = (Inr (), w')"
  shows "\<exists>w1 w2 w3. release_read de gh spec w1 w2 \<and> tag_read sv de gh spec sha w2 w3 \<and>
    guard_verify sv de gh g w3 = (Inr (), w')"
proof -
  obtain w1 w2 w3 where "inspect_release de gh spec w1 = (Inr True, w2)"
    "require_exact_tag_object sv de gh spec sha w2 = (Inr (), w3)" "guard_verify sv de gh g w3 = (Inr (), w')"
    using assms by (auto simp: confirm_release_def bindE_Inr fail_ifE_Inr if_Inl_Inr)
  then show ?thesis
    using inspect_release_True require_exact_tag_object_Inr by metis
qed

text \<open>However the Release came to be, it, its tag and the Latest mark are read back last.\<close>

lemma reconcile_release_Inr:
  assumes "reconcile_release sv de gh spec sha main w = (Inr (), w')"
  shows "\<exists>g wc wc' w1 w2 w3. guard_capture sv de gh (sp_line spec) (sp_tag spec) wc = (Inr g, wc') \<and>
    release_read de gh spec w1 w2 \<and> tag_read sv de gh spec sha w2 w3 \<and>
    guard_verify sv de gh g w3 = (Inr (), w')"
proof -
  obtain g wc present w1 where g: "guard_capture sv de gh (sp_line spec) (sp_tag spec) w = (Inr g, wc)"
    and i: "inspect_release de gh spec wc = (Inr present, w1)"
    and rest: "(if present then
        bindE (require_exact_tag_object sv de gh spec sha) (\<lambda>_. guard_verify sv de gh g)
      else create_release sv de gh spec sha main g) w1 = (Inr (), w')"
    using assms by (auto simp: reconcile_release_def bindE_Inr)
  have "\<exists>w1 w2 w3. release_read de gh spec w1 w2 \<and> tag_read sv de gh spec sha w2 w3 \<and>
      guard_verify sv de gh g w3 = (Inr (), w')"
  proof (cases present)
    case True
    with rest obtain w3 where "require_exact_tag_object sv de gh spec sha w1 = (Inr (), w3)"
      "guard_verify sv de gh g w3 = (Inr (), w')" by (auto simp: bindE_Inr)
    moreover from i True have "inspect_release de gh spec wc = (Inr True, w1)" by simp
    ultimately show ?thesis using inspect_release_True require_exact_tag_object_Inr by metis
  next
    case False
    with rest show ?thesis
      by (auto simp: create_release_def bindE_Inr dest!: confirm_release_Inr)
  qed
  with g show ?thesis by blast
qed


section \<open>The wait for the registry\<close>

text \<open>The state of the \<open>k\<close>th poll when no earlier one found the version, and its answer.\<close>

primrec poll_state :: "'w os \<Rightarrow> 'w registry \<Rightarrow> string \<Rightarrow> 'w \<Rightarrow> nat \<Rightarrow> 'w" where
  "poll_state os' reg ver w 0 = w"
| "poll_state os' reg ver w (Suc k) =
     poll_state os' reg ver
       (os_sleep os' 10 (snd (rg_exact_version reg (pp_package TRAITS_PACKAGE) ver w))) k"

definition poll_answer ::
  "'w os \<Rightarrow> 'w registry \<Rightarrow> string \<Rightarrow> 'w \<Rightarrow> nat \<Rightarrow> RegistryVersion option result" where
  "poll_answer os' reg ver w k =
     fst (rg_exact_version reg (pp_package TRAITS_PACKAGE) ver (poll_state os' reg ver w k))"

definition found_at :: "'w os \<Rightarrow> 'w registry \<Rightarrow> string \<Rightarrow> 'w \<Rightarrow> nat \<Rightarrow> bool" where
  "found_at os' reg ver w k \<longleftrightarrow>
     (\<exists>record. poll_answer os' reg ver w k = Inr (Some record)) \<and>
     list_all (\<lambda>j. poll_answer os' reg ver w j = Inr None) [0..<k]"

lemma list_all_upt_Suc: "list_all P [0..<Suc k] \<longleftrightarrow> P 0 \<and> list_all (\<lambda>j. P (Suc j)) [0..<k]"
proof -
  have "[0..<Suc k] = 0 # map Suc [0..<k]" by (simp add: upt_conv_Cons map_Suc_upt del: upt_Suc)
  then show ?thesis by (simp add: list.pred_map comp_def del: upt_Suc)
qed

lemma found_at_0:
  "found_at os' reg ver w 0 \<longleftrightarrow>
   (\<exists>record. fst (rg_exact_version reg (pp_package TRAITS_PACKAGE) ver w) = Inr (Some record))"
  by (simp add: found_at_def poll_answer_def)

lemma found_at_Suc:
  "found_at os' reg ver w (Suc k) \<longleftrightarrow>
   fst (rg_exact_version reg (pp_package TRAITS_PACKAGE) ver w) = Inr None \<and>
   found_at os' reg ver (os_sleep os' 10 (snd (rg_exact_version reg (pp_package TRAITS_PACKAGE) ver w))) k"
  unfolding found_at_def list_all_upt_Suc by (auto simp: poll_answer_def)

lemma registry_attempts_found:
  assumes "m + n = REGISTRY_ATTEMPTS"
  shows "is_ok (fst (registry_attempts os' reg ver [Suc m..<Suc REGISTRY_ATTEMPTS] w)) \<longleftrightarrow>
    (\<exists>k. k < n \<and> found_at os' reg ver w k)"
  using assms
proof (induction n arbitrary: m w)
  case 0
  then show ?case by simp
next
  case (Suc n)
  then have upt: "[Suc m..<Suc REGISTRY_ATTEMPTS] = Suc m # [Suc (Suc m)..<Suc REGISTRY_ATTEMPTS]"
    by (simp add: upt_conv_Cons)
  obtain q w1 where q: "rg_exact_version reg (pp_package TRAITS_PACKAGE) ver w = (q, w1)"
    by (cases "rg_exact_version reg (pp_package TRAITS_PACKAGE) ver w") auto
  have IH: "is_ok (fst (registry_attempts os' reg ver [Suc (Suc m)..<Suc REGISTRY_ATTEMPTS] (os_sleep os' 10 w1)))
      \<longleftrightarrow> (\<exists>k. k < n \<and> found_at os' reg ver (os_sleep os' 10 w1) k)"
    using Suc.IH [of "Suc m"] Suc.prems by simp
  have parts: "(\<exists>k. k < Suc n \<and> found_at os' reg ver w k) \<longleftrightarrow> found_at os' reg ver w 0 \<or>
      (\<exists>k. k < n \<and> found_at os' reg ver w (Suc k))"
    by (metis less_Suc_eq_0_disj zero_less_Suc Suc_less_eq)
  show ?case
  proof (cases q)
    case (Inl e)
    with q parts show ?thesis by (simp add: upt del: upt_Suc) (simp add: found_at_0 found_at_Suc)
  next
    case (Inr found)
    show ?thesis
    proof (cases found)
      case None
      have "Suc m = REGISTRY_ATTEMPTS \<longleftrightarrow> n = 0" using Suc.prems by auto
      with q Inr None IH parts show ?thesis
        by (simp add: upt del: upt_Suc)
          (auto simp: found_at_0 found_at_Suc modifyE_def bindE_def)
    next
      case (Some entry)
      with q Inr parts show ?thesis by (simp add: upt del: upt_Suc) (simp add: found_at_0)
    qed
  qed
qed

text \<open>
  C11: the wait for the registry is bounded and misses nothing within its bound. It succeeds exactly
  when one of the first 60 polls, ten seconds apart, finds the version and every poll before it
  answered that there is none yet.
\<close>

theorem registry_wait_exact:
  "is_ok (fst (wait_for_registry os' reg ver w)) \<longleftrightarrow> (\<exists>k. k < 60 \<and> found_at os' reg ver w k)"
  unfolding wait_for_registry_def
  using registry_attempts_found [of 0 60 os' reg ver w] by (simp add: REGISTRY_ATTEMPTS_def)

end
