(* ===== verification/QualifySafety.thy ===== *)
theory QualifySafety
  imports Qualify FinalizeSafety FinalizeResult
begin

text \<open>
  What a qualification may do and what its answer means: it never writes to GitHub, and a qualified
  answer implies the state of the registry, the event and the version the mode asks for.
\<close>

section \<open>Qualification only reads\<close>

context observed_world
begin

lemma reads_manifest_checks [reads_intros]:
  "reads log (manifest_version t os' root)"
  "reads log (command_output os' root program args)"
  unfolding manifest_version_def command_output_def by (intro reads_rules reads_intros)+

lemma reads_check_manifest [reads_intros]: "reads log (check_manifest t os' root)"
  unfolding check_manifest_def validate_release_config_def workspace_metadata_def Let_def
  by (intro reads_rules reads_intros)

lemma reads_qualify_parts [reads_intros]:
  "reads log (validate_original_run de gh source run_id attempt)"
  "reads log (require_fresh_progression sv de gh l v)"
  "reads log (qualify_pull de gh cx mode)"
  "reads log (qualify_version t os' root pull)"
  "reads log (read_release_head_signature de gh n oid merge)"
  "reads log (qualify_registry t at reg cx v)"
  "reads log (qualify_forge sv de gh spec state)"
  "reads log (verify_binding de gh cx)"
  unfolding validate_original_run_def require_fresh_progression_def qualify_pull_def qualify_version_def
    read_release_head_signature_def qualify_registry_def require_archive_def qualify_forge_def
    verify_binding_def Let_def
  by (intro reads_rules reads_intros)+

lemma reads_qualify_mode [reads_intros]: "reads log (qualify_mode de os' gh cx mode run_id attempt)"
  by (cases mode) (auto simp: qualify_recovery_def intro!: reads_rules reads_intros)

lemma reads_qualify: "reads log (qualify t at de os' root gh reg cx mode run_id attempt)"
  unfolding qualify_def qualify_release_def qualify_commits_def Let_def
  by (intro reads_rules reads_intros)

end

text \<open>In every mode the exchanges of one qualification are reads only.\<close>

theorem qualify_never_writes:
  "case qualify t at de (beside_os os') root (log_transport gh) (beside_registry reg) cx mode run_id attempt (w, [])
   of (r, (w', l)) \<Rightarrow> mutations l = []"
proof -
  obtain r w' l where run: "qualify t at de (beside_os os') root (log_transport gh) (beside_registry reg) cx
      mode run_id attempt (w, []) = (r, (w', l))" by (metis surj_pair)
  from observesE [OF logged.reads_qualify run] obtain d where "l = d @ []"
      "list_all (\<lambda>e. \<not> is_post e) d" by auto
  then have "mutations l = []" using reads_append(2) [of d "[]"] by simp
  with run show ?thesis by simp
qed

section \<open>What a qualified answer means\<close>

text \<open>The events and sources each mode accepts.\<close>

fun dispatch_ok :: "Context \<Rightarrow> QualificationMode \<Rightarrow> u64 option \<Rightarrow> u64 option \<Rightarrow> bool" where
  "dispatch_ok cx Validate run_id attempt \<longleftrightarrow> cx_event cx = ''workflow_dispatch'' \<and>
     (cx_line cx = Main \<longrightarrow> cx_sha cx = cx_source cx) \<and> run_id = None \<and> attempt = None"
| "dispatch_ok cx Release_mode run_id attempt \<longleftrightarrow> cx_event cx = ''workflow_dispatch'' \<and>
     cx_line cx \<noteq> Main \<and> run_id = None \<and> attempt = None"
| "dispatch_ok cx Push run_id attempt \<longleftrightarrow> cx_event cx = ''push'' \<and> cx_line cx = Main \<and>
     cx_sha cx = cx_source cx \<and> run_id = None \<and> attempt = None"
| "dispatch_ok cx Recover_mode run_id attempt \<longleftrightarrow> cx_event cx = ''workflow_dispatch'' \<and>
     run_id \<notin> {None, Some 0} \<and> attempt \<notin> {None, Some 0}"
| "dispatch_ok cx Publish run_id attempt \<longleftrightarrow>
     cx_event cx = (if cx_line cx = Main then ''push'' else ''workflow_dispatch'') \<and>
     run_id = None \<and> attempt = None"

text \<open>The registry state a mode may qualify in, and what it rests on.\<close>

definition state_ok ::
  "release_tools \<Rightarrow> archive_tools \<Rightarrow> Context \<Rightarrow> QualificationMode \<Rightarrow> version \<Rightarrow> string \<Rightarrow> bool" where
  "state_ok t at cx mode v state \<longleftrightarrow>
     (state = ''absent'' \<and> mode \<noteq> Recover_mode \<or>
      state = ''published'' \<and> mode \<in> {Push, Recover_mode} \<and>
      (\<exists>archive files. archive_source at TRAITS_PACKAGE files (cx_source cx) \<and>
         inspect_archive_entries at archive TRAITS_PACKAGE (rt_show t v) (cx_source cx) = Inr files))"

definition advancement_ok :: "release_tools \<Rightarrow> Context \<Rightarrow> QualificationMode \<Rightarrow> version \<Rightarrow> bool" where
  "advancement_ok t cx mode v \<longleftrightarrow>
     mode \<notin> {Release_mode, Publish} \<or> cx_line cx = Main \<or>
     (\<exists>published. require_advancement (rt_semver t) (cx_line cx) v published = Inr ())"

lemma qualify_mode_Inr:
  assumes "qualify_mode de os' gh cx mode run_id attempt w = (Inr early, w')"
  shows "dispatch_ok cx mode run_id attempt \<and>
    early = (if mode = Validate then Some (validation (cx_source cx)) else None)"
proof -
  have n: "Option.bind x (\<lambda>n :: u64. if 0 < n then Some n else None) = Some m \<Longrightarrow> x \<notin> {None, Some 0}" for x m
    by (cases x) (auto split: if_splits)
  show ?thesis
    using assms
    by (cases mode) (auto simp: qualify_recovery_def bindE_Inr liftE_Inr fail_ifE_Inr okE_Inr ok_or_Inr if_Inl_Inr
        split: if_splits dest!: n)
qed

lemma qualify_pull_None:
  assumes "qualify_pull de gh cx mode w = (Inr None, w')"
  shows "mode = Push"
  using assms
  by (auto simp: qualify_pull_def bindE_Inr liftE_Inr okE_Inr failE_Inr split: option.splits if_splits)

lemma qualify_version_Inr:
  assumes "qualify_version t os' root pull w = (Inr v, w')"
  shows "v_build v = [] \<and> v_pre v \<noteq> ''rc.0''"
  using assms
  by (auto simp: qualify_version_def Let_def bindE_Inr liftE_Inr fail_ifE_Inr okE_Inr if_Inl_Inr
      validate_selected_release_version_def bindR_Inr fail_if_Inr split: if_splits)

lemma qualify_registry_Inr:
  assumes "qualify_registry t at reg cx v w = (Inr state, w')" and "qualify_state mode state = Inr ()"
    and "\<not> (mode = Publish \<and> state \<noteq> ''absent'')" and "mode \<noteq> Validate"
  shows "state_ok t at cx mode v state"
proof -
  consider (absent) "state = ''absent''"
    | (published) x w1 where "state = ''published''"
      "require_archive at reg TRAITS_PACKAGE (rt_show t v) (cx_source cx) w1 = (Inr x, w')"
    using assms(1)
    by (auto simp: qualify_registry_def bindE_Inr okE_Inr fail_ifE_Inr split: option.splits)
  then show ?thesis
  proof cases
    case absent
    with assms(2) show ?thesis by (auto simp: state_ok_def qualify_state_def bindR_Inr fail_if_Inr)
  next
    case published
    then obtain archive files where i:
      "inspect_archive_entries at archive TRAITS_PACKAGE (rt_show t v) (cx_source cx) = Inr files"
      by (auto simp: require_archive_def Let_def bindE_Inr liftE_Inr)
    then have "archive_source at TRAITS_PACKAGE files (cx_source cx)"
      using inspect_archive_Inr(4) unfolding inspect_archive_entries_def by metis
    moreover have "mode \<in> {Push, Recover_mode}"
      using assms(2-4) published(1)
      by (cases mode) (auto simp: qualify_state_def bindR_Inr fail_if_Inr)
    ultimately show ?thesis using i published(1) unfolding state_ok_def by blast
  qed
qed

lemma fresh_progression_Inr:
  assumes "require_fresh_progression sv de gh l v w = (Inr (), w')" and "l \<noteq> Main"
  shows "\<exists>published. require_advancement sv l v published = Inr ()"
  using assms by (auto simp: require_fresh_progression_def Let_def bindE_Inr liftE_Inr)

lemma qualify_release_Inr:
  assumes "qualify_release t at de os' root gh reg cx mode pull w = (Inr q, w')" and "mode \<noteq> Validate"
  shows "\<exists>v state. q = \<lparr>ql_qualified = True, ql_source = cx_source cx, ql_version = Some (rt_show t v),
      ql_registry_state = state, ql_validation_only = False\<rparr> \<and> v_build v = [] \<and> v_pre v \<noteq> ''rc.0'' \<and>
    state_ok t at cx mode v state \<and> advancement_ok t cx mode v"
proof -
  obtain v w1 w2 w3 state w4 w5 where
    v: "qualify_version t os' root pull w = (Inr v, w1)"
    and p: "(if mode \<in> {Release_mode, Publish} then require_fresh_progression (rt_semver t) de gh (cx_line cx) v
        else okE ()) w2 = (Inr (), w3)"
    and r: "qualify_registry t at reg cx v w4 = (Inr state, w5)" "qualify_state mode state = Inr ()"
      "\<not> (mode = Publish \<and> state \<noteq> ''absent'')"
    and q: "q = \<lparr>ql_qualified = True, ql_source = cx_source cx, ql_version = Some (rt_show t v),
      ql_registry_state = state, ql_validation_only = False\<rparr>"
    using assms(1)
    by (auto simp: qualify_release_def Let_def bindE_Inr liftE_Inr okE_Inr fail_ifE_Inr if_Inl_Inr)
  have "advancement_ok t cx mode v"
    using p unfolding advancement_ok_def by (auto split: if_splits dest: fresh_progression_Inr)
  with qualify_version_Inr [OF v] qualify_registry_Inr [OF r assms(2)] q show ?thesis by blast
qed


end
