(* ===== verification/Fixtures.thy ===== *)
theory Fixtures
  imports QualifySafety
begin

text \<open>
  A simulated GitHub and the example release the witnesses run: objects live under their paths, and the
  three mutations of the finalizer store what they were sent. The decoders are those of the payload
  type itself.
\<close>

section \<open>Payloads\<close>

datatype payload =
    P_pulls "PullRequest list"
  | P_commit Commit
  | P_signatures SignatureEnvelope
  | P_comparison Comparison
  | P_ref GitRef
  | P_workflow Workflow
  | P_run WorkflowRun
  | P_artifacts ArtifactInventory
  | P_installation InstallationRepositories
  | P_tag AnnotatedTag
  | P_release GitHubRelease
  | P_latest Latest
  | P_refs "GitRef list"

definition wrong :: "'a result" where
  "wrong = Inl ''unexpected payload''"

definition fixture_serde :: "payload serde" where
  "fixture_serde =
     \<lparr>de_pulls = (\<lambda>p. case p of P_pulls x \<Rightarrow> Inr x | _ \<Rightarrow> wrong),
      de_commit = (\<lambda>p. case p of P_commit x \<Rightarrow> Inr x | _ \<Rightarrow> wrong),
      de_signatures = (\<lambda>p. case p of P_signatures x \<Rightarrow> Inr x | _ \<Rightarrow> wrong),
      de_comparison = (\<lambda>p. case p of P_comparison x \<Rightarrow> Inr x | _ \<Rightarrow> wrong),
      de_ref = (\<lambda>p. case p of P_ref x \<Rightarrow> Inr x | _ \<Rightarrow> wrong),
      de_workflow = (\<lambda>p. case p of P_workflow x \<Rightarrow> Inr x | _ \<Rightarrow> wrong),
      de_run = (\<lambda>p. case p of P_run x \<Rightarrow> Inr x | _ \<Rightarrow> wrong),
      de_artifacts = (\<lambda>p. case p of P_artifacts x \<Rightarrow> Inr x | _ \<Rightarrow> wrong),
      de_installation = (\<lambda>p. case p of P_installation x \<Rightarrow> Inr x | _ \<Rightarrow> wrong),
      de_tag = (\<lambda>p. case p of P_tag x \<Rightarrow> Inr x | _ \<Rightarrow> wrong),
      de_release = (\<lambda>p. case p of P_release x \<Rightarrow> Inr x | _ \<Rightarrow> wrong),
      de_latest = (\<lambda>p. case p of P_latest x \<Rightarrow> Inr x | _ \<Rightarrow> wrong),
      de_refs = (\<lambda>p. case p of P_refs x \<Rightarrow> Inr x | _ \<Rightarrow> wrong),
      de_support_tag = (\<lambda>p. case p of P_tag x \<Rightarrow> Inr
          \<lparr>st_sha = at_sha x, st_tag = at_tag x, st_object = at_object x,
           st_tagger = \<lparr>ta_name = gs_name (at_tagger x), ta_email = gs_email (at_tagger x)\<rparr>\<rparr>
        | _ \<Rightarrow> wrong),
      de_support_ref = (\<lambda>p. case p of P_ref x \<Rightarrow> Inr x | _ \<Rightarrow> wrong),
      de_base_comparison = (\<lambda>p. case p of P_comparison x \<Rightarrow> Inr x | _ \<Rightarrow> wrong)\<rparr>"

section \<open>A simulated GitHub\<close>

type_synonym forge = "(string \<times> payload) list"

fun json_field :: "string \<Rightarrow> json \<Rightarrow> json" where
  "json_field k (JObj entries) = (case map_of entries k of None \<Rightarrow> JNull | Some v \<Rightarrow> v)"
| "json_field k _ = JNull"

fun json_text :: "json \<Rightarrow> string" where
  "json_text (JStr s) = s"
| "json_text _ = []"

definition field :: "string \<Rightarrow> json \<Rightarrow> string" where
  "field k j = json_text (json_field k j)"

definition forge_tag_sha :: string where
  "forge_tag_sha = replicate 40 (CHR ''b'')"

definition forge_tag :: "json \<Rightarrow> AnnotatedTag" where
  "forge_tag j =
     \<lparr>at_sha = forge_tag_sha, at_tag = field ''tag'' j, at_message = field ''message'' j,
      at_object = \<lparr>go_sha = field ''object'' j, go_kind = field ''type'' j\<rparr>,
      at_tagger = \<lparr>gs_name = field ''name'' (json_field ''tagger'' j),
        gs_email = field ''email'' (json_field ''tagger'' j),
        gs_date = field ''date'' (json_field ''tagger'' j)\<rparr>\<rparr>"

definition forge_ref :: "json \<Rightarrow> GitRef" where
  "forge_ref j = \<lparr>gr_name = field ''ref'' j, gr_object = \<lparr>go_sha = field ''sha'' j, go_kind = ''tag''\<rparr>\<rparr>"

definition forge_release :: "json \<Rightarrow> GitHubRelease" where
  "forge_release j =
     \<lparr>gh_id = 7, gh_tag_name = field ''tag_name'' j, gh_target_commitish = field ''target_commitish'' j,
      gh_name = field ''name'' j, gh_body = field ''body'' j, gh_draft = (json_field ''draft'' j = JBool True),
      gh_prerelease = (json_field ''prerelease'' j = JBool True), gh_immutable = True,
      gh_author = \<lparr>us_login = APP_LOGIN, us_id = APP_ID, us_kind = ''Bot''\<rparr>, gh_assets = []\<rparr>"

definition forge_post :: "string \<Rightarrow> json \<Rightarrow> forge \<Rightarrow> payload result \<times> forge" where
  "forge_post path j w =
     (if path = refs_path ''tags'' then
        (Inr (P_tag (forge_tag j)), (refs_path (''tags/'' @ forge_tag_sha), P_tag (forge_tag j)) # w)
      else if path = refs_path ''refs'' then
        (Inr (P_ref (forge_ref j)),
         (refs_path (''ref/'' @ drop 5 (field ''ref'' j)), P_ref (forge_ref j)) # w)
      else if path = releases_path then
        (Inr (P_release (forge_release j)),
         (releases_path @ ''/tags/'' @ field ''tag_name'' j, P_release (forge_release j))
         # (if field ''make_latest'' j = ''true''
            then [(latest_path, P_latest \<lparr>la_id = 7, la_tag_name = field ''tag_name'' j\<rparr>)] else [])
         @ w)
      else (Inl ''unknown mutation'', w))"

definition forge_github :: "(json \<Rightarrow> payload result) \<Rightarrow> (forge, payload) transport" where
  "forge_github graph =
     \<lparr>t_get = (\<lambda>path w. (ok_or (map_of w path) (''missing '' @ path), w)),
      t_get_optional = (\<lambda>path w. (Inr (map_of w path), w)),
      t_graphql = (\<lambda>j w. (graph j, w)),
      t_mutate = (\<lambda>verb path j w. forge_post path j w),
      t_invalid = (\<lambda>verb path e. e)\<rparr>"

section \<open>The example release\<close>

definition example_config :: toml_table where
  "example_config =
     [(''workspace'', TomlTable
        (map (\<lambda>k. (k, TomlBool False)) [''release'', ''release_always'', ''git_tag_enable'',
           ''git_release_enable'', ''publish_allow_dirty'', ''publish_no_verify'', ''semver_check'']
         @ [(''pr_branch_prefix'', TomlString BRANCH_PREFIX), (''git_release_type'', TomlString ''auto''),
            (''publish_timeout'', TomlString ''5m''), (''changelog_update'', TomlBool True)])),
      (''package'', TomlTables
        [[(''name'', TomlString ''yaml-sigil-traits''), (''release'', TomlBool True), (''publish'', TomlBool True),
          (''changelog_update'', TomlBool True), (''changelog_path'', TomlString ''CHANGELOG.md''),
          (''git_tag_enable'', TomlBool False), (''git_tag_name'', TomlString ''v{{ version }}''),
          (''git_release_enable'', TomlBool False), (''git_release_name'', TomlString ''v{{ version }}''),
          (''git_release_body'', TomlString ''{{ changelog }}''), (''git_release_type'', TomlString ''auto'')]])]"

definition example_package :: cargo_package where
  "example_package =
     \<lparr>cp_name = ''yaml-sigil-traits'', cp_version = release_version 0 6 0, cp_publish = None,
      cp_targets = [\<lparr>tg_is_bin = False, tg_is_custom_build = False, tg_is_lib = True\<rparr>]\<rparr>"

definition example_tools :: release_tools where
  "example_tools =
     \<lparr>rt_semver = semver_ref,
      rt_toml = (\<lambda>s. Inr (if s = ''config'' then example_config
        else [(''package'', TomlTable [(''version'', TomlString s)])])),
      rt_toml_set_version = (\<lambda>s v. v), rt_metadata = (\<lambda>s. Inr [example_package])\<rparr>"

definition example_changelog :: string where
  "example_changelog = ''## [0.6.0] - 2026-01-01'' @ nl @ nl @ ''- first'' @ nl @ ''## [0.5.0]'' @ nl"

definition example_os :: "'w os" where
  "example_os = scripted_os
     (script_of [([''cargo'', ''metadata'', ''--no-deps'', ''--format-version'', ''1''], ''{}'')]) (\<lambda>k. None) (\<lambda>p.
     if p = ''Cargo.toml'' then Some ''0.6.0'' else if p = RELEASE_CONFIG then Some ''config''
     else if p = ''CHANGELOG.md'' then Some example_changelog else None)"

definition forge_registry :: "'w registry" where
  "forge_registry =
     \<lparr>rg_exact_version = (\<lambda>p v. okE (Some
        \<lparr>rv_num = v, rv_yanked = False, rv_checksum = example_checksum\<rparr>)),
      rg_download = (\<lambda>p v. okE example_archive)\<rparr>"

definition example_context :: Context where
  "example_context =
     \<lparr>cx_line = Main, cx_binding = None, cx_source = example_commit, cx_event = ''push'',
      cx_sha = example_commit\<rparr>"

definition example_commit_object :: Commit where
  "example_commit_object =
     \<lparr>co_sha = example_commit, co_author = None, co_committer = None,
      co_commit = \<lparr>cb_message = ''release'' @ nl @ DCO_TRAILER,
        cb_author = \<lparr>gs_name = ''a'', gs_email = ''a@b'', gs_date = ''d''\<rparr>,
        cb_committer = \<lparr>gs_name = ''a'', gs_email = ''a@b'', gs_date = ''2026-01-01''\<rparr>,
        cb_tree = \<lparr>go_sha = replicate 40 (CHR ''c''), go_kind = ''tree''\<rparr>,
        cb_verification = \<lparr>vf_verified = True, vf_reason = ''valid''\<rparr>\<rparr>,
      co_parents = [\<lparr>go_sha = replicate 40 (CHR ''d''), go_kind = ''commit''\<rparr>],
      co_files = map (\<lambda>p. \<lparr>cf_filename = p, cf_status = ''modified'', cf_previous_filename = None\<rparr>)
        RELEASE_PATHS\<rparr>"

definition example_comparison :: Comparison where
  "example_comparison =
     \<lparr>cm_status = ''identical'', cm_base_commit = \<lparr>go_sha = example_commit, go_kind = ''commit''\<rparr>,
      cm_merge_base_commit = \<lparr>go_sha = example_commit, go_kind = ''commit''\<rparr>\<rparr>"

definition example_main :: GitRef where
  "example_main =
     \<lparr>gr_name = ''refs/heads/main'', gr_object = \<lparr>go_sha = example_commit, go_kind = ''commit''\<rparr>\<rparr>"

definition example_forge :: forge where
  "example_forge =
     [(main_ref_path, P_ref example_main),
      (compare_path example_commit example_commit @ ''?per_page=1&page=1'', P_comparison example_comparison),
      (compare_path example_commit example_commit, P_comparison example_comparison),
      (''installation/repositories?per_page=100'', P_installation
        \<lparr>ir_total_count = 1, ir_repositories = [\<lparr>rp_full_name = REPOSITORY\<rparr>]\<rparr>),
      (commit_path example_commit, P_commit example_commit_object)]"

abbreviation example_github :: "(forge, payload) transport" where
  "example_github \<equiv> forge_github (\<lambda>j. wrong)"

definition example_spec :: ReleaseSpec where
  "example_spec = release_spec example_tools example_context (release_version 0 6 0) (''- first'' @ nl) ''2026-01-01''"

text \<open>The forge after the tag phase and after the Release phase.\<close>

definition tagged_forge :: forge where
  "tagged_forge =
     (tag_ref_path example_spec, P_ref (forge_ref (ref_payload example_spec forge_tag_sha)))
     # (refs_path (''tags/'' @ forge_tag_sha), P_tag (forge_tag (tag_payload semver_ref example_spec)))
     # example_forge"

definition released_forge :: forge where
  "released_forge =
     (release_tag_path example_spec, P_release (forge_release
        (release_payload example_spec \<lparr>gu_before = None, gu_target = ''v0.6.0'', gu_advance = True\<rparr>)))
     # (latest_path, P_latest \<lparr>la_id = 7, la_tag_name = ''v0.6.0''\<rparr>) # tagged_forge"

lemma example_show: "ref_show (release_version 0 6 0) = ''0.6.0''"
  by code_simp

lemma example_source_version:
  "validate_source_version example_tools example_os root (release_version 0 6 0) w = (Inr (), w)"
proof -
  have "manifest_version example_tools example_os root w = (Inr (release_version 0 6 0), w)"
  proof -
    have "ref_parse ''0.6.0'' = Inr (release_version 0 6 0)" by code_simp
    then show ?thesis
      by (simp add: manifest_version_def example_tools_def example_os_def scripted_os_def bindE_apply
          map_errE_def toml_get_def validate_release_version_def)
  qed
  then show ?thesis
    by (simp add: validate_source_version_def validate_selected_release_version_def
        validate_release_version_def bindE_apply)
qed

lemma example_rebind: "context_rebind fixture_serde example_github example_context example_forge =
    (Inr (), example_forge)"
  by code_simp

lemma example_scope: "verify_app_scope fixture_serde example_github APP_SLUG example_forge =
    (Inr (), example_forge)"
  by code_simp

lemma example_valid_commit: "validate_commit example_commit_object example_commit True = Inr ()"
  by code_simp

lemma example_get_commit: "get example_github (de_commit fixture_serde) (commit_path example_commit) example_forge =
    (Inr example_commit_object, example_forge)"
  by code_simp

lemma example_body: "changelog_section example_changelog ''## [0.6.0]'' = Inr (''- first'' @ nl)"
  by code_simp

lemma example_published:
  "verify_published_source example_tools ref_tools forge_registry example_context (release_version 0 6 0) w
   = (Inr (), w)"
proof -
  have "require_archive ref_tools forge_registry TRAITS_PACKAGE ''0.6.0'' example_commit w =
      (Inr (example_checksum, example_archive, example_files), w)"
    using example_required
    by (simp add: require_archive_def forge_registry_def example_registry_def bindE_apply Let_def
        split: sum.splits if_splits)
  moreover have "archive_vcs_commit ref_tools example_archive TRAITS_PACKAGE ''0.6.0'' = Inr example_commit"
  proof -
    have "inspect_archive_entries_with_limit ref_tools example_archive TRAITS_PACKAGE ''0.6.0'' None
        MAX_CRATE_DECOMPRESSED_BYTES = Inr example_files"
      using example_inspection
      by (auto simp: inspect_archive_entries_def inspect_archive_entries_with_limit_def Let_def bindR_Inr
          split: if_splits option.splits)
    then show ?thesis by (simp add: archive_vcs_commit_def example_vcs)
  qed
  ultimately show ?thesis
    by (simp add: verify_published_source_def example_tools_def example_show example_context_def bindE_apply)
qed

lemma example_reconcile_tag:
  "reconcile_tag semver_ref fixture_serde example_github example_spec example_commit example_forge =
     (Inr forge_tag_sha, tagged_forge)"
  by code_simp

lemma example_reconcile_release:
  "reconcile_release semver_ref fixture_serde example_github example_spec forge_tag_sha example_commit tagged_forge =
     (Inr (), released_forge)"
  by code_simp

lemma example_finalize:
  "finalize example_tools ref_tools fixture_serde example_os root example_github forge_registry
     example_context (release_version 0 6 0) APP_SLUG example_forge = (Inr (), released_forge)"
proof -
  have body: "release_body semver_ref example_os root (release_version 0 6 0) w = (Inr (''- first'' @ nl), w)" for w :: forge
    using example_body
    by (simp add: release_body_def example_os_def scripted_os_def TRAITS_PACKAGE_def bindE_apply map_errE_def
        example_show RELEASE_CONFIG_def)
  have fields: "cx_source example_context = example_commit" "cx_sha example_context = example_commit"
    "rt_semver example_tools = semver_ref"
    "gs_date (cb_committer (co_commit example_commit_object)) = ''2026-01-01''"
    by (simp_all add: example_context_def example_tools_def example_commit_object_def)
  note spec = example_spec_def [symmetric, unfolded append_Cons append_Nil]
  show ?thesis
    unfolding finalize_def Let_def
    by (simp add: bindE_apply example_source_version example_rebind example_published example_scope
        example_get_commit example_valid_commit body fields spec)
      (simp add: example_reconcile_tag example_reconcile_release modifyE_def example_os_def scripted_os_def)
qed

section \<open>Witnesses\<close>


lemma example_guard:
  "guard_capture semver_ref fixture_serde example_github Main ''v0.6.0'' example_forge =
     (Inr \<lparr>gu_before = None, gu_target = ''v0.6.0'', gu_advance = True\<rparr>, example_forge)"
  "guard_verify semver_ref fixture_serde example_github
     \<lparr>gu_before = None, gu_target = ''v0.6.0'', gu_advance = True\<rparr> released_forge = (Inr (), released_forge)"
  by code_simp+

theorem latest_never_regresses_witness:
  "\<exists>before after. read_latest semver_ref fixture_serde example_github example_forge = (Inr before, example_forge) \<and>
     read_latest semver_ref fixture_serde example_github released_forge = (Inr after, released_forge)"
  using latest_never_regresses [OF example_guard] by blast

section \<open>An example qualification\<close>

definition example_head_sha :: string where
  "example_head_sha = replicate 40 (CHR ''e'')"

definition example_signer :: User where
  "example_signer = \<lparr>us_login = RELEASE_SIGNER_LOGIN, us_id = RELEASE_SIGNER_ID, us_kind = ''User''\<rparr>"

definition example_head_commit :: Commit where
  "example_head_commit =
     \<lparr>co_sha = example_head_sha, co_author = Some example_signer, co_committer = Some example_signer,
      co_commit = \<lparr>cb_message = ''release'' @ nl @ DCO_TRAILER,
        cb_author = \<lparr>gs_name = RELEASE_AUTHOR_NAME, gs_email = RELEASE_AUTHOR_EMAIL, gs_date = ''d''\<rparr>,
        cb_committer = \<lparr>gs_name = ''GitHub'', gs_email = RELEASE_AUTHOR_EMAIL, gs_date = ''d''\<rparr>,
        cb_tree = \<lparr>go_sha = replicate 40 (CHR ''c''), go_kind = ''tree''\<rparr>,
        cb_verification = \<lparr>vf_verified = True, vf_reason = ''valid''\<rparr>\<rparr>,
      co_parents = [\<lparr>go_sha = replicate 40 (CHR ''d''), go_kind = ''commit''\<rparr>],
      co_files = map (\<lambda>p. \<lparr>cf_filename = p, cf_status = ''modified'', cf_previous_filename = None\<rparr>)
        RELEASE_PATHS\<rparr>"

definition example_pull :: PullRequest where
  "example_pull =
     \<lparr>pr_number = 12, pr_state = ''closed'', pr_merged_at = Some ''2026-01-01'',
      pr_base = \<lparr>ps_reference = ''main'', ps_sha = replicate 40 (CHR ''d''), ps_repo = \<lparr>rp_full_name = REPOSITORY\<rparr>\<rparr>,
      pr_head = \<lparr>ps_reference = ''release-plz-manual-0.6.0'', ps_sha = example_head_sha,
        ps_repo = \<lparr>rp_full_name = REPOSITORY\<rparr>\<rparr>\<rparr>"

definition example_signature :: VerifiedSignature where
  "example_signature =
     \<lparr>vs_kind = ''SshSignature'', vs_email = Some RELEASE_AUTHOR_EMAIL, vs_is_valid = True, vs_state = ''VALID'',
      vs_was_signed_by_github = False,
      vs_signer = Some \<lparr>ss_database_id = Some RELEASE_SIGNER_ID, ss_login = RELEASE_SIGNER_LOGIN, ss_kind = ''User''\<rparr>\<rparr>"

definition example_envelope :: SignatureEnvelope where
  "example_envelope =
     \<lparr>se_data = \<lparr>sd_repository = Some \<lparr>sr_pull_request = Some
        \<lparr>sp_merge_commit = Some \<lparr>sm_oid = example_commit\<rparr>,
         sp_commits = \<lparr>sx_total_count = 1,
           sx_nodes = [\<lparr>sn_commit = \<lparr>sc_oid = example_head_sha, sc_signature = Some example_signature\<rparr>\<rparr>],
           sx_page_info = \<lparr>si_has_next_page = False\<rparr>\<rparr>\<rparr>\<rparr>\<rparr>,
      se_errors = None\<rparr>"

definition signed_github :: "(forge, payload) transport" where
  "signed_github = forge_github (\<lambda>j. if j = signature_request 12 then Inr (P_signatures example_envelope) else wrong)"

definition pull_forge :: forge where
  "pull_forge =
     (commit_path example_commit @ ''/pulls?per_page=100&page=1'', P_pulls [example_pull])
     # (commit_path example_head_sha, P_commit example_head_commit) # example_forge"

definition unpublished :: "'w registry" where
  "unpublished = \<lparr>rg_exact_version = (\<lambda>p v. okE None), rg_download = (\<lambda>p v. failE ''not found'')\<rparr>"

lemma example_qualify:
  "qualify example_tools ref_tools fixture_serde example_os ''/repo'' signed_github unpublished example_context
     Push None None pull_forge =
   (Inr \<lparr>ql_qualified = True, ql_source = example_commit, ql_version = Some ''0.6.0'',
      ql_registry_state = ''absent'', ql_validation_only = False\<rparr>, pull_forge)"
  by code_simp


end
