(* ===== verification/WindowsProcess.thy ===== *)
theory WindowsProcess
  imports BoundedProcess
begin

text \<open>
  Bounded subprocess-tree execution, \<open>xtask/src/bounded_process.rs\<close> on Windows. The child is created
  suspended, assigned to a job object that kills its processes when its last handle is closed, and only
  then resumed. Worker threads read the two outputs and write the input; the supervising thread learns
  of them through a channel. The system calls are the fields of a record, and what the channel delivers
  when is the machine's choice, so every interleaving of the workers is one of its behaviours.
\<close>

section \<open>Workers\<close>

record bounded_pipe =
  bp_bytes :: bytes
  bp_exceeded :: bool

text \<open>The reader's \<open>take(n).read_to_end\<close> is a parameter.\<close>

definition read_bounded_pipe ::
  "(nat \<Rightarrow> ('v, io_error, bytes) eff) \<Rightarrow> nat \<Rightarrow> ('v, io_error, bounded_pipe) eff" where
  "read_bounded_pipe read_up_to limit =
     bindE (liftE (ok_or (usize_add limit 1)
       \<lparr>ie_kind = IO_InvalidInput, ie_text = ''invalid output limit''\<rparr>)) (\<lambda>sentinel.
     bindE (read_up_to sentinel) (\<lambda>bytes.
     okE \<lparr>bp_bytes = bytes, bp_exceeded = limit < length bytes\<rparr>))"

datatype worker_message =
    CaptureMessage stream "io_error + bounded_pipe"
  | InputMessage "io_error + unit"

text \<open>The bodies of the threads: what each sends once it has finished.\<close>

definition reader_body ::
  "(nat \<Rightarrow> ('v, io_error, bytes) eff) \<Rightarrow> stream \<Rightarrow> nat \<Rightarrow> 'v \<Rightarrow> worker_message \<times> 'v" where
  "reader_body read_up_to s limit v =
     (case read_bounded_pipe read_up_to limit v of (r, v') \<Rightarrow> (CaptureMessage s r, v'))"

definition writer_body ::
  "(bytes \<Rightarrow> ('v, io_error, unit) eff) \<Rightarrow> ('v, io_error, unit) eff \<Rightarrow> bytes \<Rightarrow> 'v \<Rightarrow> worker_message \<times> 'v" where
  "writer_body write_all flush input v =
     (case bindE (write_all input) (\<lambda>_. flush) v of (r, v') \<Rightarrow> (InputMessage r, v'))"

datatype worker = Reader stream | Writer

datatype received = Message worker_message | Timeout | Disconnected

section \<open>The kernel\<close>

text \<open>
  The calls on the one job, child and channel of a call. \<open>wk_spawn\<close> creates the process suspended, with
  both outputs piped and the input piped or null, and gives its ID. \<open>wk_snapshot\<close> is the snapshot of
  all threads, each with its owner's process ID, as \<open>Thread32First\<close> and \<open>Thread32Next\<close> list it;
  \<open>wk_resume_thread\<close> gives the previous suspend count, or the error when that is \<open>u32::MAX\<close>.
  \<open>wk_start_reader\<close> and \<open>wk_start_writer\<close> start the threads with the bodies above, \<open>wk_recv\<close> is
  \<open>recv_timeout\<close>, and \<open>wk_join\<close> fails when the thread panicked.
\<close>

record 'w windows_kernel =
  wk_create_job :: "('w, io_error, unit) eff"
  wk_configure_job :: "u32 \<Rightarrow> ('w, io_error, unit) eff"
  wk_assign :: "('w, io_error, unit) eff"
  wk_terminate_job :: "('w, io_error, unit) eff"
  wk_close_job :: "'w \<Rightarrow> 'w"
  wk_spawn :: "command \<Rightarrow> bool \<Rightarrow> ('w, io_error, u32) eff"
  wk_snapshot :: "('w, io_error, (u32 \<times> u32) list) eff"
  wk_open_thread :: "u32 \<Rightarrow> ('w, io_error, unit) eff"
  wk_resume_thread :: "u32 \<Rightarrow> ('w, io_error, u32) eff"
  wk_try_wait :: "('w, io_error, exit_status option) eff"
  wk_wait :: "('w, io_error, exit_status) eff"
  wk_kill_child :: "('w, io_error, unit) eff"
  wk_start_reader :: "stream \<Rightarrow> nat \<Rightarrow> 'w \<Rightarrow> 'w"
  wk_start_writer :: "bytes \<Rightarrow> 'w \<Rightarrow> 'w"
  wk_recv :: "nat \<Rightarrow> 'w \<Rightarrow> received \<times> 'w"
  wk_cancel :: "worker \<Rightarrow> 'w \<Rightarrow> 'w"
  wk_join :: "worker \<Rightarrow> ('w, unit, unit) eff"
  wk_now :: "'w \<Rightarrow> nat \<times> 'w"
  wk_sleep :: "nat \<Rightarrow> 'w \<Rightarrow> 'w"

section \<open>The job\<close>

definition JOB_OBJECT_LIMIT_KILL_ON_JOB_CLOSE :: u32 where
  "JOB_OBJECT_LIMIT_KILL_ON_JOB_CLOSE = 0x2000"

definition JOB_OBJECT_LIMIT_BREAKAWAY_OK :: u32 where
  "JOB_OBJECT_LIMIT_BREAKAWAY_OK = 0x800"

definition JOB_OBJECT_LIMIT_SILENT_BREAKAWAY_OK :: u32 where
  "JOB_OBJECT_LIMIT_SILENT_BREAKAWAY_OK = 0x1000"

text \<open>When a step after the creation fails, the handle is dropped.\<close>

definition job_create :: "'w windows_kernel \<Rightarrow> ('w, io_error, unit) eff" where
  "job_create k =
     bindE (wk_create_job k) (\<lambda>_.
     let limit_flags = JOB_OBJECT_LIMIT_KILL_ON_JOB_CLOSE
     in on_errorE
          (bindE (fail_ifE
             (and limit_flags (or JOB_OBJECT_LIMIT_BREAKAWAY_OK JOB_OBJECT_LIMIT_SILENT_BREAKAWAY_OK) \<noteq> 0)
             (io_other ''bounded job object unexpectedly permits process breakaway'')) (\<lambda>_.
           wk_configure_job k limit_flags))
          (wk_close_job k))"

section \<open>Resuming the child\<close>

primrec resume_first :: "'w windows_kernel \<Rightarrow> u32 \<Rightarrow> (u32 \<times> u32) list \<Rightarrow> ('w, io_error, unit) eff" where
  "resume_first k pid [] = failE (io_other ''could not locate the suspended child primary thread'')"
| "resume_first k pid (entry # entries) =
     (let (owner, thread_id) = entry in
      if owner = pid then
        bindE (wk_open_thread k thread_id) (\<lambda>_.
        bindE (wk_resume_thread k thread_id) (\<lambda>previous.
        fail_ifE (previous \<noteq> 1) (io_other (''suspended child thread had unsupported suspend count ''
          @ show_nat (unat previous)))))
      else resume_first k pid entries)"

definition resume_primary_thread :: "'w windows_kernel \<Rightarrow> u32 \<Rightarrow> ('w, io_error, unit) eff" where
  "resume_primary_thread k pid = bindE (wk_snapshot k) (resume_first k pid)"

section \<open>Waiting\<close>

definition join_worker :: "'w windows_kernel \<Rightarrow> worker option \<Rightarrow> string \<Rightarrow> ('w, io_error, unit) eff" where
  "join_worker k worker label = (case worker of
     None \<Rightarrow> okE ()
   | Some t \<Rightarrow> map_errE (\<lambda>_. io_other (label @ '' worker thread panicked'')) (wk_join k t))"

definition windows_reap_turn ::
  "'w windows_kernel \<Rightarrow> nat \<Rightarrow> unit \<Rightarrow> ('w, io_error, unit + exit_status) eff" where
  "windows_reap_turn k deadline u =
     bindE (wk_try_wait k) (\<lambda>answer. case answer of
       Some status \<Rightarrow> okE (Inr status)
     | None \<Rightarrow> bindE (answerE (wk_now k)) (\<lambda>now.
         if deadline \<le> now then failE \<lparr>ie_kind = IO_TimedOut,
           ie_text = ''direct child did not exit before the post-cancellation deadline''\<rparr>
         else bindE (modifyE (wk_sleep k POLL_INTERVAL)) (\<lambda>_. okE (Inl ()))))"

definition windows_reap_until :: "'w windows_kernel \<Rightarrow> nat \<Rightarrow> ('w, io_error, exit_status) run" where
  "windows_reap_until k deadline = loopP (windows_reap_turn k deadline) ()"

section \<open>Captures\<close>

record captures =
  wc_stdout :: "bytes option"
  wc_stderr :: "bytes option"
  wc_stdout_finished :: bool
  wc_stderr_finished :: bool
  wc_input_finished :: bool

definition captures_finished :: "captures \<Rightarrow> bool \<Rightarrow> bool" where
  "captures_finished c input_expected \<longleftrightarrow>
     wc_stdout_finished c \<and> wc_stderr_finished c \<and> (\<not> input_expected \<or> wc_input_finished c)"

fun stream_finished :: "stream \<Rightarrow> captures \<Rightarrow> captures" where
  "stream_finished Stdout c = c\<lparr>wc_stdout_finished := True\<rparr>"
| "stream_finished Stderr c = c\<lparr>wc_stderr_finished := True\<rparr>"

fun stream_captured :: "stream \<Rightarrow> bytes \<Rightarrow> captures \<Rightarrow> captures" where
  "stream_captured Stdout bytes c = c\<lparr>wc_stdout_finished := True, wc_stdout := Some bytes\<rparr>"
| "stream_captured Stderr bytes c = c\<lparr>wc_stderr_finished := True, wc_stderr := Some bytes\<rparr>"

fun record_message ::
  "worker_message \<Rightarrow> output_limits \<Rightarrow> string \<Rightarrow> captures \<Rightarrow> io_error option \<times> captures" where
  "record_message (CaptureMessage s (Inr p)) limits program c =
     (if bp_exceeded p then Some \<lparr>ie_kind = IO_InvalidData, ie_text = program @ '' '' @ stream_label s
        @ '' exceeded its '' @ show_nat (stream_limit s limits) @ ''-byte limit''\<rparr> else None,
      stream_captured s (bp_bytes p) c)"
| "record_message (CaptureMessage s (Inl e)) limits program c =
     (Some (e\<lparr>ie_text := ''read '' @ stream_label s @ '': '' @ ie_text e\<rparr>), stream_finished s c)"
| "record_message (InputMessage (Inr _)) limits program c = (None, c\<lparr>wc_input_finished := True\<rparr>)"
| "record_message (InputMessage (Inl e)) limits program c =
     (if ie_kind e = IO_BrokenPipe then None
      else Some (e\<lparr>ie_text := ''write subprocess stdin: '' @ ie_text e\<rparr>),
      c\<lparr>wc_input_finished := True\<rparr>)"

definition receive_turn ::
  "'w windows_kernel \<Rightarrow> output_limits \<Rightarrow> string \<Rightarrow> bool \<Rightarrow> nat \<Rightarrow> captures \<Rightarrow>
   ('w, io_error, captures + captures) eff" where
  "receive_turn k limits program input_expected deadline c =
     (if captures_finished c input_expected then okE (Inr c)
      else bindE (answerE (wk_now k)) (\<lambda>now.
        if deadline \<le> now then okE (Inr c)
        else bindE (answerE (wk_now k)) (\<lambda>later.
          bindE (answerE (wk_recv k (min (deadline - later) POLL_INTERVAL))) (\<lambda>r. case r of
            Message message \<Rightarrow> okE (Inl (snd (record_message message limits program c)))
          | Timeout \<Rightarrow> okE (Inl c)
          | Disconnected \<Rightarrow> okE (Inr c)))))"

definition receive_until ::
  "'w windows_kernel \<Rightarrow> output_limits \<Rightarrow> string \<Rightarrow> bool \<Rightarrow> nat \<Rightarrow> captures \<Rightarrow> ('w, io_error, captures) run" where
  "receive_until k limits program input_expected deadline =
     loopP (receive_turn k limits program input_expected deadline)"

definition windows_cleanup_error ::
  "io_error \<Rightarrow> io_error + exit_status \<Rightarrow> bool \<Rightarrow> io_error + unit \<Rightarrow> io_error" where
  "windows_cleanup_error primary cleanup workers_finished joined =
     io_other (join ''; '' ([ie_text primary] @
       (case cleanup of Inl e \<Rightarrow> [''cleanup failed: '' @ ie_text e] | Inr _ \<Rightarrow> []) @
       (if workers_finished then [] else [''I/O workers did not cancel before the hard deadline'']) @
       (case joined of Inl e \<Rightarrow> [''worker cleanup failed: '' @ ie_text e] | Inr _ \<Rightarrow> [])))"

section \<open>Supervision\<close>

text \<open>The variables of the supervision loop.\<close>

record watch =
  wa_captures :: captures
  wa_status :: "exit_status option"
  wa_exit :: "nat option"
  wa_failure :: "io_error option"

text \<open>The first failure is kept.\<close>

definition note_failure :: "io_error option \<Rightarrow> watch \<Rightarrow> watch" where
  "note_failure e st = (if wa_failure st = None then st\<lparr>wa_failure := e\<rparr> else st)"

definition receive_step ::
  "output_limits \<Rightarrow> string \<Rightarrow> bool \<Rightarrow> received \<Rightarrow> watch \<Rightarrow> watch" where
  "receive_step limits program input_expected r st = (case r of
     Message message \<Rightarrow>
       let (failure, c) = record_message message limits program (wa_captures st)
       in note_failure failure (st\<lparr>wa_captures := c\<rparr>)
   | Timeout \<Rightarrow> st
   | Disconnected \<Rightarrow>
       if captures_finished (wa_captures st) input_expected then st
       else note_failure (Some (io_other ''subprocess I/O workers stopped before reporting'')) st)"

text \<open>What the loop decides after a poll: \<open>Inr\<close> breaks.\<close>

definition watch_decide ::
  "'w windows_kernel \<Rightarrow> string \<Rightarrow> bool \<Rightarrow> watch \<Rightarrow> ('w, 'e, watch + watch) eff" where
  "watch_decide k program input_expected st =
     (if wa_failure st \<noteq> None then okE (Inr st)
      else if wa_status st \<noteq> None \<and> captures_finished (wa_captures st) input_expected then okE (Inr st)
      else case wa_exit st of
        None \<Rightarrow> okE (Inl st)
      | Some started \<Rightarrow> bindE (answerE (wk_now k)) (\<lambda>now.
          if PIPE_CLOSE_GRACE \<le> now - started
          then okE (Inr (st\<lparr>wa_failure := Some \<lparr>ie_kind = IO_TimedOut, ie_text = program
            @ '' descendants retained output pipes after the direct child exited''\<rparr>\<rparr>))
          else okE (Inl st)))"

definition watch_turn ::
  "'w windows_kernel \<Rightarrow> ('w, io_error, exit_status option) eff \<Rightarrow> string \<Rightarrow> output_limits \<Rightarrow> bool \<Rightarrow>
   watch \<Rightarrow> ('w, io_error, watch + watch) eff" where
  "watch_turn k poll program limits input_expected st =
     bindE (answerE (wk_recv k POLL_INTERVAL)) (\<lambda>r.
     let st1 = receive_step limits program input_expected r st
     in if wa_status st1 \<noteq> None then watch_decide k program input_expected st1
        else bindE (attemptE (status_poll program poll)) (\<lambda>answer. case answer of
          Inl error \<Rightarrow> okE (Inr (st1\<lparr>wa_failure := Some error\<rparr>))
        | Inr None \<Rightarrow> watch_decide k program input_expected st1
        | Inr (Some reaped) \<Rightarrow> bindE (answerE (wk_now k)) (\<lambda>now.
            watch_decide k program input_expected
              (st1\<lparr>wa_status := Some reaped, wa_exit := Some now\<rparr>))))"

definition watch_start :: "bool \<Rightarrow> watch" where
  "watch_start input_expected =
     \<lparr>wa_captures = \<lparr>wc_stdout = None, wc_stderr = None, wc_stdout_finished = False,
        wc_stderr_finished = False, wc_input_finished = \<not> input_expected\<rparr>,
      wa_status = None, wa_exit = None, wa_failure = None\<rparr>"

section \<open>The end of a call\<close>

text \<open>Joining one more worker on the failure path: only a finished one, and the first error is kept.\<close>

definition join_next ::
  "'w windows_kernel \<Rightarrow> bool \<Rightarrow> worker option \<Rightarrow> string \<Rightarrow> io_error + unit \<Rightarrow> ('w, 'e, io_error + unit) eff" where
  "join_next k done_with worker label joined =
     (if done_with then bindE (attemptE (join_worker k worker label)) (\<lambda>r.
        okE (if is_ok joined then r else joined))
      else okE joined)"

definition windows_fail ::
  "'w windows_kernel \<Rightarrow> output_limits \<Rightarrow> string \<Rightarrow> bool \<Rightarrow> watch \<Rightarrow> io_error \<Rightarrow> ('w, io_error, 'a) run" where
  "windows_fail k limits program input_expected st error =
     (let c = wa_captures st; writer = (if input_expected then Some Writer else None) in
      bindP (runE (ignoreE (wk_terminate_job k))) (\<lambda>_.
      bindP (runE (modifyE (if wc_stdout_finished c then id else wk_cancel k (Reader Stdout)))) (\<lambda>_.
      bindP (runE (modifyE (if wc_stderr_finished c then id else wk_cancel k (Reader Stderr)))) (\<lambda>_.
      bindP (runE (modifyE (if input_expected \<and> \<not> wc_input_finished c then wk_cancel k Writer else id))) (\<lambda>_.
      bindP (runE (modifyE (wk_close_job k))) (\<lambda>_.
      bindP (runE (if wa_status st = None then ignoreE (wk_kill_child k) else okE ())) (\<lambda>_.
      bindP (runE (answerE (wk_now k))) (\<lambda>now.
      let deadline = now + POST_CANCEL_TIMEOUT in
      bindP (attemptP (case wa_status st of
          Some reaped \<Rightarrow> runE (okE reaped)
        | None \<Rightarrow> windows_reap_until k deadline)) (\<lambda>cleanup.
      bindP (receive_until k limits program input_expected deadline c) (\<lambda>c'.
      bindP (runE (join_next k (wc_stdout_finished c') (Some (Reader Stdout)) ''stdout'' (Inr ()))) (\<lambda>j1.
      bindP (runE (join_next k (wc_stderr_finished c') (Some (Reader Stderr)) ''stderr'' j1)) (\<lambda>j2.
      bindP (runE (join_next k (wc_input_finished c') writer ''stdin'' j2)) (\<lambda>j3.
      runE (failE (windows_cleanup_error error cleanup (captures_finished c' input_expected) j3)))))))))))))))"

definition windows_succeed ::
  "'w windows_kernel \<Rightarrow> bool \<Rightarrow> watch \<Rightarrow> ('w, io_error, process_output) eff" where
  "windows_succeed k input_expected st =
     bindE (modifyE (wk_close_job k)) (\<lambda>_.
     bindE (join_worker k (Some (Reader Stdout)) ''stdout'') (\<lambda>_.
     bindE (join_worker k (Some (Reader Stderr)) ''stderr'') (\<lambda>_.
     bindE (join_worker k (if input_expected then Some Writer else None) ''stdin'') (\<lambda>_.
     bindE (liftE (ok_or (wa_status st) (io_other ''direct child was not reaped''))) (\<lambda>status.
     bindE (liftE (ok_or (wc_stdout (wa_captures st))
       (io_other ''stdout worker returned no bytes''))) (\<lambda>out.
     bindE (liftE (ok_or (wc_stderr (wa_captures st))
       (io_other ''stderr worker returned no bytes''))) (\<lambda>err.
     okE \<lparr>out_success = fst status, out_status = snd status, out_stdout = out, out_stderr = err\<rparr>)))))))"

definition windows_conclude ::
  "'w windows_kernel \<Rightarrow> output_limits \<Rightarrow> string \<Rightarrow> bool \<Rightarrow> watch \<Rightarrow> ('w, io_error, process_output) run" where
  "windows_conclude k limits program input_expected st = (case wa_failure st of
     Some error \<Rightarrow> windows_fail k limits program input_expected st error
   | None \<Rightarrow> runE (windows_succeed k input_expected st))"

section \<open>One child\<close>

text \<open>The child could not be assigned to the job: it never ran, and is killed and reaped.\<close>

definition windows_unassigned :: "'w windows_kernel \<Rightarrow> io_error \<Rightarrow> ('w, io_error, 'a) eff" where
  "windows_unassigned k error =
     bindE (ignoreE (wk_kill_child k)) (\<lambda>_.
     bindE (attemptE (wk_wait k)) (\<lambda>cleanup.
     bindE (modifyE (wk_close_job k)) (\<lambda>_.
     failE (case cleanup of
         Inr _ \<Rightarrow> error
       | Inl e \<Rightarrow> io_other (ie_text error @ ''; cleanup failed: '' @ ie_text e)))))"

definition windows_unresumed ::
  "'w windows_kernel \<Rightarrow> bool \<Rightarrow> io_error \<Rightarrow> ('w, io_error, 'a) run" where
  "windows_unresumed k input_expected error =
     bindP (runE (ignoreE (wk_terminate_job k))) (\<lambda>_.
     bindP (runE (modifyE (wk_cancel k (Reader Stdout)))) (\<lambda>_.
     bindP (runE (modifyE (wk_cancel k (Reader Stderr)))) (\<lambda>_.
     bindP (runE (modifyE (if input_expected then wk_cancel k Writer else id))) (\<lambda>_.
     bindP (runE (modifyE (wk_close_job k))) (\<lambda>_.
     bindP (runE (ignoreE (wk_kill_child k))) (\<lambda>_.
     bindP (runE (answerE (wk_now k))) (\<lambda>now.
     bindP (attemptP (windows_reap_until k (now + POST_CANCEL_TIMEOUT))) (\<lambda>cleanup.
     runE (failE (windows_cleanup_error error cleanup False (Inr ())))))))))))"

definition start_workers ::
  "'w windows_kernel \<Rightarrow> output_limits \<Rightarrow> bytes option \<Rightarrow> 'w \<Rightarrow> 'w" where
  "start_workers k limits input w =
     (let w1 = wk_start_reader k Stdout (ol_stdout limits) w;
          w2 = wk_start_reader k Stderr (ol_stderr limits) w1
      in case input of None \<Rightarrow> w2 | Some bytes \<Rightarrow> wk_start_writer k bytes w2)"

definition windows_supervised ::
  "'w windows_kernel \<Rightarrow> ('w, io_error, exit_status option) eff \<Rightarrow> string \<Rightarrow> output_limits \<Rightarrow> bool \<Rightarrow>
   ('w, io_error, process_output) run" where
  "windows_supervised k poll program limits input_expected =
     bindP (loopP (watch_turn k poll program limits input_expected) (watch_start input_expected))
       (windows_conclude k limits program input_expected)"

text \<open>
  As on Unix, the handles of the child's pipes are there exactly when the stream is piped. A job
  that was created is dropped when spawning fails.
\<close>

definition windows_output_with_status_poll ::
  "'w windows_kernel \<Rightarrow> command \<Rightarrow> output_limits \<Rightarrow> bytes option \<Rightarrow>
   ('w, io_error, exit_status option) eff \<Rightarrow> ('w, io_error, process_output) run" where
  "windows_output_with_status_poll k command limits input poll =
     bindP (runE (job_create k)) (\<lambda>_.
     bindP (runE (on_errorE (wk_spawn k command (input \<noteq> None)) (wk_close_job k))) (\<lambda>pid.
     bindP (runE (attemptE (wk_assign k))) (\<lambda>assigned. case assigned of
       Inl error \<Rightarrow> runE (windows_unassigned k error)
     | Inr _ \<Rightarrow>
         bindP (runE (modifyE (start_workers k limits input))) (\<lambda>_.
         bindP (runE (attemptE (resume_primary_thread k pid))) (\<lambda>resumed. case resumed of
           Inl error \<Rightarrow> windows_unresumed k (input \<noteq> None) error
         | Inr _ \<Rightarrow> windows_supervised k poll (cm_program command) limits (input \<noteq> None))))))"

definition windows_bounded_output ::
  "'w windows_kernel \<Rightarrow> command \<Rightarrow> bytes option \<Rightarrow> output_limits \<Rightarrow> ('w, io_error, process_output) run" where
  "windows_bounded_output k command input limits =
     bindP (runE (liftE (validate_limits limits input))) (\<lambda>_.
     windows_output_with_status_poll k command limits input (wk_try_wait k))"

end
