(* ===== verification/WindowsSafety.thy ===== *)
theory WindowsSafety
  imports WindowsProcess
begin

text \<open>
  What a bounded subprocess call guarantees on Windows, for every interleaving of its workers: the
  child runs only inside a job that ends its processes, the job is closed on every path, and a success
  gives what the readers reported. The events of a call are recorded newest first.
\<close>

section \<open>Events\<close>

datatype windows_event =
    JobCreated
  | JobConfigured u32
  | ChildSpawned
  | ChildAssigned
  | ThreadResumed
  | JobClosed
  | Delivered worker_message
  | ChildExited exit_status

definition on_exit :: "'e + exit_status option \<Rightarrow> windows_event list" where
  "on_exit = on_ok (\<lambda>answer. case answer of None \<Rightarrow> [] | Some status \<Rightarrow> [ChildExited status])"

definition on_delivery :: "received \<Rightarrow> windows_event list" where
  "on_delivery r = (case r of Message m \<Rightarrow> [Delivered m] | _ \<Rightarrow> [])"

text \<open>Resuming a thread is recorded whatever it answers.\<close>

definition logged_windows :: "'w windows_kernel \<Rightarrow> ('w \<times> windows_event list) windows_kernel" where
  "logged_windows k =
     \<lparr>wk_create_job = logging (wk_create_job k) (on_ok (\<lambda>_. [JobCreated])),
      wk_configure_job = (\<lambda>flags. logging (wk_configure_job k flags) (on_ok (\<lambda>_. [JobConfigured flags]))),
      wk_assign = logging (wk_assign k) (on_ok (\<lambda>_. [ChildAssigned])),
      wk_terminate_job = beside (wk_terminate_job k),
      wk_close_job = (\<lambda>(w, l). (wk_close_job k w, JobClosed # l)),
      wk_spawn = (\<lambda>c piped. logging (wk_spawn k c piped) (on_ok (\<lambda>_. [ChildSpawned]))),
      wk_snapshot = beside (wk_snapshot k), wk_open_thread = (\<lambda>t. beside (wk_open_thread k t)),
      wk_resume_thread = (\<lambda>t. logging (wk_resume_thread k t) (\<lambda>_. [ThreadResumed])),
      wk_try_wait = logging (wk_try_wait k) on_exit,
      wk_wait = logging (wk_wait k) (on_ok (\<lambda>status. [ChildExited status])),
      wk_kill_child = beside (wk_kill_child k),
      wk_start_reader = (\<lambda>s limit (w, l). (wk_start_reader k s limit w, l)),
      wk_start_writer = (\<lambda>bytes (w, l). (wk_start_writer k bytes w, l)),
      wk_recv = (\<lambda>t (w, l). case wk_recv k t w of (r, w') \<Rightarrow> (r, (w', on_delivery r @ l))),
      wk_cancel = (\<lambda>t (w, l). (wk_cancel k t w, l)), wk_join = (\<lambda>t. beside (wk_join k t)),
      wk_now = (\<lambda>(w, l). case wk_now k w of (t, w') \<Rightarrow> (t, (w', l))),
      wk_sleep = (\<lambda>d (w, l). (wk_sleep k d w, l))\<rparr>"

lemma logged_windows_ops [simp]:
  "wk_create_job (logged_windows k) = logging (wk_create_job k) (on_ok (\<lambda>_. [JobCreated]))"
  "wk_configure_job (logged_windows k) f = logging (wk_configure_job k f) (on_ok (\<lambda>_. [JobConfigured f]))"
  "wk_assign (logged_windows k) = logging (wk_assign k) (on_ok (\<lambda>_. [ChildAssigned]))"
  "wk_terminate_job (logged_windows k) = beside (wk_terminate_job k)"
  "wk_close_job (logged_windows k) (w, l) = (wk_close_job k w, JobClosed # l)"
  "wk_spawn (logged_windows k) c p = logging (wk_spawn k c p) (on_ok (\<lambda>_. [ChildSpawned]))"
  "wk_snapshot (logged_windows k) = beside (wk_snapshot k)"
  "wk_open_thread (logged_windows k) t = beside (wk_open_thread k t)"
  "wk_resume_thread (logged_windows k) t = logging (wk_resume_thread k t) (\<lambda>_. [ThreadResumed])"
  "wk_try_wait (logged_windows k) = logging (wk_try_wait k) on_exit"
  "wk_wait (logged_windows k) = logging (wk_wait k) (on_ok (\<lambda>status. [ChildExited status]))"
  "wk_kill_child (logged_windows k) = beside (wk_kill_child k)"
  "wk_start_reader (logged_windows k) s n (w, l) = (wk_start_reader k s n w, l)"
  "wk_start_writer (logged_windows k) b (w, l) = (wk_start_writer k b w, l)"
  "wk_recv (logged_windows k) n (w, l) =
     (case wk_recv k n w of (r, w') \<Rightarrow> (r, (w', on_delivery r @ l)))"
  "wk_cancel (logged_windows k) v (w, l) = (wk_cancel k v w, l)"
  "wk_join (logged_windows k) v = beside (wk_join k v)"
  "wk_now (logged_windows k) (w, l) = (case wk_now k w of (t', w') \<Rightarrow> (t', (w', l)))"
  "wk_sleep (logged_windows k) n (w, l) = (wk_sleep k n w, l)"
  by (simp_all add: logged_windows_def)

text \<open>
  The life of the job, as a state machine over the events. A job counts as configured when closing it
  kills its processes and no process may break away.
\<close>

datatype job_state = NoJob | Created | Configured | Suspended | Contained | Running | Closed | Broken

fun job_step :: "windows_event \<Rightarrow> job_state \<Rightarrow> job_state" where
  "job_step JobCreated NoJob = Created"
| "job_step (JobConfigured flags) Created =
     (if and flags JOB_OBJECT_LIMIT_KILL_ON_JOB_CLOSE \<noteq> 0 \<and>
        and flags (or JOB_OBJECT_LIMIT_BREAKAWAY_OK JOB_OBJECT_LIMIT_SILENT_BREAKAWAY_OK) = 0
      then Configured else Broken)"
| "job_step ChildSpawned Configured = Suspended"
| "job_step ChildAssigned Suspended = Contained"
| "job_step ThreadResumed Contained = Running"
| "job_step JobClosed p = (if p \<in> {Created, Configured, Suspended, Contained, Running} then Closed else Broken)"
| "job_step (Delivered _) p = p"
| "job_step (ChildExited _) p = p"
| "job_step _ _ = Broken"

primrec job_phase :: "windows_event list \<Rightarrow> job_state" where
  "job_phase [] = NoJob"
| "job_phase (e # l) = job_step e (job_phase l)"

text \<open>What the workers reported.\<close>

fun harmless :: "windows_event \<Rightarrow> bool" where
  "harmless (Delivered (CaptureMessage s (Inr p))) = (\<not> bp_exceeded p)"
| "harmless (Delivered (CaptureMessage s (Inl e))) = False"
| "harmless (Delivered (InputMessage (Inl e))) = (ie_kind e = IO_BrokenPipe)"
| "harmless _ = True"

definition reported :: "stream \<Rightarrow> bytes \<Rightarrow> windows_event list \<Rightarrow> bool" where
  "reported s bytes l \<longleftrightarrow> (\<exists>p. Delivered (CaptureMessage s (Inr p)) \<in> set l \<and> bp_bytes p = bytes)"

definition windows_exact :: "process_output \<Rightarrow> windows_event list \<Rightarrow> bool" where
  "windows_exact out l \<longleftrightarrow>
     ThreadResumed \<in> set l \<and> ChildExited (out_success out, out_status out) \<in> set l \<and>
     list_all harmless l \<and> reported Stdout (out_stdout out) l \<and> reported Stderr (out_stderr out) l"

lemma job_phase_append:
  "(\<And>e. e \<in> set d \<Longrightarrow> job_step e (job_phase l) = job_phase l) \<Longrightarrow> job_phase (d @ l) = job_phase l"
  by (induction d) auto

lemma quiet_phases [simp]:
  "job_phase (on_exit r @ l) = job_phase l"
  "job_phase (on_delivery v @ l) = job_phase l"
  by (auto simp: on_exit_def on_ok_def on_delivery_def split: sum.split option.split received.split)

section \<open>The supervision loop\<close>

definition watches :: "watch \<Rightarrow> windows_event list \<Rightarrow> bool" where
  "watches st l \<longleftrightarrow>
     job_phase l = Running \<and> ThreadResumed \<in> set l \<and>
     (wa_failure st = None \<longrightarrow> list_all harmless l) \<and>
     (\<forall>b. wc_stdout (wa_captures st) = Some b \<longrightarrow> reported Stdout b l) \<and>
     (\<forall>b. wc_stderr (wa_captures st) = Some b \<longrightarrow> reported Stderr b l) \<and>
     (\<forall>x. wa_status st = Some x \<longrightarrow> ChildExited x \<in> set l)"

lemma reported_Cons: "reported s b l \<Longrightarrow> reported s b (e # l)"
  by (auto simp: reported_def)

lemma reported_now: "reported s (bp_bytes p) (Delivered (CaptureMessage s (Inr p)) # l)"
  by (auto simp: reported_def)

lemma watches_exit: "watches st l \<Longrightarrow> watches st (on_exit r @ l)"
  by (auto simp: watches_def on_exit_def on_ok_def reported_Cons split: sum.split option.split)

lemma record_message_watches:
  assumes "watches st l" and "record_message m limits program (wa_captures st) = (failure, c)"
  shows "watches (note_failure failure (st\<lparr>wa_captures := c\<rparr>)) (Delivered m # l)"
proof (cases m)
  case (CaptureMessage s r)
  show ?thesis
  proof (cases r)
    case (Inl e)
    with CaptureMessage assms show ?thesis
      by (cases s) (auto simp: watches_def note_failure_def intro: reported_Cons)
  next
    case (Inr p)
    with CaptureMessage assms(2) have "failure = None \<longrightarrow> \<not> bp_exceeded p" "c = stream_captured s (bp_bytes p) (wa_captures st)"
      by (auto split: if_splits)
    with CaptureMessage Inr assms(1) show ?thesis
      by (cases s) (auto simp: watches_def note_failure_def intro: reported_Cons reported_now)
  qed
next
  case (InputMessage r)
  with assms show ?thesis
    by (cases r) (auto simp: watches_def note_failure_def intro: reported_Cons split: if_splits)
qed

lemma receive_step_watches:
  "watches st l \<Longrightarrow> watches (receive_step limits program b r st) (on_delivery r @ l)"
  by (cases r)
    (auto simp: receive_step_def on_delivery_def intro: record_message_watches split: prod.split,
      auto simp: watches_def note_failure_def)

lemma answer_now_preserves [simp]: "preserves F (answerE (wk_now (logged_windows k)))"
  by (auto simp: valid_def answerE_def split: prod.split)

lemma watch_decide_valid:
  "valid (\<lambda>w. watches st (snd w)) (watch_decide (logged_windows k) program b st) E
     (\<lambda>r w. case r of Inl st' \<Rightarrow> watches st' (snd w) | Inr st' \<Rightarrow> watches st' (snd w))"
proof -
  have fail: "watches st l \<Longrightarrow> watches (st\<lparr>wa_failure := Some e\<rparr>) l" for e l
    by (simp add: watches_def)
  have now: "valid (\<lambda>w. watches st (snd w)) (answerE (wk_now (logged_windows k))) E
      (\<lambda>_ w. watches st (snd w))"
    by (auto simp: valid_def answerE_def split: prod.split)
  show ?thesis
    unfolding watch_decide_def
    by (cases "wa_exit st")
      (auto intro!: valid_basic valid_bindE [OF now] valid_if fail)
qed

lemma watch_turn_valid:
  "valid (\<lambda>w. watches st (snd w))
     (watch_turn (logged_windows k) (wk_try_wait (logged_windows k)) program limits b st) E
     (\<lambda>r w. case r of Inl st' \<Rightarrow> watches st' (snd w) | Inr st' \<Rightarrow> watches st' (snd w))"
proof -
  let ?next = "\<lambda>r. receive_step limits program b r st"
  have recv: "valid (\<lambda>w. watches st (snd w)) (answerE (wk_recv (logged_windows k) POLL_INTERVAL)) E
      (\<lambda>r w. watches (?next r) (snd w))"
    by (auto simp: valid_def answerE_def receive_step_watches split: prod.split)
  have poll: "valid (\<lambda>w. watches st' (snd w)) (attemptE (status_poll program (wk_try_wait (logged_windows k)))) E
      (\<lambda>a w. watches st' (snd w) \<and> (case a of Inr (Some x) \<Rightarrow> ChildExited x \<in> set (snd w) | _ \<Rightarrow> True))" for st'
    by (auto simp: valid_def attemptE_def status_poll_def map_errE_def logging_def map_err_def
        watches_exit split: prod.split sum.split option.split)
      (simp add: on_exit_def on_ok_def)
  have now: "valid (\<lambda>w. P (snd w)) (answerE (wk_now (logged_windows k))) E (\<lambda>_ w. P (snd w))" for P
    by (auto simp: valid_def answerE_def split: prod.split)
  have exit: "watches st' l \<Longrightarrow> ChildExited x \<in> set l \<Longrightarrow>
      watches (st'\<lparr>wa_status := Some x, wa_exit := Some t\<rparr>) l" for st' l x t
    by (simp add: watches_def)
  have fail: "watches st' l \<Longrightarrow> watches (st'\<lparr>wa_failure := Some e\<rparr>) l" for st' e l
    by (simp add: watches_def)
  show ?thesis
    unfolding watch_turn_def Let_def
  proof (rule valid_bindE [OF recv], rule valid_if, rule watch_decide_valid, rule valid_bindE [OF poll])
    fix r a
    show "valid (\<lambda>w. watches (?next r) (snd w) \<and>
          (case a of Inr (Some x) \<Rightarrow> ChildExited x \<in> set (snd w) | _ \<Rightarrow> True))
        (case a of Inl error \<Rightarrow> okE (Inr (?next r\<lparr>wa_failure := Some error\<rparr>))
         | Inr None \<Rightarrow> watch_decide (logged_windows k) program b (?next r)
         | Inr (Some reaped) \<Rightarrow> bindE (answerE (wk_now (logged_windows k))) (\<lambda>now.
             watch_decide (logged_windows k) program b
               (?next r\<lparr>wa_status := Some reaped, wa_exit := Some now\<rparr>))) E
        (\<lambda>r w. case r of Inl st' \<Rightarrow> watches st' (snd w) | Inr st' \<Rightarrow> watches st' (snd w))"
    proof (cases a)
      case (Inl e)
      then show ?thesis by (auto intro!: valid_basic fail)
    next
      case (Inr o')
      show ?thesis
      proof (cases o')
        case None
        with Inr show ?thesis
          by (auto intro: valid_weaken [OF watch_decide_valid])
      next
        case (Some x)
        have "valid (\<lambda>w. watches (?next r) (snd w) \<and> ChildExited x \<in> set (snd w))
            (watch_decide (logged_windows k) program b (?next r\<lparr>wa_status := Some x, wa_exit := Some t\<rparr>)) E
            (\<lambda>r w. case r of Inl st' \<Rightarrow> watches st' (snd w) | Inr st' \<Rightarrow> watches st' (snd w))" for t
          by (rule valid_weaken [OF watch_decide_valid]) (auto intro: exit)
        with Inr Some show ?thesis
          by (auto intro!: valid_bindE [OF now [where P = "\<lambda>l. watches (?next r) l \<and> ChildExited x \<in> set l"]])
      qed
    qed
  qed
qed

lemma watch_loop_valid:
  "valid_run (\<lambda>w. watches st (snd w))
     (loopP (watch_turn (logged_windows k) (wk_try_wait (logged_windows k)) program limits b) st) E
     (\<lambda>st' w. watches st' (snd w))"
  by (rule loopP_valid) (rule watch_turn_valid)

section \<open>The end of a call\<close>

abbreviation in_phase :: "job_state \<Rightarrow> windows_event list \<Rightarrow> bool" where
  "in_phase p \<equiv> (\<lambda>l. job_phase l = p)"

lemma quiet_preserves:
  "preserves (in_phase p) (answerE (wk_now (logged_windows k)))"
  "preserves (in_phase p) (answerE (wk_recv (logged_windows k) t))"
  "preserves (in_phase p) (modifyE (wk_sleep (logged_windows k) d))"
  "preserves (in_phase p) (modifyE (wk_cancel (logged_windows k) v))"
  "preserves (in_phase p) (modifyE id)"
  "preserves (in_phase p) (wk_try_wait (logged_windows k))"
  "preserves (in_phase p) (join_worker (logged_windows k) x label)"
  by (auto simp: valid_def answerE_def modifyE_def join_worker_def map_errE_def map_err_def logging_def
      beside_def okE_def outcome_def split: prod.split option.split sum.split)

lemma preserves_if:
  "preserves F m \<Longrightarrow> preserves F n \<Longrightarrow> preserves F (if b then m else n)"
  by simp

lemma modify_if: "modifyE (if b then f else g) = (if b then modifyE f else modifyE g)"
  by simp

lemma preserves_received:
  "(\<And>m. preserves F (f m)) \<Longrightarrow> preserves F g \<Longrightarrow> preserves F h \<Longrightarrow>
   preserves F (case r of Message m \<Rightarrow> f m | Timeout \<Rightarrow> g | Disconnected \<Rightarrow> h)"
  by (cases r) auto

lemmas phase_rules =
  preserves_bindE [where F = "in_phase p" for p] preserves_case [where F = "in_phase p" for p]
  preserves_if [where F = "in_phase p" for p] preserves_received [where F = "in_phase p" for p]
  preserves_basic [where F = "in_phase p" for p] preserves_attemptE [where F = "in_phase p" for p]
  preserves_ignoreE [where F = "in_phase p" for p] quiet_preserves

lemma reap_turn_phase: "preserves (in_phase p) (windows_reap_turn (logged_windows k) deadline u)"
  unfolding windows_reap_turn_def by (intro phase_rules)

lemma reap_until_phase: "preserves_run (in_phase p) (windows_reap_until (logged_windows k) deadline)"
  unfolding windows_reap_until_def by (rule preserves_loopP) (rule reap_turn_phase)

lemma receive_turn_phase:
  "preserves (in_phase p) (receive_turn (logged_windows k) limits program b deadline c)"
  unfolding receive_turn_def by (intro phase_rules)

lemma receive_until_phase:
  "preserves_run (in_phase p) (receive_until (logged_windows k) limits program b deadline c)"
  unfolding receive_until_def by (rule preserves_loopP) (rule receive_turn_phase)

lemma preserves_attemptP:
  assumes "preserves_run F m"
  shows "preserves_run F (attemptP m)"
  unfolding valid_run_def
proof (intro allI impI)
  fix w q
  assume "F (snd w)" and "attemptP m w = Some q"
  then obtain r w' where m: "m w = Some (r, w')" and q: "q = (Inr r, w')"
    by (auto simp: attemptP_def)
  from valid_runD [OF assms \<open>F (snd w)\<close> m] q
  show "outcome (\<lambda>_ w. F (snd w)) (\<lambda>_ w. F (snd w)) q" by (cases r) simp_all
qed

lemma close_valid:
  assumes "p \<in> {Created, Configured, Suspended, Contained, Running}"
  shows "valid (\<lambda>w. job_phase (snd w) = p) (modifyE (wk_close_job (logged_windows k))) E
    (\<lambda>_ w. job_phase (snd w) = Closed)"
  using assms by (auto simp: valid_def modifyE_def)

text \<open>A run that starts in phase \<open>p\<close> and fails with the job closed.\<close>

abbreviation closes :: "job_state \<Rightarrow> ('w \<times> windows_event list, 'e, 'a) run \<Rightarrow> bool" where
  "closes p m \<equiv> valid_run (\<lambda>w. in_phase p (snd w)) m (\<lambda>_ w. in_phase Closed (snd w)) (\<lambda>_ _. False)"

lemma closes_failE: "closes Closed (runE (failE e))"
  by (rule valid_runE) (auto intro: valid_basic)

lemma closes_bindP:
  "preserves_run (in_phase Closed) m \<Longrightarrow> (\<And>x. closes Closed (f x)) \<Longrightarrow> closes Closed (bindP m f)"
  by (rule valid_run_bindP)

lemma closes_after:
  assumes "valid (\<lambda>w. in_phase p (snd w)) m (\<lambda>_ _. False) (\<lambda>_ w. in_phase p (snd w))"
    and "\<And>x. closes p (f x)"
  shows "closes p (bindP (runE m) f)"
proof (rule valid_run_bindP [OF valid_runE])
  show "valid (\<lambda>w. in_phase p (snd w)) m (\<lambda>_ w. in_phase Closed (snd w)) (\<lambda>_ w. in_phase p (snd w))"
    by (rule valid_weaken [OF assms(1)]) simp_all
qed (rule assms(2))

lemma closes_now:
  assumes "p \<in> {Created, Configured, Suspended, Contained, Running}"
    and "\<And>x. closes Closed (f x)"
  shows "closes p (bindP (runE (modifyE (wk_close_job (logged_windows k)))) f)"
  by (rule valid_run_bindP [OF valid_runE [OF close_valid [OF assms(1)]] assms(2)])

lemma certain_preserves:
  "valid (\<lambda>w. F (snd w)) (ignoreE (beside m)) (\<lambda>_ _. False) (\<lambda>_ w. F (snd w))"
  "valid (\<lambda>w. F (snd w)) (modifyE (wk_cancel (logged_windows k) v)) (\<lambda>_ _. False) (\<lambda>_ w. F (snd w))"
  "valid (\<lambda>w. F (snd w)) (modifyE id) (\<lambda>_ _. False) (\<lambda>_ w. F (snd w))"
  "valid (\<lambda>w. F (snd w)) (okE x) (\<lambda>_ _. False) (\<lambda>_ w. F (snd w))"
  by (auto simp: valid_def ignoreE_def beside_def modifyE_def okE_def split: prod.split)

lemma join_next_phase: "preserves (in_phase p) (join_next (logged_windows k) b v label j)"
  unfolding join_next_def
  by (intro phase_rules)

lemma windows_fail_closes: "closes Running (windows_fail (logged_windows k) limits program b st e)"
proof -
  have reaped: "preserves_run (in_phase Closed) (case wa_status st of
      Some r \<Rightarrow> runE (okE r) | None \<Rightarrow> windows_reap_until (logged_windows k) d)" for d
    by (cases "wa_status st") (auto intro: reap_until_phase valid_runE)
  have killed: "preserves (in_phase Closed)
      (if wa_status st = None then ignoreE (wk_kill_child (logged_windows k)) else okE ())"
    by (auto intro: preserves_ignoreE)
  show ?thesis
    unfolding windows_fail_def Let_def modify_if logged_windows_ops(4)
    by (intro closes_after closes_now valid_if certain_preserves closes_bindP closes_failE valid_runE killed
        preserves_attemptP reaped receive_until_phase join_next_phase quiet_preserves) simp_all
qed

lemma windows_unresumed_closes:
  assumes "p \<in> {Contained, Running}"
  shows "closes p (windows_unresumed (logged_windows k) b e)"
  using assms
  unfolding windows_unresumed_def modify_if logged_windows_ops(4)
  by (intro closes_after closes_now valid_if certain_preserves closes_bindP closes_failE valid_runE
      preserves_ignoreE preserves_attemptP reap_until_phase quiet_preserves preserves_basic) auto

lemma windows_unassigned_valid:
  "valid (\<lambda>w. in_phase Suspended (snd w)) (windows_unassigned (logged_windows k) e)
     (\<lambda>_ w. in_phase Closed (snd w)) B"
proof -
  have 1: "valid (\<lambda>w. in_phase Suspended (snd w)) (ignoreE (wk_kill_child (logged_windows k))) E
      (\<lambda>_ w. in_phase Suspended (snd w))" for E
    by (auto simp: valid_def ignoreE_def beside_def split: prod.split)
  have 2: "valid (\<lambda>w. in_phase Suspended (snd w)) (attemptE (wk_wait (logged_windows k))) E
      (\<lambda>_ w. in_phase Suspended (snd w))" for E
    by (auto simp: valid_def attemptE_def logging_def on_ok_def split: prod.split sum.split)
  show ?thesis
    unfolding windows_unassigned_def
    by (rule valid_bindE [OF 1], rule valid_bindE [OF 2], rule valid_bindE [OF close_valid]) (auto intro: valid_basic)
qed

section \<open>The whole call\<close>

text \<open>Joining changes nothing that is recorded; an output exists only when every part of it does.\<close>

lemma join_worker_preserves: "preserves F (join_worker (logged_windows k) v label)"
  by (auto simp: join_worker_def intro!: preserves_map_errE split: option.split)

lemma exact_JobClosed: "windows_exact out l \<Longrightarrow> windows_exact out (JobClosed # l)"
  by (auto simp: windows_exact_def reported_Cons)

lemma windows_succeed_valid:
  assumes "wa_failure st = None"
  shows "valid (\<lambda>w. watches st (snd w)) (windows_succeed (logged_windows k) b st)
    (\<lambda>_ w. in_phase Closed (snd w)) (\<lambda>out w. in_phase Closed (snd w) \<and> windows_exact out (snd w))"
proof -
  let ?A = "\<lambda>l. \<exists>l'. l = JobClosed # l' \<and> watches st l'"
  have close: "valid (\<lambda>w. watches st (snd w)) (modifyE (wk_close_job (logged_windows k))) E (\<lambda>_ w. ?A (snd w))" for E
    by (auto simp: valid_def modifyE_def)
  have closed: "?A l \<Longrightarrow> job_phase l = Closed" for l
  proof -
    assume "?A l"
    then obtain l' where "l = JobClosed # l'" "job_phase l' = Running" by (auto simp: watches_def)
    then show ?thesis by simp
  qed
  have join: "valid (\<lambda>w. ?A (snd w)) (join_worker (logged_windows k) v label)
      (\<lambda>_ w. in_phase Closed (snd w)) (\<lambda>_ w. ?A (snd w))" for v label
    by (rule valid_weaken [OF join_worker_preserves [where F = ?A]]) (assumption | erule closed)+
  have result: "valid (\<lambda>w. ?A (snd w))
      (bindE (liftE (ok_or (wa_status st) e1)) (\<lambda>status.
       bindE (liftE (ok_or (wc_stdout (wa_captures st)) e2)) (\<lambda>out.
       bindE (liftE (ok_or (wc_stderr (wa_captures st)) e3)) (\<lambda>err.
       okE \<lparr>out_success = fst status, out_status = snd status, out_stdout = out, out_stderr = err\<rparr>))))
      (\<lambda>_ w. in_phase Closed (snd w)) (\<lambda>out w. in_phase Closed (snd w) \<and> windows_exact out (snd w))"
    for e1 e2 e3
    unfolding valid_def
  proof (intro allI impI)
    fix w
    assume a: "?A (snd w)"
    then obtain l' where l': "snd w = JobClosed # l'" "watches st l'" by blast
    show "outcome (\<lambda>_ w. in_phase Closed (snd w)) (\<lambda>out w. in_phase Closed (snd w) \<and> windows_exact out (snd w))
       (bindE (liftE (ok_or (wa_status st) e1)) (\<lambda>status.
       bindE (liftE (ok_or (wc_stdout (wa_captures st)) e2)) (\<lambda>out.
       bindE (liftE (ok_or (wc_stderr (wa_captures st)) e3)) (\<lambda>err.
       okE \<lparr>out_success = fst status, out_status = snd status, out_stdout = out, out_stderr = err\<rparr>))) w)"
      using closed [OF a] l' assms
      by (cases "wa_status st"; cases "wc_stdout (wa_captures st)"; cases "wc_stderr (wa_captures st)")
        (simp_all add: bindE_def liftE_def ok_or_def okE_def watches_def windows_exact_def reported_Cons)
  qed
  show ?thesis
    unfolding windows_succeed_def
    by (rule valid_bindE [OF close], rule valid_bindE [OF join], rule valid_bindE [OF join],
        rule valid_bindE [OF join], rule result)
qed

lemma watches_start:
  "job_phase l = Running \<Longrightarrow> list_all harmless l \<Longrightarrow> ThreadResumed \<in> set l \<Longrightarrow> watches (watch_start b) l"
  by (simp add: watches_def watch_start_def)

lemma windows_supervised_valid:
  "valid_run (\<lambda>w. in_phase Running (snd w) \<and> list_all harmless (snd w) \<and> ThreadResumed \<in> set (snd w))
     (windows_supervised (logged_windows k) (wk_try_wait (logged_windows k)) program limits b)
     (\<lambda>_ w. in_phase Closed (snd w)) (\<lambda>out w. in_phase Closed (snd w) \<and> windows_exact out (snd w))"
proof -
  have conclude: "valid_run (\<lambda>w. watches st (snd w)) (windows_conclude (logged_windows k) limits program b st)
      (\<lambda>_ w. in_phase Closed (snd w)) (\<lambda>out w. in_phase Closed (snd w) \<and> windows_exact out (snd w))" for st
  proof (cases "wa_failure st")
    case None
    then show ?thesis
      by (simp add: windows_conclude_def) (rule valid_runE [OF windows_succeed_valid])
  next
    case (Some e)
    then show ?thesis
      by (simp add: windows_conclude_def)
        (rule valid_run_weaken [OF windows_fail_closes], auto simp: watches_def)
  qed
  show ?thesis
    unfolding windows_supervised_def
    by (rule valid_run_bindP [OF valid_run_weaken [OF watch_loop_valid] conclude])
      (auto intro: watches_start)
qed

text \<open>Before the child runs: the job, the suspended child, and its thread.\<close>

definition untouched :: "job_state \<Rightarrow> windows_event list \<Rightarrow> bool" where
  "untouched p l \<longleftrightarrow> job_phase l = p \<and> list_all harmless l"

lemma job_create_valid:
  "valid (\<lambda>w. snd w = []) (job_create (logged_windows k))
     (\<lambda>_ w. job_phase (snd w) \<in> {NoJob, Closed}) (\<lambda>_ w. untouched Configured (snd w))"
  by (auto simp: valid_def job_create_def bindE_def logging_def on_ok_def Let_def on_errorE_def fail_ifE_def
      liftE_def fail_if_def untouched_def JOB_OBJECT_LIMIT_KILL_ON_JOB_CLOSE_def
      JOB_OBJECT_LIMIT_BREAKAWAY_OK_def JOB_OBJECT_LIMIT_SILENT_BREAKAWAY_OK_def
      split: prod.split sum.split)

lemma windows_spawn_valid:
  "valid (\<lambda>w. untouched Configured (snd w))
     (on_errorE (wk_spawn (logged_windows k) c b) (wk_close_job (logged_windows k)))
     (\<lambda>_ w. in_phase Closed (snd w)) (\<lambda>_ w. untouched Suspended (snd w))"
  by (auto simp: valid_def logging_def on_ok_def on_errorE_def untouched_def split: prod.split sum.split)

lemma windows_assign_valid:
  "valid (\<lambda>w. untouched Suspended (snd w)) (attemptE (wk_assign (logged_windows k))) E
     (\<lambda>r w. untouched (case r of Inl _ \<Rightarrow> Suspended | Inr _ \<Rightarrow> Contained) (snd w))"
  by (auto simp: valid_def attemptE_def logging_def on_ok_def untouched_def split: prod.split sum.split)

lemma start_workers_valid:
  "valid (\<lambda>w. F (snd w)) (modifyE (start_workers (logged_windows k) limits input)) E (\<lambda>_ w. F (snd w))"
  by (cases input) (auto simp: valid_def modifyE_def start_workers_def Let_def)

definition resumed :: "windows_event list \<Rightarrow> bool" where
  "resumed l \<longleftrightarrow> job_phase l = Running \<and> list_all harmless l \<and> ThreadResumed \<in> set l"

lemma resume_first_valid:
  "valid (\<lambda>w. untouched Contained (snd w)) (resume_first (logged_windows k) pid entries)
     (\<lambda>_ w. job_phase (snd w) \<in> {Contained, Running}) (\<lambda>_ w. resumed (snd w))"
proof (induction entries)
  case Nil
  show ?case
    unfolding resume_first.simps by (rule valid_basic(2)) (simp add: untouched_def)
next
  case (Cons entry entries)
  obtain owner t where entry: "entry = (owner, t)" by fastforce
  have open_it: "valid (\<lambda>w. untouched Contained (snd w)) (wk_open_thread (logged_windows k) t)
      (\<lambda>_ w. job_phase (snd w) \<in> {Contained, Running}) (\<lambda>_ w. untouched Contained (snd w))"
    by (auto simp: valid_def beside_def untouched_def outcome_def split: prod.split sum.split)
  have resume: "valid (\<lambda>w. untouched Contained (snd w)) (wk_resume_thread (logged_windows k) t)
      (\<lambda>_ w. job_phase (snd w) \<in> {Contained, Running}) (\<lambda>_ w. resumed (snd w))"
    by (auto simp: valid_def logging_def untouched_def resumed_def outcome_def split: prod.split sum.split)
  have ends: "resumed l \<Longrightarrow> job_phase l \<in> {Contained, Running}" for l by (simp add: resumed_def)
  show ?case
    unfolding entry resume_first.simps Let_def prod.case
    by (rule valid_if, rule valid_bindE [OF open_it], rule valid_bindE [OF resume], rule valid_basic(4))
      (simp_all add: ends [simplified] Cons.IH [simplified])
qed

lemma resume_primary_thread_valid:
  "valid (\<lambda>w. untouched Contained (snd w)) (attemptE (resume_primary_thread (logged_windows k) pid)) E
     (\<lambda>r w. case r of Inl _ \<Rightarrow> job_phase (snd w) \<in> {Contained, Running} | Inr _ \<Rightarrow> resumed (snd w))"
proof -
  have snapshot: "valid (\<lambda>w. untouched Contained (snd w)) (wk_snapshot (logged_windows k))
      (\<lambda>_ w. job_phase (snd w) \<in> {Contained, Running}) (\<lambda>_ w. untouched Contained (snd w))"
    by (auto simp: valid_def beside_def untouched_def outcome_def split: prod.split sum.split)
  show ?thesis
    unfolding resume_primary_thread_def
    by (rule valid_weaken [OF valid_attemptE [OF valid_bindE [OF snapshot resume_first_valid]]])
      (auto simp: outcome_def split: sum.splits)
qed

lemma windows_output_valid:
  "valid_run (\<lambda>w. snd w = []) (windows_bounded_output (logged_windows k) command input limits)
     (\<lambda>_ w. job_phase (snd w) \<in> {NoJob, Closed})
     (\<lambda>out w. in_phase Closed (snd w) \<and> windows_exact out (snd w))"
    (is "valid_run _ _ ?E ?B")
proof -
  let ?k = "logged_windows k" and ?b = "input \<noteq> None"
  have running: "valid_run (\<lambda>w. case r of Inl _ \<Rightarrow> job_phase (snd w) \<in> {Contained, Running} | Inr _ \<Rightarrow> resumed (snd w))
      (case r of Inl error \<Rightarrow> windows_unresumed ?k ?b error
       | Inr _ \<Rightarrow> windows_supervised ?k (wk_try_wait ?k) (cm_program command) limits ?b) ?E ?B" for r
  proof (cases r)
    case (Inl e)
    have "valid_run (\<lambda>w. in_phase p (snd w)) (windows_unresumed ?k ?b e) ?E ?B" if "p \<in> {Contained, Running}" for p
      by (rule valid_run_weaken [OF windows_unresumed_closes [OF that]]) simp_all
    note this [unfolded valid_run_def]
    with Inl show ?thesis by (simp only: valid_run_def sum.case) blast
  next
    case (Inr u)
    show ?thesis
      unfolding Inr sum.case
      by (rule valid_run_weaken [OF windows_supervised_valid]) (auto simp: resumed_def)
  qed
  have assigned: "valid_run (\<lambda>w. untouched (case r of Inl _ \<Rightarrow> Suspended | Inr _ \<Rightarrow> Contained) (snd w))
      (case r of Inl error \<Rightarrow> runE (windows_unassigned ?k error)
       | Inr _ \<Rightarrow> bindP (runE (modifyE (start_workers ?k limits input))) (\<lambda>_.
           bindP (runE (attemptE (resume_primary_thread ?k pid))) (\<lambda>resumed. case resumed of
             Inl error \<Rightarrow> windows_unresumed ?k ?b error
           | Inr _ \<Rightarrow> windows_supervised ?k (wk_try_wait ?k) (cm_program command) limits ?b))) ?E ?B" for r pid
  proof (cases r)
    case (Inl e)
    then show ?thesis
      by simp (rule valid_runE, rule valid_weaken [OF windows_unassigned_valid], auto simp: untouched_def)
  next
    case (Inr u)
    show ?thesis
      unfolding Inr sum.case
      by (rule valid_run_bindP [OF valid_runE [OF start_workers_valid]],
        rule valid_run_bindP [OF valid_runE [OF resume_primary_thread_valid]], rule running)
  qed
  have spawned: "valid (\<lambda>w. untouched Configured (snd w))
      (on_errorE (wk_spawn ?k command ?b) (wk_close_job ?k)) ?E (\<lambda>_ w. untouched Suspended (snd w))"
    by (rule valid_weaken [OF windows_spawn_valid]) simp_all
  have call: "valid_run (\<lambda>w. snd w = []) (windows_output_with_status_poll ?k command limits input (wk_try_wait ?k)) ?E ?B"
    unfolding windows_output_with_status_poll_def
    by (rule valid_run_bindP [OF valid_runE [OF job_create_valid]], rule valid_run_bindP [OF valid_runE [OF spawned]],
        rule valid_run_bindP [OF valid_runE [OF windows_assign_valid]], rule assigned)
  have limited: "valid (\<lambda>w. snd w = []) (liftE (validate_limits limits input)) ?E (\<lambda>_ w. snd w = [])"
    by (rule valid_basic(3)) (simp add: outcome_def split: sum.split)
  show ?thesis
    unfolding windows_bounded_output_def by (rule valid_run_bindP [OF valid_runE [OF limited] call])
qed

text \<open>
  C14: on Windows, whatever the machine does and in whatever order the workers report, a bounded
  subprocess call that returns has closed the job it created, exactly once, so that no process of the
  job outlives it, and started nothing in it afterwards; the child's thread was resumed only while the child was suspended inside that
  job, and the job only counted as set up when closing it kills and nothing may break away. When the
  call succeeds, the child exited with the status given, no worker reported a failure or an excess, and
  the two outputs are what the readers reported.
\<close>

theorem windows_subprocess_exact:
  "case windows_bounded_output (logged_windows k) command input limits (w, []) of
     None \<Rightarrow> True
   | Some (Inl e, (w', l)) \<Rightarrow> job_phase l \<in> {NoJob, Closed}
   | Some (Inr out, (w', l)) \<Rightarrow> job_phase l = Closed \<and> windows_exact out l"
  using valid_runD [OF windows_output_valid, of "(w, [])" k command input limits]
  by (auto simp: outcome_def split: option.split prod.splits sum.splits)

section \<open>Bounds\<close>

text \<open>What the channel delivers from a reader is what a reader thread sends.\<close>

definition sent_by_reader :: "output_limits \<Rightarrow> worker_message \<Rightarrow> bool" where
  "sent_by_reader limits m \<longleftrightarrow> (case m of
     InputMessage _ \<Rightarrow> True
   | CaptureMessage s _ \<Rightarrow> \<exists>(read_up_to :: nat \<Rightarrow> (unit, io_error, bytes) eff).
       fst (reader_body read_up_to s (stream_limit s limits) ()) = m)"

definition honest_channel :: "'w windows_kernel \<Rightarrow> output_limits \<Rightarrow> bool" where
  "honest_channel k limits \<longleftrightarrow> (\<forall>d w. case wk_recv k d w of
     (Message m, w') \<Rightarrow> sent_by_reader limits m | _ \<Rightarrow> True)"

lemma sent_exceeded:
  "sent_by_reader limits (CaptureMessage s (Inr p)) \<Longrightarrow> bp_exceeded p \<longleftrightarrow> stream_limit s limits < length (bp_bytes p)"
  by (auto simp: sent_by_reader_def reader_body_def read_bounded_pipe_def bindE_def okE_def liftE_def
      split: prod.splits sum.splits)

text \<open>As long as nothing failed, what was captured is within the limits.\<close>

definition within :: "output_limits \<Rightarrow> watch \<Rightarrow> bool" where
  "within limits st \<longleftrightarrow> wa_failure st = None \<longrightarrow>
     (\<forall>b. wc_stdout (wa_captures st) = Some b \<longrightarrow> length b \<le> ol_stdout limits) \<and>
     (\<forall>b. wc_stderr (wa_captures st) = Some b \<longrightarrow> length b \<le> ol_stderr limits)"

lemma receive_step_within:
  assumes "within limits st" and "\<And>m. r = Message m \<Longrightarrow> sent_by_reader limits m"
  shows "within limits (receive_step limits program b r st)"
proof (cases r)
  case (Message m)
  show ?thesis
  proof (cases m)
    case (CaptureMessage s a)
    show ?thesis
    proof (cases a)
      case (Inl e)
      with Message CaptureMessage assms(1) show ?thesis
        by (cases s) (auto simp: receive_step_def within_def note_failure_def)
    next
      case (Inr p)
      with Message CaptureMessage assms sent_exceeded [of limits s p] show ?thesis
        by (cases s) (auto simp: receive_step_def within_def note_failure_def)
    qed
  next
    case (InputMessage a)
    with Message assms(1) show ?thesis
      by (cases a) (auto simp: receive_step_def within_def note_failure_def)
  qed
qed (use assms(1) in \<open>auto simp: receive_step_def within_def note_failure_def\<close>)

lemma watch_decide_within:
  "within limits st \<Longrightarrow> valid A (watch_decide k program b st) E
     (\<lambda>r _. case r of Inl st' \<Rightarrow> within limits st' | Inr st' \<Rightarrow> within limits st')"
  by (cases "wa_exit st")
    (auto simp: watch_decide_def within_def valid_def okE_def bindE_def answerE_def split: prod.split)

lemma watch_turn_within:
  fixes k :: "'w windows_kernel"
  assumes "honest_channel k limits"
  shows "valid (\<lambda>_. within limits st) (watch_turn k poll program limits b st) E
     (\<lambda>r _. case r of Inl st' \<Rightarrow> within limits st' | Inr st' \<Rightarrow> within limits st')"
proof -
  let ?next = "\<lambda>r. receive_step limits program b r st"
  have recv: "valid (\<lambda>_. within limits st) (answerE (wk_recv k POLL_INTERVAL)) E (\<lambda>r _. within limits (?next r))"
    using assms
    by (auto simp: valid_def answerE_def honest_channel_def intro!: receive_step_within split: prod.split)
      (metis (no_types, lifting) case_prod_conv received.simps(8))
  have more: "within limits (st'\<lparr>wa_status := s, wa_exit := t\<rparr>) = within limits st'"
    "within limits (st'\<lparr>wa_failure := Some e\<rparr>)" for st' s t e
    by (simp_all add: within_def)
  have decide: "valid (\<lambda>_. within limits st') (watch_decide k program b st'') E
     (\<lambda>r _. case r of Inl st' \<Rightarrow> within limits st' | Inr st' \<Rightarrow> within limits st')"
    if "within limits st' \<Longrightarrow> within limits st''" for st' st''
    using that watch_decide_within [of limits st'' "\<lambda>_. True" k program b E] by (auto simp: valid_def)
  have any: "valid (\<lambda>_. P) m E (\<lambda>_ _. P)" if "\<And>w. \<exists>x w'. m w = (Inr x, w')"
    for P and m :: "('w, io_error, 'c) eff"
    using that by (auto simp: valid_def) (metis outcome_simps(2))
  show ?thesis
    unfolding watch_turn_def Let_def
    by (rule valid_bindE [OF recv], rule valid_if, rule decide, assumption, rule valid_bindE [OF any])
      (auto simp: attemptE_def answerE_def more split: sum.split option.split prod.split
        intro!: valid_basic decide valid_bindE [OF any])
qed

lemma windows_succeed_within:
  assumes "within limits st" and "wa_failure st = None" and "windows_succeed k b st w = (Inr out, w')"
  shows "length (out_stdout out) \<le> ol_stdout limits \<and> length (out_stderr out) \<le> ol_stderr limits"
proof -
  from assms(3) have "wc_stdout (wa_captures st) = Some (out_stdout out)"
    "wc_stderr (wa_captures st) = Some (out_stderr out)"
    by (auto simp: windows_succeed_def bindE_Inr liftE_Inr ok_or_def okE_def split: option.splits)
  with assms(1,2) show ?thesis by (simp add: within_def)
qed

abbreviation bounded :: "output_limits \<Rightarrow> process_output \<Rightarrow> bool" where
  "bounded limits out \<equiv> length (out_stdout out) \<le> ol_stdout limits \<and> length (out_stderr out) \<le> ol_stderr limits"

text \<open>Whatever happens before, these paths give no output.\<close>

lemma valid_any:
  "valid_run A m (\<lambda>_ _. True) (\<lambda>_ _. True)"
  "valid A' m' (\<lambda>_ _. True) (\<lambda>_ _. True)"
  by (simp_all add: valid_run_def valid_def outcome_def split: sum.split)

lemmas first_any = valid_run_bindP [OF valid_any(1)] valid_bindE [OF valid_any(2)]

lemma failing:
  "valid_run A (runE (failE e)) (\<lambda>_ _. True) B"
  "valid A' (failE e) (\<lambda>_ _. True) B"
  by (auto intro: valid_runE valid_basic)

lemma windows_fail_gives_nothing:
  "valid_run A (windows_fail k limits program b st e) (\<lambda>_ _. True) B"
  unfolding windows_fail_def Let_def by (intro first_any failing)

lemma windows_unresumed_gives_nothing: "valid_run A (windows_unresumed k b e) (\<lambda>_ _. True) B"
  unfolding windows_unresumed_def by (intro first_any failing)

lemma windows_unassigned_gives_nothing: "valid A (windows_unassigned k e) (\<lambda>_ _. True) B"
  unfolding windows_unassigned_def by (intro first_any failing)

lemma windows_conclude_within:
  "valid_run (\<lambda>_. within limits st) (windows_conclude k limits program b st) (\<lambda>_ _. True)
     (\<lambda>out _. bounded limits out)"
proof (cases "wa_failure st")
  case None
  then show ?thesis
    by (auto simp: windows_conclude_def valid_run_def runE_def outcome_def
        dest: windows_succeed_within split: sum.split)
qed (simp add: windows_conclude_def windows_fail_gives_nothing)

lemma windows_supervised_within:
  assumes "honest_channel k limits"
  shows "valid_run (\<lambda>_. True) (windows_supervised k poll program limits b) (\<lambda>_ _. True) (\<lambda>out _. bounded limits out)"
  unfolding windows_supervised_def
  by (rule valid_run_bindP [OF valid_run_weaken [OF loopP_valid [where I = "\<lambda>st _. within limits st",
          OF watch_turn_within [OF assms]]] windows_conclude_within])
    (simp_all add: within_def watch_start_def)

text \<open>
  C17: on Windows, when the channel delivers what the reader threads send, a bounded subprocess call
  that succeeds gives outputs within their limits, whatever the child wrote: a reader asks for one byte
  more than its limit, and a stream that has it fails the call.
\<close>

theorem windows_output_bounded:
  assumes "honest_channel k limits" and "windows_bounded_output k command input limits w = Some (Inr out, w')"
  shows "length (out_stdout out) \<le> ol_stdout limits \<and> length (out_stderr out) \<le> ol_stderr limits"
proof -
  have resumed: "valid_run (\<lambda>_. True) (case r of Inl e \<Rightarrow> windows_unresumed k b e
      | Inr _ \<Rightarrow> windows_supervised k poll program limits b) (\<lambda>_ _. True) (\<lambda>out _. bounded limits out)"
    for program poll b and r :: "io_error + unit"
    by (cases r) (simp_all add: windows_unresumed_gives_nothing windows_supervised_within [OF assms(1)])
  have assigned: "valid_run (\<lambda>_. True) (case r of Inl error \<Rightarrow> runE (windows_unassigned k error)
      | Inr _ \<Rightarrow> bindP (runE (modifyE (start_workers k limits input))) (\<lambda>_.
          bindP (runE (attemptE (resume_primary_thread k pid))) (\<lambda>resumed. case resumed of
            Inl error \<Rightarrow> windows_unresumed k (input \<noteq> None) error
          | Inr _ \<Rightarrow> windows_supervised k (wk_try_wait k) (cm_program command) limits (input \<noteq> None))))
      (\<lambda>_ _. True) (\<lambda>out _. bounded limits out)" for pid and r :: "io_error + unit"
  proof (cases r)
    case (Inl e)
    show ?thesis unfolding Inl sum.case by (rule valid_runE [OF windows_unassigned_gives_nothing])
  next
    case (Inr u)
    show ?thesis unfolding Inr sum.case by (intro first_any resumed)
  qed
  have "valid_run (\<lambda>_. True) (windows_bounded_output k command input limits) (\<lambda>_ _. True) (\<lambda>out _. bounded limits out)"
    unfolding windows_bounded_output_def windows_output_with_status_poll_def
    by (intro first_any assigned)
  from valid_runD [OF this _ assms(2)] show ?thesis by simp
qed

end
