(* ===== verification/WindowsEnds.thy ===== *)
theory WindowsEnds
  imports WindowsProcess Clocks
begin

text \<open>
  Termination of bounded subprocess calls on Windows. As on Unix the supervision loop has no deadline of
  its own: it ends because the child exits, because every worker reports once, and because after the
  exit the clock runs through the grace period.
\<close>

section \<open>A live machine\<close>

text \<open>
  \<open>wg_mail\<close> counts the messages the channel still delivers. A wait that times out has taken its time;
  nothing is asked of a wait on a channel all of whose senders are gone.
\<close>

record 'w windows_gauge = "'w gauge" +
  wg_mail :: "'w \<Rightarrow> nat"

definition delivers :: "'w windows_gauge \<Rightarrow> (nat \<Rightarrow> 'w \<Rightarrow> received \<times> 'w) \<Rightarrow> bool" where
  "delivers g recv \<longleftrightarrow> (\<forall>d w. case recv d w of (r, w') \<Rightarrow>
     later (gauge.truncate g) w w' \<and> wg_mail g w' \<le> wg_mail g w \<and>
     (case r of
        Message m \<Rightarrow> wg_mail g w' < wg_mail g w
      | Timeout \<Rightarrow> ga_clock g w + d \<le> ga_clock g w'
      | Disconnected \<Rightarrow> True))"

definition live_windows :: "'w windows_kernel \<Rightarrow> 'w windows_gauge \<Rightarrow> bool" where
  "live_windows k g \<longleftrightarrow>
     reads_clock (gauge.truncate g) (wk_now k) \<and> sleeps (gauge.truncate g) (wk_sleep k) \<and>
     polls (gauge.truncate g) (wk_try_wait k) \<and> delivers g (wk_recv k) \<and>
     (\<forall>w. wg_mail g (snd (wk_now k w)) \<le> wg_mail g w) \<and>
     (\<forall>w. wg_mail g (snd (wk_try_wait k w)) \<le> wg_mail g w)"

lemma truncated [simp]:
  "ga_clock (gauge.truncate g) = ga_clock g" "ga_alive (gauge.truncate g) = ga_alive g"
  by (simp_all add: gauge.truncate_def)

text \<open>Progress, the messages included.\<close>

definition moves :: "'w windows_gauge \<Rightarrow> 'w \<Rightarrow> 'w \<Rightarrow> bool" where
  "moves g w w' \<longleftrightarrow> later (gauge.truncate g) w w' \<and> wg_mail g w' \<le> wg_mail g w"

lemma moves_refl [simp]: "moves g w w"
  by (simp add: moves_def)

lemma moves_trans: "moves g u v \<Longrightarrow> moves g v w \<Longrightarrow> moves g u w"
  by (auto simp: moves_def intro: later_trans)

lemma windows_now_step:
  assumes "live_windows k g" and "wk_now k w = (t, w')"
  shows "ga_clock g w \<le> t" "t \<le> ga_clock g w'" "moves g w w'"
  using assms clock_step [of "gauge.truncate g" "wk_now k" w t w']
  by (auto simp: live_windows_def moves_def) (metis snd_conv)

lemma windows_poll_step:
  assumes "live_windows k g" and "wk_try_wait k w = (r, w')"
  shows "moves g w w'" "r = Inr None \<Longrightarrow> ga_alive g w' < ga_alive g w"
  using assms polling_step [of "gauge.truncate g" "wk_try_wait k" w r w']
  by (auto simp: live_windows_def moves_def) (metis snd_conv)

lemma recv_step:
  assumes "live_windows k g" and "wk_recv k d w = (r, w')"
  shows "moves g w w'"
    "r = Message m \<Longrightarrow> wg_mail g w' < wg_mail g w"
    "r = Timeout \<Longrightarrow> ga_clock g w + d \<le> ga_clock g w'"
  using assms by (auto simp: live_windows_def delivers_def moves_def split: prod.splits) (metis prod.inject received.simps)+

section \<open>The supervision loop\<close>

text \<open>
  The measure, compared lexicographically: the polls that find the child running, the messages, and the
  rest of the grace period.
\<close>

definition watch_measure :: "'w windows_gauge \<Rightarrow> watch \<times> 'w \<Rightarrow> nat \<times> nat \<times> nat" where
  "watch_measure g = (\<lambda>(st, w).
     (if wa_status st = None then Suc (ga_alive g w) else 0, wg_mail g w,
      case wa_exit st of None \<Rightarrow> 0 | Some t \<Rightarrow> t + PIPE_CLOSE_GRACE - ga_clock g w))"

abbreviation watch_order :: "((nat \<times> nat \<times> nat) \<times> (nat \<times> nat \<times> nat)) set" where
  "watch_order \<equiv> less_than <*lex*> less_than <*lex*> less_than"

definition exit_known :: "watch \<Rightarrow> bool" where
  "exit_known st \<longleftrightarrow> (wa_status st = None) = (wa_exit st = None)"

lemma receive_step_same [simp]:
  "wa_status (receive_step limits program b r st) = wa_status st"
  "wa_exit (receive_step limits program b r st) = wa_exit st"
  by (auto simp: receive_step_def note_failure_def split: received.split prod.split)

text \<open>The loop goes on only without a failure, and after the exit only within the grace period.\<close>

lemma watch_decide_goes_on:
  assumes "live_windows k g"
    and "(watch_decide k program b st :: ('w, io_error, watch + watch) eff) w = (Inr (Inl st'), w')"
  shows "st' = st" "wa_failure st = None" "moves g w w'"
    "wa_exit st = Some t \<Longrightarrow> ga_clock g w < t + PIPE_CLOSE_GRACE"
    "wa_status st \<noteq> None \<Longrightarrow> \<not> captures_finished (wa_captures st) b"
proof -
  from assms(2) have none: "wa_failure st = None"
    and unfinished: "wa_status st \<noteq> None \<Longrightarrow> \<not> captures_finished (wa_captures st) b"
    by (auto simp: watch_decide_def okE_def split: if_splits)
  show "wa_failure st = None" by (rule none)
  show "wa_status st \<noteq> None \<Longrightarrow> \<not> captures_finished (wa_captures st) b" by (rule unfinished)
  have "st' = st \<and> moves g w w' \<and> (\<forall>t. wa_exit st = Some t \<longrightarrow> ga_clock g w < t + PIPE_CLOSE_GRACE)"
  proof (cases "wa_exit st")
    case None
    with assms(2) none unfinished show ?thesis
      by (auto simp: watch_decide_def okE_def split: if_splits)
  next
    case (Some t)
    with assms(2) none unfinished obtain n where "wk_now k w = (n, w')" "\<not> PIPE_CLOSE_GRACE \<le> n - t" "st' = st"
      by (auto simp: watch_decide_def bindE_Inr answerE_Inr split: if_splits)
    with windows_now_step [OF assms(1), of w n w'] Some show ?thesis
      by (auto simp: PIPE_CLOSE_GRACE_def)
  qed
  then show "st' = st" "moves g w w'" "wa_exit st = Some t \<Longrightarrow> ga_clock g w < t + PIPE_CLOSE_GRACE"
    by simp_all
qed

text \<open>The ways in which a turn goes on.\<close>

lemma watch_turn_goes_on:
  fixes k :: "'w windows_kernel" and program and b
  defines "decide \<equiv> watch_decide k program b :: watch \<Rightarrow> ('w, io_error, watch + watch) eff"
  assumes "watch_turn k (wk_try_wait k) program limits b st w = (Inr (Inl st'), w')"
    and "wk_recv k POLL_INTERVAL w = (r, w1)" and "st1 = receive_step limits program b r st"
  obtains (Exited) "wa_status st \<noteq> None" "decide st1 w1 = (Inr (Inl st'), w')"
  | (Alive) w2 where "wa_status st = None" "wk_try_wait k w1 = (Inr None, w2)"
      "decide st1 w2 = (Inr (Inl st'), w')"
  | (Exits) s w2 t w3 where "wa_status st = None" "wk_try_wait k w1 = (Inr (Some s), w2)"
      "wk_now k w2 = (t, w3)"
      "decide (st1\<lparr>wa_status := Some s, wa_exit := Some t\<rparr>) w3 = (Inr (Inl st'), w')"
proof (cases "wa_status st")
  case None
  obtain p w2 where p: "wk_try_wait k w1 = (p, w2)" by fastforce
  consider e where "p = Inl e" | "p = Inr None" | s where "p = Inr (Some s)"
    by (metis not_None_eq sumE)
  then show ?thesis
  proof cases
    case (3 s)
    obtain t w3 where "wk_now k w2 = (t, w3)" by fastforce
    with assms None p 3 show ?thesis
      by (intro Exits) (auto simp: watch_turn_def bindE_def answerE_def attemptE_def status_poll_def
          map_errE_def map_err_def decide_def Let_def)
  qed (use assms None p in \<open>auto simp: watch_turn_def bindE_def answerE_def attemptE_def status_poll_def
        map_errE_def map_err_def decide_def okE_def Let_def intro: Alive\<close>)
next
  case (Some s)
  with assms show ?thesis
    by (intro Exited) (auto simp: watch_turn_def bindE_def answerE_def Let_def decide_def)
qed

lemma watch_turn_progress:
  fixes k :: "'w windows_kernel"
  assumes live: "live_windows k g" and known: "exit_known st"
    and turn: "watch_turn k (wk_try_wait k) program limits b st w = (Inr (Inl st'), w')"
  shows "exit_known st' \<and> (watch_measure g (st', w'), watch_measure g (st, w)) \<in> watch_order"
proof -
  obtain r w1 where recv: "wk_recv k POLL_INTERVAL w = (r, w1)" by fastforce
  note received = recv_step [OF live recv]
  from turn recv refl show ?thesis
  proof (cases rule: watch_turn_goes_on)
    case Exited
    then obtain t where t: "wa_exit st = Some t" using known by (auto simp: exit_known_def)
    note on = watch_decide_goes_on [OF live Exited(2)]
    have "r \<noteq> Disconnected"
      using on(2,5) Exited(1) by (auto simp: receive_step_def note_failure_def split: if_splits)
    with on(1,3) on(4) [of t] received t Exited(1) known show ?thesis
      by (cases r) (auto simp: watch_measure_def exit_known_def moves_def later_def POLL_INTERVAL_def)
  next
    case (Alive w2)
    note on = watch_decide_goes_on [OF live Alive(3)]
    from on(1,3) received(1) windows_poll_step [OF live Alive(2)] Alive(1) known show ?thesis
      by (auto simp: watch_measure_def exit_known_def moves_def later_def)
  next
    case (Exits s w2 t w3)
    from watch_decide_goes_on(1) [OF live Exits(4)] Exits(1) show ?thesis
      by (simp add: watch_measure_def exit_known_def)
  qed
qed

lemma watch_loop_returns:
  assumes "live_windows k g"
  shows "returns A (loopP (watch_turn k (wk_try_wait k) program limits b) (watch_start b'))"
proof -
  have "wf (inv_image watch_order (watch_measure g))"
    by (intro wf_inv_image wf_lex_prod wf_less_than)
  then have "\<exists>q. loopP (watch_turn k (wk_try_wait k) program limits b) (watch_start b') w = Some q" for w
    by (rule loopP_total [where I = "\<lambda>st w. exit_known st"])
      (use watch_turn_progress [OF assms] in \<open>auto simp: exit_known_def watch_start_def\<close>)
  then show ?thesis by (auto simp: returns_def)
qed

section \<open>The end of a call\<close>

lemma windows_reap_until_returns:
  "live_windows k g \<Longrightarrow> returns A (windows_reap_until k deadline)"
  unfolding windows_reap_until_def windows_reap_turn_def live_windows_def
  by (rule poll_until_returns [where g = "gauge.truncate g"]) (simp_all add: POLL_INTERVAL_def)

text \<open>Waiting for the workers: a turn takes a message or time.\<close>

lemma receive_turn_progress:
  fixes k :: "'w windows_kernel"
  assumes live: "live_windows k g"
    and turn: "(receive_turn k limits program b deadline c :: ('w, io_error, captures + captures) eff) w = (Inr (Inl c'), w')"
  shows "wg_mail g w' < wg_mail g w \<or>
    wg_mail g w' \<le> wg_mail g w \<and> deadline - ga_clock g w' < deadline - ga_clock g w"
proof -
  obtain t w1 where now: "wk_now k w = (t, w1)" by fastforce
  obtain u w2 where again: "wk_now k w1 = (u, w2)" by fastforce
  obtain r w3 where wait: "wk_recv k (min (deadline - u) POLL_INTERVAL) w2 = (r, w3)" by fastforce
  from turn now again wait have t: "t < deadline" and r: "r \<noteq> Disconnected" and "w3 = w'"
    by (auto simp: receive_turn_def bindE_def answerE_def okE_def split: if_splits received.splits)
  with wait have recv: "wk_recv k (min (deadline - u) POLL_INTERVAL) w2 = (r, w')" by simp
  note steps = windows_now_step [OF live now] windows_now_step [OF live again] recv_step [OF live recv]
  show ?thesis
  proof (cases r)
    case (Message m)
    with steps show ?thesis by (auto simp: moves_def)
  next
    case Timeout
    with steps t have "ga_clock g w < deadline" "ga_clock g w < ga_clock g w'"
      by (auto simp: moves_def later_def POLL_INTERVAL_def min_def split: if_splits)
    with steps show ?thesis by (auto simp: moves_def)
  qed (use r in simp)
qed

lemma receive_until_returns:
  assumes "live_windows k g"
  shows "returns A (receive_until k limits program b deadline c)"
proof -
  have "wf (inv_image (less_than <*lex*> less_than) (\<lambda>(c :: captures, w). (wg_mail g w, deadline - ga_clock g w)))"
    by (intro wf_inv_image wf_lex_prod wf_less_than)
  then have "\<exists>q. loopP (receive_turn k limits program b deadline) c w = Some q" for w
    by (rule loopP_total [where I = "\<lambda>_ _. True"])
      (auto dest!: receive_turn_progress [OF assms])
  then show ?thesis by (auto simp: returns_def receive_until_def)
qed

lemma valid_run_any: "valid_run A m (\<lambda>_ _. True) (\<lambda>_ _. True)"
  by (simp add: valid_run_def outcome_def split: sum.split)

lemmas returns_rules = returns_bindP [OF _ valid_run_any] returns_runE returns_attemptP

lemma windows_supervised_returns:
  assumes "live_windows k g"
  shows "returns A (windows_supervised k (wk_try_wait k) program limits b)"
proof -
  have fails: "returns A (windows_fail k limits program b st e)" for A st e
    unfolding windows_fail_def Let_def
    by (intro returns_rules receive_until_returns [OF assms])
      (auto intro: returns_rules windows_reap_until_returns [OF assms] split: option.split)
  have "returns A (windows_conclude k limits program b st)" for A st
    unfolding windows_conclude_def by (auto intro: fails returns_runE split: option.split)
  then show ?thesis
    unfolding windows_supervised_def by (intro returns_rules watch_loop_returns [OF assms])
qed

lemma windows_output_returns:
  assumes "live_windows k g"
  shows "returns A (windows_output_with_status_poll k command limits input (wk_try_wait k))"
proof -
  have unresumed: "returns A (windows_unresumed k b e)" for A b e
    unfolding windows_unresumed_def
    by (intro returns_rules windows_reap_until_returns [OF assms])
  have resumed: "returns A (case r of Inl e \<Rightarrow> windows_unresumed k b e
      | Inr _ \<Rightarrow> windows_supervised k (wk_try_wait k) program limits b)" for A program b and r :: "io_error + unit"
    by (cases r) (auto intro: unresumed windows_supervised_returns [OF assms])
  have assigned: "returns A (case r of Inl error \<Rightarrow> runE (windows_unassigned k error)
       | Inr _ \<Rightarrow> bindP (runE (modifyE (start_workers k limits input))) (\<lambda>_.
           bindP (runE (attemptE (resume_primary_thread k pid))) (\<lambda>resumed. case resumed of
             Inl error \<Rightarrow> windows_unresumed k (input \<noteq> None) error
           | Inr _ \<Rightarrow> windows_supervised k (wk_try_wait k) (cm_program command) limits (input \<noteq> None))))"
    for A pid and r :: "io_error + unit"
  proof (cases r)
    case (Inr u)
    show ?thesis unfolding Inr sum.case by (intro returns_rules resumed)
  next
    case (Inl e)
    show ?thesis unfolding Inl sum.case by (rule returns_runE)
  qed
  show ?thesis
    unfolding windows_output_with_status_poll_def by (intro returns_rules assigned)
qed

text \<open>
  C15: on a live Windows machine a bounded subprocess call returns: when the clock runs, the child is
  seen to exit after finitely many polls and the workers send finitely many messages, the call has a
  result, whatever the workers send and whenever they do, even when they never finish.
\<close>

theorem windows_subprocess_returns:
  assumes "live_windows k g"
  shows "\<exists>result w'. windows_bounded_output k command input limits w = Some (result, w')"
proof -
  have "returns (\<lambda>_. True) (windows_bounded_output k command input limits)"
    unfolding windows_bounded_output_def by (intro returns_rules windows_output_returns [OF assms])
  then show ?thesis by (auto simp: returns_def)
qed

end
