(* ===== verification/WindowsFixtures.thy ===== *)
theory WindowsFixtures
  imports WindowsSafety WindowsEnds
begin

text \<open>
  A simulated Windows machine: a child that runs for a given number of polls, workers that report what
  the child wrote, and a clock that waiting moves, by a second more than asked for. It is live and its
  channel is honest.
\<close>

record windows_machine =
  wm_clock :: nat
  wm_polls :: nat
  wm_written :: "(stream \<times> bytes) list"

definition windows_limits :: output_limits where
  "windows_limits = \<lparr>ol_stdout = 4, ol_stderr = 4\<rparr>"

definition sent :: "stream \<times> bytes \<Rightarrow> worker_message" where
  "sent p = fst (reader_body (\<lambda>n. okE (take n (snd p))) (fst p) (stream_limit (fst p) windows_limits) ())"

definition machine_recv :: "nat \<Rightarrow> windows_machine \<Rightarrow> received \<times> windows_machine" where
  "machine_recv d m = (case wm_written m of
     [] \<Rightarrow> (Timeout, m\<lparr>wm_clock := wm_clock m + d + 10 ^ 9\<rparr>)
   | p # ps \<Rightarrow> (Message (sent p), m\<lparr>wm_written := ps\<rparr>))"

definition machine_try_wait :: "(windows_machine, io_error, exit_status option) eff" where
  "machine_try_wait m =
     (if wm_polls m = 0 then (Inr (Some (True, ''exit code: 0'')), m)
      else (Inr None, m\<lparr>wm_polls := wm_polls m - 1\<rparr>))"

definition windows_kernel :: "windows_machine windows_kernel" where
  "windows_kernel =
     \<lparr>wk_create_job = okE (), wk_configure_job = (\<lambda>flags. okE ()), wk_assign = okE (),
      wk_terminate_job = okE (), wk_close_job = id, wk_spawn = (\<lambda>c piped. okE 42),
      wk_snapshot = okE [(7, 70), (42, 420)], wk_open_thread = (\<lambda>t. okE ()), wk_resume_thread = (\<lambda>t. okE 1),
      wk_try_wait = machine_try_wait, wk_wait = okE (True, ''exit code: 0''), wk_kill_child = okE (),
      wk_start_reader = (\<lambda>s limit. id), wk_start_writer = (\<lambda>bytes. id), wk_recv = machine_recv,
      wk_cancel = (\<lambda>t. id), wk_join = (\<lambda>t. okE ()), wk_now = (\<lambda>m. (wm_clock m, m)),
      wk_sleep = (\<lambda>d m. m\<lparr>wm_clock := wm_clock m + d\<rparr>)\<rparr>"

definition windows_machine_gauge :: "windows_machine windows_gauge" where
  "windows_machine_gauge =
     \<lparr>ga_clock = wm_clock, ga_alive = wm_polls, wg_mail = (\<lambda>m. length (wm_written m))\<rparr>"

definition windows_example :: windows_machine where
  "windows_example = \<lparr>wm_clock = 0, wm_polls = 2, wm_written = [(Stderr, []), (Stdout, [104, 105])]\<rparr>"

lemma windows_live: "live_windows windows_kernel windows_machine_gauge"
  unfolding live_windows_def delivers_def reads_clock_def sleeps_def polls_def later_def windows_kernel_def
    windows_machine_gauge_def
  by (auto simp: machine_recv_def machine_try_wait_def split: list.split)

lemma windows_honest: "honest_channel windows_kernel windows_limits"
  unfolding honest_channel_def sent_by_reader_def windows_kernel_def
  by (auto simp: machine_recv_def sent_def reader_body_def read_bounded_pipe_def bindE_def okE_def liftE_def
      split: list.split worker_message.split prod.split sum.split)

section \<open>Example calls\<close>

text \<open>
  A call that succeeds; one whose output exceeds its limit; and one whose readers never report, which
  fails with the grace period over. \<open>job_phase\<close> of the recorded events is \<open>Closed\<close> in each.
\<close>

definition windows_call :: "windows_machine \<Rightarrow> output_limits \<Rightarrow> ((string + process_output) \<times> job_state) option" where
  "windows_call m limits = map_option (\<lambda>(r, (m', l)). (map_sum ie_text id r, job_phase l))
     (windows_bounded_output (logged_windows windows_kernel) (command_new ''git'') None limits (m, []))"

lemma windows_calls:
  "windows_call windows_example windows_limits = Some (Inr \<lparr>out_success = True,
     out_status = ''exit code: 0'', out_stdout = [104, 105], out_stderr = []\<rparr>, Closed)"
  "windows_call (windows_example\<lparr>wm_written := [(Stdout, [1, 2, 3, 4, 5])]\<rparr>) windows_limits =
     Some (Inl ''git stdout exceeded its 4-byte limit; I/O workers did not cancel before the hard deadline'', Closed)"
  "windows_call (windows_example\<lparr>wm_written := []\<rparr>) windows_limits =
     Some (Inl ''git descendants retained output pipes after the direct child exited; I/O workers did not cancel before the hard deadline'', Closed)"
  by code_simp+

section \<open>Witnesses\<close>

lemma windows_subprocess_returns_witness:
  "\<exists>result m. windows_bounded_output windows_kernel (command_new ''git'') (Some [1, 2]) windows_limits
     windows_example = Some (result, m)"
  by (rule windows_subprocess_returns [OF windows_live])

lemma windows_output_bounded_witness:
  "\<exists>out m. windows_bounded_output windows_kernel (command_new ''git'') None windows_limits windows_example =
       Some (Inr out, m) \<and> out_stdout out = [104, 105] \<and> length (out_stdout out) \<le> 4"
proof -
  have run: "windows_bounded_output windows_kernel (command_new ''git'') None windows_limits windows_example =
    Some (Inr \<lparr>out_success = True, out_status = ''exit code: 0'', out_stdout = [104, 105], out_stderr = []\<rparr>,
      \<lparr>wm_clock = 1010 * 10 ^ 6, wm_polls = 0, wm_written = []\<rparr>)"
    by code_simp
  from windows_output_bounded [OF windows_honest run] run show ?thesis by (simp add: windows_limits_def)
qed

end
