(* ===== verification/SafeFile.thy ===== *)
theory SafeFile
  imports Loops PackageContent
begin

text \<open>
  Root-anchored reads that follow no symbolic link, \<open>xtask/src/safe_file.rs\<close> on Unix: what implements
  the field \<open>os_read_manifest\<close> of the machine the other components run on. The system calls are the
  fields of a record over a type of descriptors, and \<open>descends\<close> states what they mean on a tree of
  files; the refinement theorem relates a read to a lookup in that tree.
\<close>

section \<open>System calls\<close>

datatype open_flag = O_DIRECTORY | O_NOFOLLOW | O_CLOEXEC | O_NONBLOCK

datatype file_type = FT_Directory | FT_Regular | FT_Other

text \<open>
  All opens are for reading. \<open>fs_read\<close> is \<open>take(n).read_to_end\<close>: what the file holds, up to \<open>n\<close> bytes.
\<close>

record ('w, 'h) file_system =
  fs_open :: "string \<Rightarrow> open_flag list \<Rightarrow> ('w, io_error, 'h) eff"
  fs_openat :: "'h \<Rightarrow> string \<Rightarrow> open_flag list \<Rightarrow> ('w, io_error, 'h) eff"
  fs_fstat :: "'h \<Rightarrow> ('w, io_error, file_type) eff"
  fs_read :: "'h \<Rightarrow> nat \<Rightarrow> ('w, io_error, bytes) eff"

section \<open>Paths\<close>

definition MANIFEST_LIMIT :: nat where
  "MANIFEST_LIMIT = 1024 * 1024"

definition invalid_input :: "string \<Rightarrow> io_error" where
  "invalid_input message = \<lparr>ie_kind = IO_InvalidInput, ie_text = message\<rparr>"

definition normal_component :: "path_component \<Rightarrow> io_error + string" where
  "normal_component c = (case c of
     Normal value \<Rightarrow>
       bindR (map_err (\<lambda>_. invalid_input ''safe file path must be valid UTF-8'')
         (from_utf8 (as_bytes value))) (\<lambda>text.
       bindR (fail_if (CHR '':'' \<in> set text \<or> char_nul \<in> set text)
         (invalid_input ''safe file path may not contain alternate data streams or NUL'')) (\<lambda>_.
       Inr value))
   | _ \<Rightarrow> Inl (invalid_input ''safe file path may not contain prefixes, roots, or traversal''))"

primrec normal_component_list :: "path_component list \<Rightarrow> io_error + string list" where
  "normal_component_list [] = Inr []"
| "normal_component_list (c # cs) =
     bindR (normal_component c) (\<lambda>value. bindR (normal_component_list cs) (\<lambda>values.
     Inr (value # values)))"

text \<open>\<open>Path::is_absolute\<close> and \<open>Path::components\<close> depend on the system.\<close>

definition relative_components_of ::
  "(string \<Rightarrow> bool) \<Rightarrow> (string \<Rightarrow> path_component list) \<Rightarrow> string \<Rightarrow> io_error + string list" where
  "relative_components_of is_absolute components_of path =
     bindR (fail_if (path = [] \<or> is_absolute path)
       (invalid_input ''safe file path must be a nonempty relative path'')) (\<lambda>_.
     bindR (normal_component_list (components_of path)) (\<lambda>components.
     bindR (fail_if (components = [])
       (invalid_input ''safe file path has no normal components'')) (\<lambda>_.
     Inr components)))"

definition relative_components :: "string \<Rightarrow> io_error + string list" where
  "relative_components = relative_components_of (\<lambda>path. starts_with path ''/'') path_components"

section \<open>Reading\<close>

definition read_bounded :: "('h \<Rightarrow> nat \<Rightarrow> ('w, io_error, bytes) eff) \<Rightarrow> 'h \<Rightarrow> nat \<Rightarrow> string \<Rightarrow> ('w, io_error, bytes) eff" where
  "read_bounded read_up_to file limit label =
     bindE (liftE (ok_or (if limit + 1 < 2 ^ 64 then Some (limit + 1) else None)
       (invalid_input ''safe file limit is invalid''))) (\<lambda>sentinel.
     bindE (read_up_to file sentinel) (\<lambda>bytes.
     bindE (fail_ifE (limit < length bytes) \<lparr>ie_kind = IO_InvalidData,
       ie_text = label @ '' exceeds its '' @ show_nat limit @ ''-byte limit''\<rparr>) (\<lambda>_.
     okE bytes)))"

definition read_utf8_bounded ::
  "('h \<Rightarrow> nat \<Rightarrow> ('w, io_error, bytes) eff) \<Rightarrow> 'h \<Rightarrow> nat \<Rightarrow> string \<Rightarrow> ('w, io_error, string) eff" where
  "read_utf8_bounded read_up_to file limit label =
     bindE (read_bounded read_up_to file limit label) (\<lambda>bytes.
     liftE (map_err (\<lambda>e. \<lparr>ie_kind = IO_InvalidData, ie_text = label @ '' is not valid UTF-8: '' @ e\<rparr>)
       (from_utf8 bytes)))"

definition require_type :: "('w, 'h) file_system \<Rightarrow> 'h \<Rightarrow> bool \<Rightarrow> ('w, io_error, unit) eff" where
  "require_type fs descriptor directory =
     bindE (fs_fstat fs descriptor) (\<lambda>file_type.
     fail_ifE (directory \<and> file_type \<noteq> FT_Directory \<or> \<not> directory \<and> file_type \<noteq> FT_Regular)
       \<lparr>ie_kind = IO_InvalidData, ie_text =
          (if directory then ''safe path component is not a directory''
           else ''safe final path is not a regular file'')\<rparr>)"

definition root_open :: "('w, 'h) file_system \<Rightarrow> string \<Rightarrow> ('w, io_error, 'h) eff" where
  "root_open fs path =
     bindE (fs_open fs path [O_DIRECTORY, O_NOFOLLOW, O_CLOEXEC]) (\<lambda>directory.
     bindE (require_type fs directory True) (\<lambda>_. okE directory))"

text \<open>
  Opening one component, and the walk along a path. The walk is the same on each system, and
  \<open>open_component\<close> is the system's.
\<close>

definition open_component :: "('w, 'h) file_system \<Rightarrow> 'h \<Rightarrow> string \<Rightarrow> bool \<Rightarrow> ('w, io_error, 'h) eff" where
  "open_component fs parent component directory =
     bindE (fs_openat fs parent component
       (if directory then [O_DIRECTORY, O_NOFOLLOW, O_CLOEXEC] else [O_NOFOLLOW, O_CLOEXEC, O_NONBLOCK])) (\<lambda>next.
     bindE (require_type fs next directory) (\<lambda>_. okE next))"

primrec traverse ::
  "('h \<Rightarrow> string \<Rightarrow> bool \<Rightarrow> ('w, 'e, 'h) eff) \<Rightarrow> string list \<Rightarrow> 'h \<Rightarrow> ('w, 'e, 'h) eff" where
  "traverse open_one [] parent = okE parent"
| "traverse open_one (component # components) parent =
     bindE (open_one parent component True) (\<lambda>next. traverse open_one components next)"

definition open_file ::
  "('h \<Rightarrow> string \<Rightarrow> bool \<Rightarrow> ('w, 'e, 'h) eff) \<Rightarrow> 'h \<Rightarrow> string list \<Rightarrow> ('w, 'e, 'h) eff" where
  "open_file open_one directory components =
     bindE (traverse open_one (butlast components) directory) (\<lambda>parent.
     open_one parent (last components) False)"

definition read_text ::
  "(string \<Rightarrow> io_error + string list) \<Rightarrow> ('h \<Rightarrow> string \<Rightarrow> bool \<Rightarrow> ('w, io_error, 'h) eff) \<Rightarrow>
   ('h \<Rightarrow> nat \<Rightarrow> ('w, io_error, bytes) eff) \<Rightarrow> 'h \<Rightarrow> string \<Rightarrow> nat \<Rightarrow> ('w, io_error, string) eff" where
  "read_text relative open_one read_up_to directory path limit =
     bindE (liftE (relative path)) (\<lambda>components.
     bindE (open_file open_one directory components) (\<lambda>file.
     read_utf8_bounded read_up_to file limit path))"

definition read_utf8 :: "('w, 'h) file_system \<Rightarrow> 'h \<Rightarrow> string \<Rightarrow> nat \<Rightarrow> ('w, io_error, string) eff" where
  "read_utf8 fs = read_text relative_components (open_component fs) (fs_read fs)"

definition read_manifest :: "('w, 'h) file_system \<Rightarrow> string \<Rightarrow> string \<Rightarrow> ('w, io_error, string) eff" where
  "read_manifest fs root path =
     bindE (root_open fs root) (\<lambda>directory. read_utf8 fs directory path MANIFEST_LIMIT)"

section \<open>Trees of files\<close>

datatype node =
    Directory "(string \<times> node) list"
  | Regular bytes
  | Symlink string
  | Special

fun child :: "node \<Rightarrow> string \<Rightarrow> node option" where
  "child (Directory entries) name = map_of entries name"
| "child _ name = None"

text \<open>
  Descending from an entry to the next; a link is no directory, and nothing below it is found. How an
  entry is found by its name differs between systems.
\<close>

fun descend_by :: "(node \<Rightarrow> string \<Rightarrow> node option) \<Rightarrow> node \<Rightarrow> string list \<Rightarrow> node option" where
  "descend_by entry n [] = Some n"
| "descend_by entry n (c # cs) = (case entry n c of None \<Rightarrow> None | Some m \<Rightarrow> descend_by entry m cs)"

abbreviation descend :: "node \<Rightarrow> string list \<Rightarrow> node option" where
  "descend \<equiv> descend_by child"

fun node_type :: "node \<Rightarrow> file_type" where
  "node_type (Directory _) = FT_Directory"
| "node_type (Regular _) = FT_Regular"
| "node_type _ = FT_Other"

text \<open>
  What the calls mean when descriptor \<open>h\<close> is open on the node \<open>node h\<close>. With \<open>O_NOFOLLOW\<close>, \<open>openat\<close>
  opens nothing but the entry of that name, and no link; it does open a directory, and a regular file
  unless \<open>O_DIRECTORY\<close> is given. A read of a regular file gives its first bytes.
\<close>

fun is_symlink :: "node \<Rightarrow> bool" where
  "is_symlink (Symlink _) = True"
| "is_symlink _ = False"

fun must_open :: "open_flag list \<Rightarrow> node option \<Rightarrow> bool" where
  "must_open flags (Some (Directory _)) = True"
| "must_open flags (Some (Regular _)) = (O_DIRECTORY \<notin> set flags)"
| "must_open flags _ = False"

definition descends :: "('w, 'h) file_system \<Rightarrow> ('h \<Rightarrow> node) \<Rightarrow> bool" where
  "descends fs node \<longleftrightarrow>
     (\<forall>h c flags w. O_NOFOLLOW \<in> set flags \<longrightarrow> (case fst (fs_openat fs h c flags w) of
        Inl e \<Rightarrow> \<not> must_open flags (child (node h) c)
      | Inr h' \<Rightarrow> child (node h) c = Some (node h') \<and> \<not> is_symlink (node h'))) \<and>
     (\<forall>h w. fst (fs_fstat fs h w) = Inr (node_type (node h))) \<and>
     (\<forall>h n w contents. node h = Regular contents \<longrightarrow> fst (fs_read fs h n w) = Inr (take n contents))"

lemma descends_openat:
  assumes "descends fs node" and "O_NOFOLLOW \<in> set flags"
  shows "fs_openat fs h c flags w = (Inr h', w') \<Longrightarrow> child (node h) c = Some (node h')"
    "must_open flags (child (node h) c) \<Longrightarrow> \<exists>h' w'. fs_openat fs h c flags w = (Inr h', w')"
proof -
  have law: "case fst (fs_openat fs h c flags w) of
        Inl e \<Rightarrow> \<not> must_open flags (child (node h) c)
      | Inr h' \<Rightarrow> child (node h) c = Some (node h') \<and> \<not> is_symlink (node h')"
    using assms unfolding descends_def by blast
  then show "fs_openat fs h c flags w = (Inr h', w') \<Longrightarrow> child (node h) c = Some (node h')"
    by simp
  from law show "must_open flags (child (node h) c) \<Longrightarrow> \<exists>h' w'. fs_openat fs h c flags w = (Inr h', w')"
    by (cases "fs_openat fs h c flags w") (auto split: sum.splits)
qed

lemma require_type_Inr:
  assumes "descends fs node"
  shows "(\<exists>w'. require_type fs h directory w = (Inr (), w')) \<longleftrightarrow>
    node_type (node h) = (if directory then FT_Directory else FT_Regular)"
proof -
  obtain q w1 where q: "fs_fstat fs h w = (q, w1)" by (cases "fs_fstat fs h w")
  from assms have "fst (fs_fstat fs h w) = Inr (node_type (node h))"
    unfolding descends_def by blast
  with q show ?thesis by (auto simp: require_type_def fail_ifE_Inr)
qed

lemma require_typeD:
  "descends fs node \<Longrightarrow> require_type fs h directory w = (Inr u, w') \<Longrightarrow>
   node_type (node h) = (if directory then FT_Directory else FT_Regular)"
  using require_type_Inr [of fs node h directory w] by (cases u) auto

lemma node_type_iff:
  "node_type n = FT_Directory \<longleftrightarrow> (\<exists>entries. n = Directory entries)"
  "node_type n = FT_Regular \<longleftrightarrow> (\<exists>contents. n = Regular contents)"
  by (cases n; simp)+

section \<open>A walk is a descent\<close>

text \<open>
  What is asked of opening a component: it opens the entry of that name and nothing else, and does so
  exactly when that entry is a directory, or a regular file, as wanted.
\<close>

locale no_follow =
  fixes open_one :: "'h \<Rightarrow> string \<Rightarrow> bool \<Rightarrow> ('w, io_error, 'h) eff"
    and read_up_to :: "'h \<Rightarrow> nat \<Rightarrow> ('w, io_error, bytes) eff"
    and node :: "'h \<Rightarrow> node"
    and entry :: "node \<Rightarrow> string \<Rightarrow> node option"
  assumes opens_entry: "open_one h c directory w = (Inr h', w') \<Longrightarrow>
      entry (node h) c = Some (node h') \<and> node_type (node h') = (if directory then FT_Directory else FT_Regular)"
    and opens: "entry (node h) c = Some n \<Longrightarrow> node_type n = (if directory then FT_Directory else FT_Regular) \<Longrightarrow>
      \<exists>h' w'. open_one h c directory w = (Inr h', w')"
    and in_directory: "entry n c = Some m \<Longrightarrow> node_type n = FT_Directory"
    and reads_file: "node h = Regular contents \<Longrightarrow> fst (read_up_to h count w) = Inr (take count contents)"
begin

lemma descend_snoc:
  "descend_by entry n (cs @ [c]) = (case descend_by entry n cs of None \<Rightarrow> None | Some m \<Rightarrow> entry m c)"
  by (induction cs arbitrary: n) (auto split: option.split)

lemma traverse_sound:
  "traverse open_one cs h w = (Inr h', w') \<Longrightarrow> descend_by entry (node h) cs = Some (node h')"
proof (induction cs arbitrary: h w)
  case (Cons c cs)
  then obtain h1 w1 where "open_one h c True w = (Inr h1, w1)" "traverse open_one cs h1 w1 = (Inr h', w')"
    by (auto simp: bindE_Inr)
  with Cons.IH opens_entry show ?case by fastforce
qed auto

lemma traverse_complete:
  "descend_by entry (node h) cs = Some n \<Longrightarrow> node_type n = FT_Directory \<Longrightarrow>
   \<exists>h' w'. traverse open_one cs h w = (Inr h', w') \<and> node h' = n"
proof (induction cs arbitrary: h w)
  case (Cons c cs)
  then obtain m where m: "entry (node h) c = Some m" "descend_by entry m cs = Some n"
    by (auto split: option.splits)
  with Cons.prems(2) have "node_type m = FT_Directory"
    by (cases cs) (auto dest: in_directory split: option.splits)
  with opens [OF m(1), of True w] obtain h1 w1 where h1: "open_one h c True w = (Inr h1, w1)" by auto
  with m(1) opens_entry have "node h1 = m" by fastforce
  with Cons.IH [of h1 w1] m(2) Cons.prems(2) h1 show ?case by (auto simp: bindE_Inr)
qed auto

lemma open_file_iff:
  assumes "cs \<noteq> []"
  shows "(\<exists>f w'. open_file open_one h cs w = (Inr f, w') \<and> node f = Regular contents) \<longleftrightarrow>
    descend_by entry (node h) cs = Some (Regular contents)"
    (is "?open \<longleftrightarrow> ?found")
proof
  have snoc: "descend_by entry n cs =
      (case descend_by entry n (butlast cs) of None \<Rightarrow> None | Some m \<Rightarrow> entry m (last cs))" for n
    using descend_snoc [of n "butlast cs" "last cs"] assms by simp
  show ?found if ?open
  proof -
    from that obtain f parent w1 w2 where "traverse open_one (butlast cs) h w = (Inr parent, w1)"
        "open_one parent (last cs) False w1 = (Inr f, w2)" "node f = Regular contents"
      by (auto simp: open_file_def bindE_Inr)
    with traverse_sound opens_entry show ?thesis by (fastforce simp: snoc)
  qed
  show ?open if ?found
  proof -
    from that obtain m where m: "descend_by entry (node h) (butlast cs) = Some m"
        "entry m (last cs) = Some (Regular contents)" by (auto simp: snoc split: option.splits)
    from traverse_complete [OF m(1) in_directory [OF m(2)], of w] obtain parent w1 where
        1: "traverse open_one (butlast cs) h w = (Inr parent, w1)" "node parent = m" by blast
    with m(2) opens [of parent "last cs" "Regular contents" False w1] obtain f w2 where
        2: "open_one parent (last cs) False w1 = (Inr f, w2)" by auto
    with opens_entry m(2) 1(2) have "node f = Regular contents" by fastforce
    with 1 2 show ?thesis by (auto simp: open_file_def bindE_Inr)
  qed
qed

lemma open_file_regular:
  assumes "open_file open_one h cs w = (Inr f, w')"
  shows "\<exists>contents. node f = Regular contents"
proof -
  from assms obtain parent w1 where "open_one parent (last cs) False w1 = (Inr f, w')"
    by (auto simp: open_file_def bindE_Inr)
  from opens_entry [OF this] show ?thesis by (simp add: node_type_iff)
qed

lemma read_text_iff:
  assumes "\<And>cs. relative path = Inr cs \<Longrightarrow> cs \<noteq> []"
  shows "fst (read_text relative open_one read_up_to h path limit w) = Inr content \<longleftrightarrow>
    limit + 1 < 2 ^ 64 \<and>
    (\<exists>cs bytes. relative path = Inr cs \<and> descend_by entry (node h) cs = Some (Regular bytes) \<and>
       length bytes \<le> limit \<and> from_utf8 bytes = Inr content)"
proof (cases "relative path")
  case (Inl e)
  then show ?thesis by (simp add: read_text_def bindE_def liftE_def)
next
  case (Inr cs)
  obtain r w1 where r: "open_file open_one h cs w = (r, w1)" by fastforce
  have run: "read_text relative open_one read_up_to h path limit w =
      bindE (open_file open_one h cs) (\<lambda>f. read_utf8_bounded read_up_to f limit path) w"
    using Inr by (simp add: read_text_def bindE_def liftE_def)
  note found = open_file_iff [OF assms [OF Inr], of h w]
  show ?thesis
  proof (cases r)
    case (Inl e)
    with r run found Inr show ?thesis by (auto simp: bindE_def)
  next
    case f: (Inr f)
    with r obtain bytes where bytes: "node f = Regular bytes" using open_file_regular by blast
    obtain q w2 where "read_up_to f (limit + 1) w1 = (q, w2)" by fastforce
    with reads_file [OF bytes] have q: "read_up_to f (limit + 1) w1 = (Inr (take (limit + 1) bytes), w2)"
      by (metis fst_conv)
    have "fst (read_utf8_bounded read_up_to f limit path w1) = Inr content \<longleftrightarrow>
        limit + 1 < 2 ^ 64 \<and> length bytes \<le> limit \<and> from_utf8 bytes = Inr content"
      using q by (auto simp: read_utf8_bounded_def read_bounded_def bindE_def liftE_def fail_ifE_def
          fail_if_def okE_def ok_or_def map_err_Inr min_def)
    moreover have "descend_by entry (node h) cs = Some (Regular bytes)"
      using found [of bytes] r f bytes by blast
    ultimately show ?thesis using run r f Inr by (auto simp: bindE_def)
  qed
qed

end

text \<open>The calls on a tree of files give such a walk.\<close>

locale unix_tree =
  fixes fs :: "('w, 'h) file_system" and node :: "'h \<Rightarrow> node"
  assumes tree: "descends fs node"
begin

sublocale unix: no_follow "open_component fs" "fs_read fs" node child
proof
  fix h c directory w h' w'
  assume "open_component fs h c directory w = (Inr h', w')"
  then obtain w1 where "fs_openat fs h c
      (if directory then [O_DIRECTORY, O_NOFOLLOW, O_CLOEXEC] else [O_NOFOLLOW, O_CLOEXEC, O_NONBLOCK]) w = (Inr h', w1)"
    and "require_type fs h' directory w1 = (Inr (), w')"
    by (auto simp: open_component_def bindE_Inr okE_Inr)
  with descends_openat(1) [OF tree] require_typeD [OF tree]
  show "child (node h) c = Some (node h') \<and> node_type (node h') = (if directory then FT_Directory else FT_Regular)"
    by (metis list.set_intros(1,2))
next
  fix h c n directory w
  let ?flags = "if directory then [O_DIRECTORY, O_NOFOLLOW, O_CLOEXEC] else [O_NOFOLLOW, O_CLOEXEC, O_NONBLOCK]"
  assume n: "child (node h) c = Some n" "node_type n = (if directory then FT_Directory else FT_Regular)"
  then have must: "must_open ?flags (child (node h) c)" by (cases n) (auto split: if_splits)
  have flag: "O_NOFOLLOW \<in> set ?flags" by simp
  from descends_openat(2) [OF tree flag must] obtain h' w1 where h': "fs_openat fs h c ?flags w = (Inr h', w1)"
    by blast
  from n(1) descends_openat(1) [OF tree flag h'] have "node h' = n" by simp
  with n(2) require_type_Inr [OF tree, of h' directory w1] obtain w2 where
    "require_type fs h' directory w1 = (Inr (), w2)" by auto
  with h' show "\<exists>h' w'. open_component fs h c directory w = (Inr h', w')"
    by (auto simp: open_component_def bindE_Inr okE_Inr)
next
  fix n c m
  show "child n c = Some m \<Longrightarrow> node_type n = FT_Directory" by (cases n) auto
next
  show "node h = Regular contents \<Longrightarrow> fst (fs_read fs h n w) = Inr (take n contents)" for h contents n w
    using tree unfolding descends_def by blast
qed

lemmas read_iff = unix.read_text_iff

end

section \<open>A read is a lookup\<close>

definition safe_name :: "string \<Rightarrow> bool" where
  "safe_name c \<longleftrightarrow> c \<noteq> [] \<and> c \<noteq> ''.'' \<and> c \<noteq> ''..'' \<and> CHR ''/'' \<notin> set c \<and> CHR '':'' \<notin> set c \<and>
     char_nul \<notin> set c"

lemma path_components_Normal:
  "Normal c \<in> set (path_components p) \<Longrightarrow> c \<noteq> [] \<and> c \<noteq> ''.'' \<and> c \<noteq> ''..'' \<and> CHR ''/'' \<notin> set c"
  by (auto simp: path_components_def Let_def dest: split_char_parts split: if_splits)

lemma normal_component_list_Inr:
  "normal_component_list cs = Inr vs \<Longrightarrow> cs = map Normal vs \<and>
   list_all (\<lambda>v. CHR '':'' \<notin> set v \<and> char_nul \<notin> set v) vs"
proof (induction cs arbitrary: vs)
  case (Cons c cs)
  then show ?case
    by (cases c) (auto simp: bindR_Inr normal_component_def map_err_Inr fail_if_Inr dest: from_utf8_Inr)
qed simp

lemma relative_components_of_Inr:
  "relative_components_of ab f path = Inr cs \<Longrightarrow>
   cs \<noteq> [] \<and> f path = map Normal cs \<and> list_all (\<lambda>v. CHR '':'' \<notin> set v \<and> char_nul \<notin> set v) cs"
  by (auto simp: relative_components_of_def bindR_Inr fail_if_Inr dest: normal_component_list_Inr)

lemma relative_components_Inr:
  assumes "relative_components path = Inr cs"
  shows "cs \<noteq> [] \<and> list_all safe_name cs"
proof -
  from relative_components_of_Inr [OF assms [unfolded relative_components_def]] path_components_Normal [of _ path]
  show ?thesis by (auto simp: list_all_iff safe_name_def)
qed

text \<open>
  C26: on a tree of files, a read succeeds with a text exactly when the path is a sequence of plain
  names, descending along them from the root through directories only ends at a regular file within
  the limit, and the text is its contents. A link on the way, or at its end, is never followed.
\<close>

theorem safe_read_exact:
  assumes "descends fs node"
  shows "fst (read_utf8 fs h path limit w) = Inr content \<longleftrightarrow>
    limit + 1 < 2 ^ 64 \<and>
    (\<exists>cs bytes. relative_components path = Inr cs \<and> list_all safe_name cs \<and>
       descend (node h) cs = Some (Regular bytes) \<and> length bytes \<le> limit \<and>
       from_utf8 bytes = Inr content)"
  using unix_tree.read_iff [OF unix_tree.intro [OF assms], of relative_components path h limit w content]
  by (auto simp: read_utf8_def dest: relative_components_Inr)

section \<open>A concrete tree\<close>

text \<open>Descriptors that are nodes, and the calls on them.\<close>

definition tree_file_system :: "node \<Rightarrow> ('w, node) file_system" where
  "tree_file_system root =
     \<lparr>fs_open = (\<lambda>path flags. okE root),
      fs_openat = (\<lambda>h c flags. case child h c of
         Some n \<Rightarrow> if is_symlink n \<or> O_DIRECTORY \<in> set flags \<and> node_type n \<noteq> FT_Directory
           then failE \<lparr>ie_kind = IO_Other, ie_text = ''not a directory''\<rparr> else okE n
       | None \<Rightarrow> failE \<lparr>ie_kind = IO_NotFound, ie_text = ''no such file''\<rparr>),
      fs_fstat = (\<lambda>h. okE (node_type h)),
      fs_read = (\<lambda>h n. okE (case h of Regular bytes \<Rightarrow> take n bytes | _ \<Rightarrow> []))\<rparr>"

lemma tree_descends: "descends (tree_file_system root) id"
  unfolding descends_def tree_file_system_def
  by (auto split: option.split node.split elim: must_open.elims)

interpretation tree: unix_tree "tree_file_system root" id for root
  by (rule unix_tree.intro [OF tree_descends])

definition example_tree :: node where
  "example_tree = Directory [(''a'', Directory [(''b'', Regular [104, 105])]), (''l'', Symlink ''a'')]"

lemma example_reads:
  "fst (read_manifest (tree_file_system example_tree) ''/r'' ''a/b'' ()) = Inr ''hi''"
  "map_sum ie_text id (fst (read_manifest (tree_file_system example_tree) ''/r'' ''l/b'' ())) =
     Inl ''not a directory''"
  "map_sum ie_text id (fst (read_manifest (tree_file_system example_tree) ''/r'' ''../a'' ())) =
     Inl ''safe file path may not contain prefixes, roots, or traversal''"
  by code_simp+

lemma safe_read_exact_witness:
  "fst (read_utf8 (tree_file_system example_tree) example_tree ''a/b'' 5 ()) = Inr ''hi'' \<and>
   descend example_tree [''a'', ''b''] = Some (Regular [104, 105])"
proof -
  have cs: "relative_components ''a/b'' = Inr [''a'', ''b'']" by code_simp
  have "from_utf8 [104, 105] = Inr ''hi''" "descend example_tree [''a'', ''b''] = Some (Regular [104, 105])"
    "list_all safe_name [''a'', ''b'']" by code_simp+
  with safe_read_exact [OF tree_descends, of example_tree example_tree "''a/b''" 5 "()" "''hi''"] cs
  show ?thesis by simp
qed

end
