(* ===== verification/Wide.thy ===== *)
theory Wide
  imports Text
begin

text \<open>
  Strings for Windows system calls: \<open>encode_wide\<close>, from the encoding an \<open>OsString\<close> has there (UTF-8 that
  admits lone surrogates) to 16-bit code units, and numbers as messages show them.
\<close>

type_synonym u16 = "16 word"
type_synonym wide = "u16 list"

section \<open>Code units\<close>

text \<open>The code points of a well-formed encoding; the last six bits of a continuation byte.\<close>

definition continuation :: "nat list \<Rightarrow> nat \<Rightarrow> nat" where
  "continuation bs i = (if i < length bs then bs ! i mod 64 else 0)"

fun code_points :: "nat list \<Rightarrow> nat list" where
  "code_points [] = []"
| "code_points (a # bs) =
     (if a < 0x80 then a # code_points bs
      else if a < 0xE0 then ((a mod 32) * 64 + continuation bs 0) # code_points (drop 1 bs)
      else if a < 0xF0 then
        (((a mod 16) * 64 + continuation bs 0) * 64 + continuation bs 1) # code_points (drop 2 bs)
      else ((((a mod 8) * 64 + continuation bs 0) * 64 + continuation bs 1) * 64 + continuation bs 2)
        # code_points (drop 3 bs))"

text \<open>The code units of a code point: one, or a pair of surrogates.\<close>

definition code_units :: "nat \<Rightarrow> wide" where
  "code_units c =
     (if c < 0x10000 then [word_of_nat c]
      else [word_of_nat (0xD800 + (c - 0x10000) div 0x400), word_of_nat (0xDC00 + (c - 0x10000) mod 0x400)])"

definition encode_wide :: "string \<Rightarrow> wide" where
  "encode_wide s = concat (map code_units (code_points (map of_char s)))"

lemma encode_wide_examples:
  "encode_wide ''C:'' = [67, 58]"
  "encode_wide [CHR 0xC3, CHR 0xA9] = [0xE9]"
  "encode_wide [CHR 0xE2, CHR 0x82, CHR 0xAC] = [0x20AC]"
  "encode_wide [CHR 0xF0, CHR 0x9F, CHR 0x98, CHR 0x80] = [0xD83D, 0xDE00]"
  by code_simp+

lemma encode_wide_Nil [simp]: "encode_wide [] = []"
  by (simp add: encode_wide_def)

lemma encode_wide_ascii:
  "list_all (\<lambda>c. of_char c < (128 :: nat)) s \<Longrightarrow> encode_wide s = map (\<lambda>c. word_of_nat (of_char c)) s"
  by (induction s) (auto simp: encode_wide_def code_units_def)

section \<open>Numbers in messages\<close>

fun digits16 :: "(nat \<Rightarrow> char) \<Rightarrow> nat \<Rightarrow> string" where
  "digits16 digit n = (if n < 16 then [digit n] else digits16 digit (n div 16) @ [digit (n mod 16)])"

declare digits16.simps [simp del]

text \<open>\<open>{:#x}\<close> and \<open>0x{:08X}\<close> of 32-bit values.\<close>

definition show_hex :: "32 word \<Rightarrow> string" where
  "show_hex v = ''0x'' @ digits16 lower_hex_digit (unat v)"

definition show_hex_08X :: "32 word \<Rightarrow> string" where
  "show_hex_08X v = (let s = digits16 upper_hex_digit (unat v)
     in ''0x'' @ replicate (8 - length s) (CHR ''0'') @ s)"

lemma show_hex_examples:
  "show_hex 0xC0000034 = ''0xc0000034''"
  "show_hex_08X 0x10 = ''0x00000010''"
  by code_simp+

end
