(* ===== verification/WindowsFile.thy ===== *)
theory WindowsFile
  imports SafeFile Wide
begin

text \<open>
  Root-anchored reads on Windows, \<open>xtask/src/safe_file.rs\<close>: every component is opened relative to its
  parent's handle with \<open>NtCreateFile\<close>, as itself when it is a reparse point, and then refused. The system
  calls are the fields of a record; \<open>windows_volume\<close> states what they mean on a tree of files.
\<close>

section \<open>System calls\<close>

definition FILE_READ_DATA :: u32 where "FILE_READ_DATA = 0x1"
definition FILE_READ_ATTRIBUTES :: u32 where "FILE_READ_ATTRIBUTES = 0x80"
definition SYNCHRONIZE :: u32 where "SYNCHRONIZE = 0x100000"
definition FILE_DIRECTORY_FILE :: u32 where "FILE_DIRECTORY_FILE = 0x1"
definition FILE_SYNCHRONOUS_IO_NONALERT :: u32 where "FILE_SYNCHRONOUS_IO_NONALERT = 0x20"
definition FILE_NON_DIRECTORY_FILE :: u32 where "FILE_NON_DIRECTORY_FILE = 0x40"
definition FILE_OPEN_REPARSE_POINT :: u32 where "FILE_OPEN_REPARSE_POINT = 0x200000"
definition FILE_ATTRIBUTE_REPARSE_POINT :: u32 where "FILE_ATTRIBUTE_REPARSE_POINT = 0x400"
definition FILE_TYPE_DISK :: u32 where "FILE_TYPE_DISK = 0x1"
definition FILE_FLAG_BACKUP_SEMANTICS :: u32 where "FILE_FLAG_BACKUP_SEMANTICS = 0x2000000"
definition FILE_FLAG_OPEN_REPARSE_POINT :: u32 where "FILE_FLAG_OPEN_REPARSE_POINT = 0x200000"

text \<open>
  \<open>wf_create_file\<close> is \<open>CreateFileW\<close> with a path, the desired access and the flags; \<open>wf_nt_create_file\<close> is
  \<open>NtCreateFile\<close> with the parent's handle, the name of one component, the desired access and the options,
  both of existing files, with all sharing allowed and names compared without case. It gives a status
  and, unless it is null or invalid, a handle. \<open>wf_attributes\<close> and \<open>wf_is_directory\<close> are
  \<open>GetFileInformationByHandleEx\<close> for the attribute tag and the standard information.
\<close>

record ('w, 'h) windows_files =
  wf_create_file :: "wide \<Rightarrow> u32 \<Rightarrow> u32 \<Rightarrow> ('w, io_error, 'h) eff"
  wf_nt_create_file :: "'h \<Rightarrow> wide \<Rightarrow> u32 \<Rightarrow> u32 \<Rightarrow> 'w \<Rightarrow> (u32 \<times> 'h option) \<times> 'w"
  wf_attributes :: "'h \<Rightarrow> ('w, io_error, u32) eff"
  wf_file_type :: "'h \<Rightarrow> 'w \<Rightarrow> u32 \<times> 'w"
  wf_is_directory :: "'h \<Rightarrow> ('w, io_error, bool) eff"
  wf_read :: "'h \<Rightarrow> nat \<Rightarrow> ('w, io_error, bytes) eff"

section \<open>Handles\<close>

definition invalid_data :: "string \<Rightarrow> io_error" where
  "invalid_data message = \<lparr>ie_kind = IO_InvalidData, ie_text = message\<rparr>"

definition require_handle_type :: "('w, 'h) windows_files \<Rightarrow> 'h \<Rightarrow> bool \<Rightarrow> ('w, io_error, unit) eff" where
  "require_handle_type ws handle directory =
     bindE (wf_attributes ws handle) (\<lambda>attributes.
     bindE (fail_ifE (and attributes FILE_ATTRIBUTE_REPARSE_POINT \<noteq> 0)
       (invalid_data ''safe path component is a reparse point'')) (\<lambda>_.
     bindE (answerE (wf_file_type ws handle)) (\<lambda>file_type.
     bindE (fail_ifE (file_type \<noteq> FILE_TYPE_DISK) (invalid_data ''safe path handle is not a disk file'')) (\<lambda>_.
     bindE (wf_is_directory ws handle) (\<lambda>is_directory.
     fail_ifE (is_directory \<noteq> directory) (invalid_data
       (if directory then ''safe path component is not a directory''
        else ''safe final path is not a regular file'')))))))"

text \<open>The length of a name in bytes is a 16-bit number, and negative statuses are errors.\<close>

definition nt_open_relative ::
  "('w, 'h) windows_files \<Rightarrow> 'h \<Rightarrow> string \<Rightarrow> bool \<Rightarrow> ('w, io_error, 'h) eff" where
  "nt_open_relative ws parent component directory =
     (let name = encode_wide component in
      bindE (fail_ifE (2 ^ 16 \<le> length name * 2)
        (invalid_input ''safe Windows path component is too long'')) (\<lambda>_.
      let desired = or FILE_READ_ATTRIBUTES (or SYNCHRONIZE (if directory then 0 else FILE_READ_DATA));
          options = or FILE_OPEN_REPARSE_POINT (or FILE_SYNCHRONOUS_IO_NONALERT
            (if directory then FILE_DIRECTORY_FILE else FILE_NON_DIRECTORY_FILE))
      in bindE (answerE (wf_nt_create_file ws parent name desired options)) (\<lambda>(status, opened).
      bindE (liftE (ok_or (if sint status < 0 then None else opened)
        (io_other (''NtCreateFile failed with NTSTATUS '' @ show_hex status)))) (\<lambda>handle.
      bindE (require_handle_type ws handle directory) (\<lambda>_. okE handle)))))"

definition windows_root_open :: "('w, 'h) windows_files \<Rightarrow> string \<Rightarrow> ('w, io_error, 'h) eff" where
  "windows_root_open ws path =
     bindE (wf_create_file ws (encode_wide path @ [0]) (or FILE_READ_ATTRIBUTES SYNCHRONIZE)
       (or FILE_FLAG_BACKUP_SEMANTICS FILE_FLAG_OPEN_REPARSE_POINT)) (\<lambda>directory.
     bindE (require_handle_type ws directory True) (\<lambda>_. okE directory))"

definition windows_open_file :: "('w, 'h) windows_files \<Rightarrow> 'h \<Rightarrow> string list \<Rightarrow> ('w, io_error, 'h) eff" where
  "windows_open_file ws = open_file (nt_open_relative ws)"

section \<open>Paths\<close>

text \<open>
  \<open>Path::is_absolute\<close> and \<open>Path::components\<close> on Windows, as far as this code tells their results apart. A
  path that starts with a prefix or a separator has a first component that is not a plain name, which
  stands here as \<open>RootDir\<close>.
\<close>

definition windows_separators :: "string \<Rightarrow> string" where
  "windows_separators = map (\<lambda>c. if c = char_backslash then CHR ''/'' else c)"

definition has_drive :: "string \<Rightarrow> bool" where
  "has_drive p = (case p of
     a # b # _ \<Rightarrow> (CHR ''a'' \<le> a \<and> a \<le> CHR ''z'' \<or> CHR ''A'' \<le> a \<and> a \<le> CHR ''Z'') \<and> b = CHR '':''
   | _ \<Rightarrow> False)"

definition windows_is_absolute :: "string \<Rightarrow> bool" where
  "windows_is_absolute p =
     (let q = windows_separators p in
      if starts_with q ''//'' then
        let server = takeWhile (\<lambda>c. c \<noteq> CHR ''/'') (drop 2 q);
            share = takeWhile (\<lambda>c. c \<noteq> CHR ''/'') (drop (3 + length server) q)
        in starts_with p [char_backslash, char_backslash, CHR ''?'', char_backslash] \<or> starts_with q ''//./'' \<or>
           server \<noteq> [] \<and> share \<noteq> []
      else has_drive p \<and> starts_with (drop 2 q) ''/'')"

definition windows_path_components :: "string \<Rightarrow> path_component list" where
  "windows_path_components p =
     (if has_drive p then [RootDir] else path_components (windows_separators p))"

definition windows_relative_components :: "string \<Rightarrow> io_error + string list" where
  "windows_relative_components = relative_components_of windows_is_absolute windows_path_components"

definition windows_read_utf8 :: "('w, 'h) windows_files \<Rightarrow> 'h \<Rightarrow> string \<Rightarrow> nat \<Rightarrow> ('w, io_error, string) eff" where
  "windows_read_utf8 ws = read_text windows_relative_components (nt_open_relative ws) (wf_read ws)"

definition windows_read_manifest :: "('w, 'h) windows_files \<Rightarrow> string \<Rightarrow> string \<Rightarrow> ('w, io_error, string) eff" where
  "windows_read_manifest ws root path =
     bindE (windows_root_open ws root) (\<lambda>directory. windows_read_utf8 ws directory path MANIFEST_LIMIT)"

text \<open>A name that passes holds no separator of either kind.\<close>

definition windows_safe_name :: "string \<Rightarrow> bool" where
  "windows_safe_name c \<longleftrightarrow> safe_name c \<and> char_backslash \<notin> set c"

lemma split_char_subset: "part \<in> set (split_char c s) \<Longrightarrow> set part \<subseteq> set s"
  by (induction s arbitrary: part) (force split: if_splits list.splits)+

lemma path_components_chars: "Normal c \<in> set (path_components p) \<Longrightarrow> set c \<subseteq> set p"
  by (auto simp: path_components_def Let_def dest: split_char_subset split: if_splits)

lemma windows_relative_components_Inr:
  assumes "windows_relative_components path = Inr cs"
  shows "cs \<noteq> [] \<and> list_all windows_safe_name cs"
proof -
  from relative_components_of_Inr [OF assms [unfolded windows_relative_components_def]]
  have cs: "cs \<noteq> []" "windows_path_components path = map Normal cs"
    "list_all (\<lambda>v. CHR '':'' \<notin> set v \<and> char_nul \<notin> set v) cs" by simp_all
  then have parts: "path_components (windows_separators path) = map Normal cs"
    by (auto simp: windows_path_components_def split: if_splits)
  have "char_backslash \<notin> set (windows_separators path)"
    by (auto simp: windows_separators_def)
  with parts cs(1,3) path_components_Normal [of _ "windows_separators path"]
    path_components_chars [of _ "windows_separators path"]
  show ?thesis by (fastforce simp: list_all_iff safe_name_def windows_safe_name_def)
qed

section \<open>Volumes\<close>

text \<open>
  Entries are found by a comparison of names, \<open>same\<close>, that ignores case in the volume's way. When handle
  \<open>h\<close> is open on \<open>node h\<close>, \<open>NtCreateFile\<close> with \<open>FILE_OPEN_REPARSE_POINT\<close> opens nothing but the entry of
  that name, the link itself when it is one; it does open a directory when a directory is wanted, and a
  regular file when none is. The attributes tell links, the file type tells what is no disk file. No
  name of a volume is longer than a 16-bit number of bytes can say.
\<close>

fun windows_child :: "(string \<Rightarrow> wide \<Rightarrow> bool) \<Rightarrow> node \<Rightarrow> string \<Rightarrow> node option" where
  "windows_child same (Directory entries) c =
     map_option snd (find (\<lambda>(name, _). same name (encode_wide c)) entries)"
| "windows_child same _ c = None"

fun must_open_nt :: "u32 \<Rightarrow> node option \<Rightarrow> bool" where
  "must_open_nt options (Some (Directory _)) = (and options FILE_DIRECTORY_FILE \<noteq> 0)"
| "must_open_nt options (Some (Regular _)) = (and options FILE_NON_DIRECTORY_FILE \<noteq> 0)"
| "must_open_nt options _ = False"

definition windows_volume ::
  "('w, 'h) windows_files \<Rightarrow> (string \<Rightarrow> wide \<Rightarrow> bool) \<Rightarrow> ('h \<Rightarrow> node) \<Rightarrow> bool" where
  "windows_volume ws same node \<longleftrightarrow>
     (\<forall>h c desired options w. and options FILE_OPEN_REPARSE_POINT \<noteq> 0 \<longrightarrow>
        (case fst (wf_nt_create_file ws h (encode_wide c) desired options w) of (status, opened) \<Rightarrow>
           (\<forall>h'. 0 \<le> sint status \<longrightarrow> opened = Some h' \<longrightarrow> windows_child same (node h) c = Some (node h')) \<and>
           (must_open_nt options (windows_child same (node h) c) \<longrightarrow> 0 \<le> sint status \<and> opened \<noteq> None))) \<and>
     (\<forall>h w. \<exists>a. fst (wf_attributes ws h w) = Inr a \<and>
        (and a FILE_ATTRIBUTE_REPARSE_POINT \<noteq> 0 \<longleftrightarrow> is_symlink (node h))) \<and>
     (\<forall>h w. (fst (wf_file_type ws h w) = FILE_TYPE_DISK) \<longleftrightarrow> node h \<noteq> Special) \<and>
     (\<forall>h w. \<exists>b. fst (wf_is_directory ws h w) = Inr b \<and> (b \<longleftrightarrow> node_type (node h) = FT_Directory)) \<and>
     (\<forall>h n w contents. node h = Regular contents \<longrightarrow> fst (wf_read ws h n w) = Inr (take n contents)) \<and>
     (\<forall>n c m. windows_child same n c = Some m \<longrightarrow> length (encode_wide c) * 2 < 2 ^ 16)"

locale windows_tree =
  fixes ws :: "('w, 'h) windows_files" and same :: "string \<Rightarrow> wide \<Rightarrow> bool" and node :: "'h \<Rightarrow> node"
  assumes volume: "windows_volume ws same node"
begin

lemma handle_type_iff:
  "(\<exists>w'. require_handle_type ws h directory w = (Inr (), w')) \<longleftrightarrow>
   node_type (node h) = (if directory then FT_Directory else FT_Regular)"
proof -
  have laws: "\<exists>a. fst (wf_attributes ws h w) = Inr a \<and> (and a FILE_ATTRIBUTE_REPARSE_POINT \<noteq> 0 \<longleftrightarrow> is_symlink (node h))"
    "(fst (wf_file_type ws h w) = FILE_TYPE_DISK) \<longleftrightarrow> node h \<noteq> Special"
    "\<exists>b. fst (wf_is_directory ws h w) = Inr b \<and> (b \<longleftrightarrow> node_type (node h) = FT_Directory)" for w
    using volume unfolding windows_volume_def by (elim conjE; blast)+
  obtain a w1 where a: "wf_attributes ws h w = (Inr a, w1)"
    "and a FILE_ATTRIBUTE_REPARSE_POINT \<noteq> 0 \<longleftrightarrow> is_symlink (node h)"
    using laws(1) [of w] by (cases "wf_attributes ws h w") auto
  obtain t w2 where t: "wf_file_type ws h w1 = (t, w2)" "t = FILE_TYPE_DISK \<longleftrightarrow> node h \<noteq> Special"
    using laws(2) [of w1] by (cases "wf_file_type ws h w1") auto
  obtain b w3 where b: "wf_is_directory ws h w2 = (Inr b, w3)" "b \<longleftrightarrow> node_type (node h) = FT_Directory"
    using laws(3) [of w2] by (cases "wf_is_directory ws h w2") auto
  from a t b show ?thesis
    by (cases "node h") (auto simp: require_handle_type_def bindE_def answerE_def fail_ifE_def liftE_def fail_if_def)
qed

lemma option_bits:
  "and (or FILE_OPEN_REPARSE_POINT (or FILE_SYNCHRONOUS_IO_NONALERT
     (if directory then FILE_DIRECTORY_FILE else FILE_NON_DIRECTORY_FILE))) FILE_OPEN_REPARSE_POINT \<noteq> 0"
  "must_open_nt (or FILE_OPEN_REPARSE_POINT (or FILE_SYNCHRONOUS_IO_NONALERT
     (if directory then FILE_DIRECTORY_FILE else FILE_NON_DIRECTORY_FILE))) (Some n) \<longleftrightarrow>
   node_type n = (if directory then FT_Directory else FT_Regular)"
  by (simp_all add: FILE_OPEN_REPARSE_POINT_def FILE_SYNCHRONOUS_IO_NONALERT_def FILE_DIRECTORY_FILE_def
      FILE_NON_DIRECTORY_FILE_def) (cases n; simp add: FILE_DIRECTORY_FILE_def FILE_NON_DIRECTORY_FILE_def)

lemma handle_typeD:
  "require_handle_type ws h directory w = (Inr u, w') \<Longrightarrow>
   node_type (node h) = (if directory then FT_Directory else FT_Regular)"
  using handle_type_iff [of h directory w] by (cases u) blast

text \<open>Opening a component, with the name and the options it uses.\<close>

lemma nt_open_relative_Inr:
  "(\<exists>w'. nt_open_relative ws h c directory w = (Inr h', w')) \<longleftrightarrow>
   length (encode_wide c) * 2 < 2 ^ 16 \<and>
   (\<exists>status w1 w2. wf_nt_create_file ws h (encode_wide c)
        (or FILE_READ_ATTRIBUTES (or SYNCHRONIZE (if directory then 0 else FILE_READ_DATA)))
        (or FILE_OPEN_REPARSE_POINT (or FILE_SYNCHRONOUS_IO_NONALERT
          (if directory then FILE_DIRECTORY_FILE else FILE_NON_DIRECTORY_FILE))) w = ((status, Some h'), w1) \<and>
      0 \<le> sint status \<and> require_handle_type ws h' directory w1 = (Inr (), w2))"
  by (auto simp: nt_open_relative_def Let_def bindE_Inr answerE_Inr fail_ifE_Inr liftE_Inr ok_or_Inr okE_Inr
      not_less split: prod.splits if_splits)

lemma nt_law:
  assumes "and options FILE_OPEN_REPARSE_POINT \<noteq> 0"
    and "wf_nt_create_file ws h (encode_wide c) desired options w = ((status, opened), w1)"
  shows "0 \<le> sint status \<Longrightarrow> opened = Some h' \<Longrightarrow> windows_child same (node h) c = Some (node h')"
    "must_open_nt options (windows_child same (node h) c) \<Longrightarrow> 0 \<le> sint status \<and> opened \<noteq> None"
proof -
  have "case fst (wf_nt_create_file ws h (encode_wide c) desired options w) of (status, opened) \<Rightarrow>
      (\<forall>h'. 0 \<le> sint status \<longrightarrow> opened = Some h' \<longrightarrow> windows_child same (node h) c = Some (node h')) \<and>
      (must_open_nt options (windows_child same (node h) c) \<longrightarrow> 0 \<le> sint status \<and> opened \<noteq> None)"
    by (rule volume [unfolded windows_volume_def, THEN conjunct1, THEN spec, THEN spec, THEN spec, THEN spec,
          THEN spec, THEN mp, OF assms(1)])
  with assms(2) show "0 \<le> sint status \<Longrightarrow> opened = Some h' \<Longrightarrow> windows_child same (node h) c = Some (node h')"
    "must_open_nt options (windows_child same (node h) c) \<Longrightarrow> 0 \<le> sint status \<and> opened \<noteq> None"
    by simp_all
qed

sublocale windows: no_follow "nt_open_relative ws" "wf_read ws" node "windows_child same"
proof
  fix h c directory w h' w'
  assume "nt_open_relative ws h c directory w = (Inr h', w')"
  then obtain status w1 w2 where
    opened: "wf_nt_create_file ws h (encode_wide c)
        (or FILE_READ_ATTRIBUTES (or SYNCHRONIZE (if directory then 0 else FILE_READ_DATA)))
        (or FILE_OPEN_REPARSE_POINT (or FILE_SYNCHRONOUS_IO_NONALERT
          (if directory then FILE_DIRECTORY_FILE else FILE_NON_DIRECTORY_FILE))) w = ((status, Some h'), w1)"
      "0 \<le> sint status" and type: "require_handle_type ws h' directory w1 = (Inr (), w2)"
    using nt_open_relative_Inr [of h c directory w h'] by blast
  from nt_law(1) [OF option_bits(1) opened] have "windows_child same (node h) c = Some (node h')" by simp
  with handle_typeD [OF type]
  show "windows_child same (node h) c = Some (node h') \<and>
      node_type (node h') = (if directory then FT_Directory else FT_Regular)" by simp
next
  fix h c n directory w
  let ?desired = "or FILE_READ_ATTRIBUTES (or SYNCHRONIZE (if directory then 0 else FILE_READ_DATA))"
  let ?options = "or FILE_OPEN_REPARSE_POINT (or FILE_SYNCHRONOUS_IO_NONALERT
    (if directory then FILE_DIRECTORY_FILE else FILE_NON_DIRECTORY_FILE))"
  assume n: "windows_child same (node h) c = Some n" "node_type n = (if directory then FT_Directory else FT_Regular)"
  obtain status opened w1 where run: "wf_nt_create_file ws h (encode_wide c) ?desired ?options w = ((status, opened), w1)"
    by (metis prod.collapse)
  note law = nt_law [OF option_bits(1) run]
  from law(2) n option_bits(2) [of directory n] obtain h' where h': "0 \<le> sint status" "opened = Some h'" by auto
  with law(1) n(1) have "node h' = n" by simp
  with n(2) handle_type_iff [of h' directory w1] obtain w2 where
    "require_handle_type ws h' directory w1 = (Inr (), w2)" by auto
  moreover have "length (encode_wide c) * 2 < 2 ^ 16" using volume n(1) unfolding windows_volume_def by blast
  ultimately have "\<exists>w'. nt_open_relative ws h c directory w = (Inr h', w')"
    unfolding nt_open_relative_Inr using run h' by blast
  then show "\<exists>h' w'. nt_open_relative ws h c directory w = (Inr h', w')" by blast
next
  show "windows_child same n c = Some m \<Longrightarrow> node_type n = FT_Directory" for n c m by (cases n) auto
next
  show "node h = Regular contents \<Longrightarrow> fst (wf_read ws h count w) = Inr (take count contents)" for h contents count w
    using volume unfolding windows_volume_def by blast
qed

lemmas read_iff = windows.read_text_iff

end

text \<open>
  C28: on a Windows volume, as on Unix, a read succeeds with a text exactly when the path is a sequence of
  plain names, without a drive, a prefix or an alternate data stream, descending along them from the
  root through directories only ends at a regular file within the limit, and the text is its contents.
  A reparse point on the way, or at its end, is opened as itself and refused.
\<close>

theorem windows_read_exact:
  assumes "windows_volume ws same node"
  shows "fst (windows_read_utf8 ws h path limit w) = Inr content \<longleftrightarrow>
    limit + 1 < 2 ^ 64 \<and>
    (\<exists>cs bytes. windows_relative_components path = Inr cs \<and> list_all windows_safe_name cs \<and>
       descend_by (windows_child same) (node h) cs = Some (Regular bytes) \<and> length bytes \<le> limit \<and>
       from_utf8 bytes = Inr content)"
  using windows_tree.read_iff [OF windows_tree.intro [OF assms], of windows_relative_components path h limit w content]
  by (auto simp: windows_read_utf8_def dest: windows_relative_components_Inr)

section \<open>A concrete volume\<close>

text \<open>Handles that are nodes, and names compared without the case of Latin letters.\<close>

definition upcase :: "u16 \<Rightarrow> u16" where
  "upcase c = (if 97 \<le> c \<and> c \<le> 122 then c - 32 else c)"

definition same_name :: "string \<Rightarrow> wide \<Rightarrow> bool" where
  "same_name name c \<longleftrightarrow> length c \<le> 255 \<and> map upcase (encode_wide name) = map upcase c"

definition tree_volume :: "node \<Rightarrow> ('w, node) windows_files" where
  "tree_volume root =
     \<lparr>wf_create_file = (\<lambda>path desired flags. okE root),
      wf_nt_create_file = (\<lambda>h name desired options w. (case h of
         Directory entries \<Rightarrow> (case find (\<lambda>(n, _). length name \<le> 255 \<and> map upcase (encode_wide n) = map upcase name) entries of
           Some (_, n) \<Rightarrow> (0, Some n)
         | None \<Rightarrow> (0xC0000034, None))
       | _ \<Rightarrow> (0xC0000024, None), w)),
      wf_attributes = (\<lambda>h. okE (if is_symlink h then 0x410 else 0x80)),
      wf_file_type = (\<lambda>h w. (if h = Special then 2 else 1, w)),
      wf_is_directory = (\<lambda>h. okE (node_type h = FT_Directory)),
      wf_read = (\<lambda>h n. okE (case h of Regular bytes \<Rightarrow> take n bytes | _ \<Rightarrow> []))\<rparr>"

lemma tree_is_volume: "windows_volume (tree_volume root) same_name id"
proof -
  have find: "windows_child same_name h c = (case h of
       Directory entries \<Rightarrow> map_option snd (find (\<lambda>(n, _). length (encode_wide c) \<le> 255 \<and>
         map upcase (encode_wide n) = map upcase (encode_wide c)) entries)
     | _ \<Rightarrow> None)" for h c
    by (cases h) (simp_all add: same_name_def)
  have "must_open_nt options n \<Longrightarrow> n \<noteq> None" for options n by (cases n) auto
  moreover have "length (encode_wide c) * 2 < 2 ^ 16" if "windows_child same_name n c = Some m" for n c m
    using that by (cases n) (auto simp: same_name_def find_Some_iff)
  ultimately show ?thesis
    unfolding windows_volume_def tree_volume_def
    by (auto simp: find FILE_ATTRIBUTE_REPARSE_POINT_def FILE_TYPE_DISK_def split: node.splits option.splits)
qed

interpretation volume: windows_tree "tree_volume root" same_name id for root
  by (rule windows_tree.intro [OF tree_is_volume])

lemma windows_reads:
  "fst (windows_read_manifest (tree_volume example_tree) ''C:'' [CHR ''A'', char_backslash, CHR ''b''] ()) = Inr ''hi''"
  "map_sum ie_text id (fst (windows_read_manifest (tree_volume example_tree) ''C:'' ''l/b'' ())) =
     Inl ''safe path component is a reparse point''"
  "map_sum ie_text id (fst (windows_read_manifest (tree_volume example_tree) ''C:'' ''x'' ())) =
     Inl ''NtCreateFile failed with NTSTATUS 0xc0000034''"
  "map_sum ie_text id (fst (windows_read_manifest (tree_volume example_tree) ''C:'' ''C:x'' ())) =
     Inl ''safe file path may not contain prefixes, roots, or traversal''"
  by code_simp+

lemma windows_read_exact_witness:
  "fst (windows_read_utf8 (tree_volume example_tree) example_tree ''A/b'' 5 ()) = Inr ''hi'' \<and>
   descend_by (windows_child same_name) example_tree [''A'', ''b''] = Some (Regular [104, 105])"
proof -
  have cs: "windows_relative_components ''A/b'' = Inr [''A'', ''b'']" by code_simp
  have "from_utf8 [104, 105] = Inr ''hi''"
    "descend_by (windows_child same_name) example_tree [''A'', ''b''] = Some (Regular [104, 105])"
    "list_all windows_safe_name [''A'', ''b'']" by code_simp+
  with windows_read_exact [OF tree_is_volume, of example_tree example_tree "''A/b''" 5 "()" "''hi''"] cs
  show ?thesis by simp
qed

end
