(* ===== verification/Opener.thy ===== *)
theory Opener
  imports Coverage Loops Wide
begin

text \<open>
  Opening the coverage report in a browser where the system is not Linux, \<open>xtask/src/coverage.rs\<close>: the
  opener of macOS, the shell of Windows with the path it is given, and the systems without an opener.
\<close>

section \<open>macOS and other systems\<close>

definition macos_open_canonical_path :: "'w os \<Rightarrow> string \<Rightarrow> ('w, io_error, unit) eff" where
  "macos_open_canonical_path os' path = open_with_command os' (cmd_args [path] (command_new ''open'')) path"

definition other_open_canonical_path :: "'w os \<Rightarrow> string \<Rightarrow> ('w, io_error, unit) eff" where
  "other_open_canonical_path os' path =
     modifyE (os_print os' (''No browser opener is configured for this OS; open '' @ path @ '' manually.''))"

section \<open>Arguments of the Windows shell\<close>

definition windows_wide_argument :: "string \<Rightarrow> io_error + wide" where
  "windows_wide_argument value =
     (let encoded = encode_wide value in
      bindR (fail_if (0 \<in> set encoded)
        \<lparr>ie_kind = IO_InvalidInput, ie_text = ''Windows browser argument contains a NUL code unit''\<rparr>) (\<lambda>_.
      Inr (encoded @ [0])))"

definition BACKSLASH :: u16 where "BACKSLASH = 92"
definition COLON :: u16 where "COLON = 58"

definition VERBATIM_PREFIX :: wide where
  "VERBATIM_PREFIX = [BACKSLASH, BACKSLASH, 63, BACKSLASH]"

definition VERBATIM_UNC_PREFIX :: wide where
  "VERBATIM_UNC_PREFIX = [BACKSLASH, BACKSLASH, 63, BACKSLASH, 85, 78, 67, BACKSLASH]"

definition strip_prefix_wide :: "wide \<Rightarrow> wide \<Rightarrow> wide option" where
  "strip_prefix_wide p s = (if take (length p) s = p then Some (drop (length p) s) else None)"

definition windows_shell_path_argument :: "string \<Rightarrow> io_error + wide" where
  "windows_shell_path_argument value =
     bindR (windows_wide_argument value) (\<lambda>encoded.
     let encoded = butlast encoded in
     bindR (case strip_prefix_wide VERBATIM_UNC_PREFIX encoded of
         Some rest \<Rightarrow> Inr ([BACKSLASH, BACKSLASH] @ rest)
       | None \<Rightarrow> (case strip_prefix_wide VERBATIM_PREFIX encoded of
           Some rest \<Rightarrow>
             if length rest < 3 \<or> rest ! 1 \<noteq> COLON \<or> rest ! 2 \<noteq> BACKSLASH
             then Inl \<lparr>ie_kind = IO_InvalidInput, ie_text = ''canonical Windows browser path is not a drive or UNC path''\<rparr>
             else Inr rest
         | None \<Rightarrow> Inr encoded)) (\<lambda>shell_path.
     Inr (shell_path @ [0])))"

section \<open>The Windows shell\<close>

definition COINIT_APARTMENTTHREADED :: u32 where "COINIT_APARTMENTTHREADED = 2"
definition COINIT_DISABLE_OLE1DDE :: u32 where "COINIT_DISABLE_OLE1DDE = 4"
definition SW_SHOW :: u32 where "SW_SHOW = 5"

text \<open>
  \<open>CoInitializeEx\<close> with its flags, whose result is negative on failure; \<open>CoUninitialize\<close>; and \<open>ShellExecuteW\<close>
  with the operation, the path and how to show it, whose result is above 32 on success.
\<close>

record 'w windows_shell =
  ws_co_initialize :: "u32 \<Rightarrow> 'w \<Rightarrow> u32 \<times> 'w"
  ws_co_uninitialize :: "'w \<Rightarrow> 'w"
  ws_shell_execute :: "wide \<Rightarrow> wide \<Rightarrow> u32 \<Rightarrow> 'w \<Rightarrow> u64 \<times> 'w"

text \<open>The apartment's guard is dropped on every path that follows it.\<close>

definition with_drop :: "('w \<Rightarrow> 'w) \<Rightarrow> ('w, 'e, 'a) eff \<Rightarrow> ('w, 'e, 'a) eff" where
  "with_drop dropped m = (\<lambda>w. case m w of (r, w') \<Rightarrow> (r, dropped w'))"

definition windows_open_canonical_path :: "'w windows_shell \<Rightarrow> string \<Rightarrow> ('w, io_error, unit) eff" where
  "windows_open_canonical_path ws path =
     bindE (answerE (ws_co_initialize ws (or COINIT_APARTMENTTHREADED COINIT_DISABLE_OLE1DDE))) (\<lambda>com_result.
     bindE (fail_ifE (sint com_result < 0)
       (io_other (''Windows could not initialize the browser shell apartment (HRESULT '' @ show_hex_08X com_result
          @ ''); open '' @ path @ '' manually''))) (\<lambda>_.
     with_drop (ws_co_uninitialize ws)
       (bindE (liftE (windows_wide_argument ''open'')) (\<lambda>operation.
        bindE (liftE (windows_shell_path_argument path)) (\<lambda>shell_path.
        bindE (answerE (ws_shell_execute ws operation shell_path SW_SHOW)) (\<lambda>result.
        fail_ifE (sint result \<le> 32)
          (io_other (''Windows could not open the browser path (code '' @ show_nat (unat result)
             @ ''); open '' @ path @ '' manually''))))))))"

lemma shell_path_examples:
  "windows_shell_path_argument (map (\<lambda>c. if c = CHR ''/'' then char_backslash else c) ''//?/C:/r/i.html'') =
     Inr (encode_wide (map (\<lambda>c. if c = CHR ''/'' then char_backslash else c) ''C:/r/i.html'') @ [0])"
  "windows_shell_path_argument (map (\<lambda>c. if c = CHR ''/'' then char_backslash else c) ''//?/UNC/s/r'') =
     Inr (encode_wide (map (\<lambda>c. if c = CHR ''/'' then char_backslash else c) ''//s/r'') @ [0])"
  "map_sum ie_text id (windows_shell_path_argument
     (map (\<lambda>c. if c = CHR ''/'' then char_backslash else c) ''//?/GLOBALROOT/x'')) =
     Inl ''canonical Windows browser path is not a drive or UNC path''"
  by code_simp+

section \<open>What the shell is given\<close>

text \<open>
  The verbatim form of a drive or UNC path, which is what \<open>canonicalize\<close> gives, and the events of an
  opening in their order.
\<close>

definition verbatim :: "wide \<Rightarrow> wide" where
  "verbatim q =
     (if take 2 q = [BACKSLASH, BACKSLASH] then VERBATIM_UNC_PREFIX @ drop 2 q else VERBATIM_PREFIX @ q)"

definition browsable :: "wide \<Rightarrow> bool" where
  "browsable q \<longleftrightarrow> 0 \<notin> set q \<and>
     ((\<exists>rest. q = BACKSLASH # BACKSLASH # rest) \<or> (\<exists>d rest. q = d # COLON # BACKSLASH # rest))"

lemma shell_path_of_verbatim:
  assumes "encode_wide path = verbatim q" and "browsable q"
  shows "windows_shell_path_argument path = Inr (q @ [0])"
proof -
  have "0 \<notin> set (encode_wide path)"
    using assms by (auto simp: verbatim_def browsable_def VERBATIM_PREFIX_def VERBATIM_UNC_PREFIX_def
        BACKSLASH_def dest: in_set_dropD)
  then have "windows_wide_argument path = Inr (verbatim q @ [0])"
    using assms(1) by (simp add: windows_wide_argument_def bindR_def fail_if_def Let_def)
  moreover from assms(2) consider rest where "q = BACKSLASH # BACKSLASH # rest"
    | d rest where "q = d # COLON # BACKSLASH # rest" by (auto simp: browsable_def)
  then have "(case strip_prefix_wide VERBATIM_UNC_PREFIX (verbatim q) of
         Some rest \<Rightarrow> Inr ([BACKSLASH, BACKSLASH] @ rest)
       | None \<Rightarrow> (case strip_prefix_wide VERBATIM_PREFIX (verbatim q) of
           Some rest \<Rightarrow>
             if length rest < 3 \<or> rest ! 1 \<noteq> COLON \<or> rest ! 2 \<noteq> BACKSLASH
             then Inl \<lparr>ie_kind = IO_InvalidInput, ie_text = ''canonical Windows browser path is not a drive or UNC path''\<rparr>
             else Inr rest
         | None \<Rightarrow> Inr (verbatim q))) = Inr q"
    by cases (simp_all add: verbatim_def strip_prefix_wide_def VERBATIM_PREFIX_def VERBATIM_UNC_PREFIX_def
        BACKSLASH_def COLON_def)
  ultimately show ?thesis by (simp add: windows_shell_path_argument_def bindR_def)
qed

datatype shell_event = Initialized u32 | Executed wide wide u64 | Uninitialized

definition logged_windows_shell :: "'w windows_shell \<Rightarrow> ('w \<times> shell_event list) windows_shell" where
  "logged_windows_shell ws =
     \<lparr>ws_co_initialize = (\<lambda>flags (w, l). case ws_co_initialize ws flags w of (status, w') \<Rightarrow>
        (status, (w', l @ [Initialized status]))),
      ws_co_uninitialize = (\<lambda>(w, l). (ws_co_uninitialize ws w, l @ [Uninitialized])),
      ws_shell_execute = (\<lambda>operation path how (w, l). case ws_shell_execute ws operation path how w of (code, w') \<Rightarrow>
        (code, (w', l @ [Executed operation path code])))\<rparr>"

text \<open>
  C38: opening the report on Windows. For the verbatim form of a drive or UNC path the shell is given that
  path itself, as data of the operation \<open>open\<close>, between the initialization of the apartment and its
  release; the apartment is released exactly when its initialization succeeded, and the opening succeeds
  exactly when the shell's code says so.
\<close>

theorem windows_open_exact:
  assumes "encode_wide path = verbatim q" and "browsable q"
    and "windows_open_canonical_path (logged_windows_shell ws) path (w, []) = (r, (w', l))"
  shows "(\<exists>status. l = [Initialized status] \<and> sint status < 0 \<and> r \<noteq> Inr ()) \<or>
    (\<exists>status code. l = [Initialized status, Executed (encode_wide ''open'' @ [0]) (q @ [0]) code, Uninitialized] \<and>
       0 \<le> sint status \<and> (r = Inr () \<longleftrightarrow> 32 < sint code))"
proof -
  have operation: "windows_wide_argument ''open'' = Inr (encode_wide ''open'' @ [0])" by code_simp
  obtain status w1 where init: "ws_co_initialize ws (or COINIT_APARTMENTTHREADED COINIT_DISABLE_OLE1DDE) w = (status, w1)"
    by fastforce
  obtain code w2 where executed: "ws_shell_execute ws (encode_wide ''open'' @ [0]) (q @ [0]) SW_SHOW w1 = (code, w2)"
    by fastforce
  note run = assms(3) [unfolded windows_open_canonical_path_def shell_path_of_verbatim [OF assms(1,2)] operation]
  show ?thesis
  proof (cases "sint status < 0")
    case True
    with run init show ?thesis
      by (auto simp: bindE_def answerE_def fail_ifE_def liftE_def fail_if_def logged_windows_shell_def)
  next
    case False
    note step = bindE_def answerE_def fail_ifE_def liftE_def fail_if_def with_drop_def logged_windows_shell_def
    show ?thesis
    proof (cases "sint code \<le> 32")
      case True
      with False run init executed
      have "l = [Initialized status, Executed (encode_wide ''open'' @ [0]) (q @ [0]) code, Uninitialized]" "r \<noteq> Inr ()"
        by (auto simp: step)
      with True False show ?thesis by simp
    next
      case shown: False
      with False run init executed
      have "l = [Initialized status, Executed (encode_wide ''open'' @ [0]) (q @ [0]) code, Uninitialized]" "r = Inr ()"
        by (simp_all add: step)
      with shown False show ?thesis by simp
    qed
  qed
qed

definition example_windows_shell :: "u64 windows_shell" where
  "example_windows_shell =
     \<lparr>ws_co_initialize = (\<lambda>flags w. (0, w)), ws_co_uninitialize = id,
      ws_shell_execute = (\<lambda>operation path how w. (w, w))\<rparr>"

lemma windows_open_exact_witness:
  "let path = map (\<lambda>c. if c = CHR ''/'' then char_backslash else c) ''//?/C:/i''; q = [67, 58, 92, 105]
   in encode_wide path = verbatim q \<and> browsable q \<and>
     windows_open_canonical_path (logged_windows_shell example_windows_shell) path (42, []) =
       (Inr (), (42, [Initialized 0, Executed [111, 112, 101, 110, 0] (q @ [0]) 42, Uninitialized]))"
proof -
  let ?path = "map (\<lambda>c. if c = CHR ''/'' then char_backslash else c) ''//?/C:/i''"
  let ?q = "[67, 58, 92, 105] :: wide"
  have path: "encode_wide ?path = verbatim ?q" by code_simp
  have browsable: "browsable ?q" by (simp add: browsable_def COLON_def BACKSLASH_def)
  have run: "windows_open_canonical_path (logged_windows_shell example_windows_shell) ?path (42, []) =
      (Inr (), (42, [Initialized 0, Executed [111, 112, 101, 110, 0] (?q @ [0]) 42, Uninitialized]))" by code_simp
  from windows_open_exact [OF path browsable run] run path browsable show ?thesis by simp
qed

end
