(* ===== verification/CheckFixtures.thy ===== *)
theory CheckFixtures
  imports Coverage Fixtures
begin

text \<open>
  Concrete runs of the check and coverage commands: a machine whose state says whether the report
  exists, where removing it succeeds and every command that runs writes it.
\<close>

definition coverage_os :: "bool os" where
  "coverage_os = (scripted_os (script_of []) Map.empty Map.empty)
     \<lparr>os_status := \<lambda>c w. (Inr (True, ''exit status: 0''), True)\<rparr>"

definition coverage_shell :: "bool shell" where
  "coverage_shell =
     \<lparr>sh_capture = (\<lambda>c. okE \<lparr>out_success = True, out_status = ''exit status: 0'', out_stdout = [],
        out_stderr = []\<rparr>),
      sh_exists = (\<lambda>p. okE False), sh_remove = (\<lambda>p w. (Inr (), False)), sh_is_file = (\<lambda>p w. w),
      sh_canonicalize = okE, sh_debug = id\<rparr>"

definition all_features :: FeatureArgs where
  "all_features = \<lparr>fe_all_features = False, fe_features = [], fe_no_default_features = False\<rparr>"

definition two_checks :: CheckArgs where
  "two_checks = \<lparr>ca_only = [Step_Audit, Step_Fmt], ca_exclude = [], ca_features = all_features\<rparr>"

lemma coverage_cargo: "cargo_program coverage_os w = ''cargo''"
  by (simp add: cargo_program_def coverage_os_def scripted_os_def)


definition llvm_coverage :: CoverageOptions where
  "llvm_coverage = \<lparr>co_engine = LlvmCov, co_features = all_features\<rparr>"

theorem coverage_fresh_witness:
  "\<exists>w l cargo path. coverage_run (logged_os coverage_os) (logged_shell coverage_shell) ''/repo''
      llvm_coverage True (True, []) = (Inr (), (w, l)) \<and>
    l = Captured (spec_command (pb_command (coverage_probe LlvmCov)) ''/repo'')
          # command_plan ''/repo'' (coverage_commands cargo llvm_coverage) @ [opener path]"
proof -
  obtain w l where run: "coverage_run (logged_os coverage_os) (logged_shell coverage_shell) ''/repo''
      llvm_coverage True (True, []) = (Inr (), (w, l))"
  proof -
    have "fst (coverage_run (logged_os coverage_os) (logged_shell coverage_shell) ''/repo''
      llvm_coverage True (True, [])) = Inr ()" by code_simp
    then show thesis by (metis prod.collapse that)
  qed
  have law: "\<not> sh_is_file coverage_shell p v'" if "gone coverage_shell p v v'" for p v v'
    using that by (simp add: gone_def coverage_shell_def)
  let ?report = "coverage_report ''/repo'' llvm_coverage"
  have "\<exists>cargo w1 w2 seen. \<not> sh_is_file coverage_shell ?report w1 \<and>
      forE (coverage_commands cargo llvm_coverage) (spec_run coverage_os coverage_shell ''/repo'') w1 =
        (Inr (), w2) \<and>
      sh_is_file coverage_shell ?report w2 \<and>
      l = Captured (spec_command (pb_command (coverage_probe (co_engine llvm_coverage))) ''/repo'')
            # command_plan ''/repo'' (coverage_commands cargo llvm_coverage) @ seen \<and>
      (if True then \<exists>path. seen = [opener path] else seen = [])"
    by (rule coverage_fresh [OF _ run]) (simp_all add: law)
  then obtain cargo path where
    "l = Captured (spec_command (pb_command (coverage_probe LlvmCov)) ''/repo'')
            # command_plan ''/repo'' (coverage_commands cargo llvm_coverage) @ [opener path]"
    by (auto simp: llvm_coverage_def)
  with run show ?thesis by blast
qed

end
