(* ===== verification/ArchiveInventory.thy ===== *)
theory ArchiveInventory
  imports CrateArchive Workspace
begin

text \<open>
  The inventory digest of an inspected archive, in \<open>crate_archive.rs\<close>: the text that is hashed, and that it
  determines the archive's files up to collisions of the digests of their bodies.
\<close>

section \<open>The digest\<close>

text \<open>What one call adds to the hashed text: the value and a zero octet.\<close>

definition inventory_value :: "bytes \<Rightarrow> bytes" where
  "inventory_value val = val @ [0]"

definition inventory_fields :: "archive_tools \<Rightarrow> string \<times> ArchiveFile \<Rightarrow> string list" where
  "inventory_fields t = (\<lambda>(path, file). let m = af_metadata file in
     [path,
      ''header-sha256='' @ am_header_sha256 m,
      ''entry-type='' @ show_nat (unat (am_entry_type m)),
      ''mode='' @ show_nat (unat (am_mode m)),
      ''uid='' @ hex (am_uid m),
      ''gid='' @ hex (am_gid m),
      ''mtime='' @ show_nat (unat (am_mtime m)),
      ''username='' @ hex (am_username m),
      ''groupname='' @ hex (am_groupname m),
      ''device-major='' @ hex (am_device_major m),
      ''device-minor='' @ hex (am_device_minor m),
      ''size='' @ show_nat (length (af_body file)),
      ''sha256='' @ hex (at_sha256 t (af_body file))])"

definition archive_inventory :: "archive_tools \<Rightarrow> archive_files \<Rightarrow> bytes" where
  "archive_inventory t files =
     concat (map (\<lambda>s. inventory_value (as_bytes s))
       (''yaml-sigil-crate-inventory-v1'' # concat (map (inventory_fields t) files)))"

definition archive_inventory_sha256 :: "archive_tools \<Rightarrow> archive_files \<Rightarrow> string" where
  "archive_inventory_sha256 t files = hex (at_sha256 t (archive_inventory t files))"

definition inspect_archive_with_limit ::
  "archive_tools \<Rightarrow> bytes \<Rightarrow> package_policy \<Rightarrow> string \<Rightarrow> string \<Rightarrow> nat \<Rightarrow> (string \<times> bytes) list result" where
  "inspect_archive_with_limit t archive policy ver commit decompressed_limit =
     bindR (inspect_archive_entries_with_limit t archive policy ver (Some commit) decompressed_limit) (\<lambda>entries.
     Inr (map (\<lambda>(path, file). (path, af_body file)) entries))"

definition inspect_archive ::
  "archive_tools \<Rightarrow> bytes \<Rightarrow> package_policy \<Rightarrow> string \<Rightarrow> string \<Rightarrow> (string \<times> bytes) list result" where
  "inspect_archive t archive policy ver commit =
     inspect_archive_with_limit t archive policy ver commit MAX_CRATE_DECOMPRESSED_BYTES"

section \<open>Values without zero octets\<close>

definition nul_free :: "string \<Rightarrow> bool" where
  "nul_free s \<longleftrightarrow> char_nul \<notin> set s"

lemma nul_free_simps [simp]:
  "nul_free []" "nul_free (s @ t) \<longleftrightarrow> nul_free s \<and> nul_free t" "nul_free (c # s) \<longleftrightarrow> c \<noteq> char_nul \<and> nul_free s"
  by (auto simp: nul_free_def)

lemma char_nul_value [simp]: "(of_char c :: nat) = 0 \<longleftrightarrow> c = char_nul"
proof
  assume "(of_char c :: nat) = 0"
  then have "of_char c = (of_char char_nul :: nat)" by simp
  then show "c = char_nul" by (simp only: of_char_eq_iff)
qed simp

lemma as_bytes_nul:
  assumes "nul_free s"
  shows "0 \<notin> set (as_bytes s)"
proof
  assume "0 \<in> set (as_bytes s)"
  then obtain c where c: "c \<in> set s" "(of_nat (of_char c) :: u8) = 0" by (auto simp: as_bytes_def)
  then have "of_char c = (0 :: nat)" by (metis unat_of_char unat_0)
  then have "c = char_nul" by simp
  with assms c(1) show False by (simp add: nul_free_def)
qed

lemma show_nat_nul [simp]: "nul_free (show_nat n)"
  using show_nat_digits [of n] by (auto simp: nul_free_def list_all_iff is_ascii_digit_iff)

lemma lower_hex_digit_value: "d < 16 \<Longrightarrow> of_char (lower_hex_digit d) = (if d < 10 then 48 + d else 87 + d :: nat)"
  by (simp add: lower_hex_digit_def of_char_of)

lemma lower_hex_digit_apart:
  "d < 16 \<Longrightarrow> e < 16 \<Longrightarrow> (if d < 10 then 48 + d else 87 + d) = (if e < 10 then 48 + e else 87 + e :: nat) \<Longrightarrow> d = e"
  by (simp split: if_splits)

lemma lower_hex_digit_inject: "d < 16 \<Longrightarrow> e < 16 \<Longrightarrow> lower_hex_digit d = lower_hex_digit e \<longleftrightarrow> d = e"
  by (metis lower_hex_digit_value lower_hex_digit_apart)

lemma octet_digits:
  fixes b :: u8
  shows "unat b div 16 < 16" "unat b mod 16 < 16"
  using unsigned_less [of b, where 'a = nat] by simp_all

lemma hex_nul [simp]: "nul_free (hex bs)"
proof (induction bs)
  case (Cons b bs)
  have "lower_hex_digit d \<noteq> char_nul" if "d < 16" for d
    using lower_hex_digit_value [OF that] by (auto split: if_splits)
  with Cons octet_digits [of b] show ?case by simp
qed simp

lemma hex_inject [simp]: "hex as = hex bs \<longleftrightarrow> as = bs"
proof (induction as arbitrary: bs)
  case Nil
  show ?case by (cases bs) simp_all
next
  case (Cons a as)
  show ?case
  proof (cases bs)
    case (Cons b bs')
    have "unat a div 16 = unat b div 16 \<and> unat a mod 16 = unat b mod 16 \<longleftrightarrow> a = b"
      by (metis div_mult_mod_eq word_unat_eq_iff)
    with Cons Cons.IH octet_digits [of a] octet_digits [of b] show ?thesis
      by (auto simp: lower_hex_digit_inject)
  qed simp
qed

section \<open>The inventory determines the archive\<close>

lemma zero_terminated_inject:
  assumes "list_all (\<lambda>p. (0 :: u8) \<notin> set p) ps" and "list_all (\<lambda>q. 0 \<notin> set q) qs"
    and "concat (map inventory_value ps) = concat (map inventory_value qs)"
  shows "ps = qs"
proof (cases "ps = [] \<or> qs = []")
  case True
  with assms(3) show ?thesis by (cases ps; cases qs) (auto simp: inventory_value_def)
next
  case False
  from assms(3) have "split_nul (butlast (concat (map (\<lambda>p. p @ [0]) ps))) = split_nul (butlast (concat (map (\<lambda>p. p @ [0]) qs)))"
    by (simp add: inventory_value_def [abs_def])
  with False assms(1,2) show ?thesis by (simp add: split_nul_terminated)
qed

lemma concat_blocks:
  assumes "\<And>x. length (f x) = n" and "0 < n"
  shows "concat (map f xs) = concat (map f ys) \<Longrightarrow> map f xs = map f ys"
proof (induction xs arbitrary: ys)
  case Nil
  with assms show ?case by (cases ys) (auto simp flip: length_0_conv)
next
  case (Cons x xs)
  with assms show ?case by (cases ys) (auto simp flip: length_0_conv)
qed

text \<open>What the inventory says of one file.\<close>

definition inventoried :: "archive_tools \<Rightarrow> string \<times> ArchiveFile \<Rightarrow> string \<times> ArchiveMetadata \<times> nat \<times> bytes" where
  "inventoried t = (\<lambda>(path, file). (path, af_metadata file, length (af_body file), at_sha256 t (af_body file)))"

definition plain_entry :: "string \<times> ArchiveFile \<Rightarrow> bool" where
  "plain_entry = (\<lambda>(path, file). nul_free path \<and> nul_free (am_header_sha256 (af_metadata file)))"

lemma inventory_fields_length: "length (inventory_fields t e) = 13"
  by (cases e) (simp add: inventory_fields_def Let_def)

lemma inventory_fields_plain: "plain_entry e \<Longrightarrow> list_all nul_free (inventory_fields t e)"
  by (cases e) (simp add: inventory_fields_def plain_entry_def Let_def)

lemma inventory_fields_inject: "inventory_fields t e = inventory_fields t e' \<longleftrightarrow> inventoried t e = inventoried t e'"
  by (cases e; cases e') (auto simp: inventory_fields_def inventoried_def Let_def word_unat_eq_iff
      intro: ArchiveMetadata.equality)

lemma map_eq_transfer:
  assumes "map f xs = map f ys" and "\<And>x y. f x = f y \<Longrightarrow> g x = g y"
  shows "map g xs = map g ys"
  using assms(1)
proof (induction xs arbitrary: ys)
  case (Cons x xs)
  then obtain y ys' where "ys = y # ys'" and "f x = f y" and "map f xs = map f ys'" by (cases ys) simp_all
  with Cons.IH [OF this(3)] assms(2) [OF this(2)] show ?case by simp
qed simp

lemma inventory_fields_map:
  "map (inventory_fields t) fs = map (inventory_fields t) fs' \<Longrightarrow>
     map (inventoried t) fs = map (inventoried t) fs'"
  by (erule map_eq_transfer) (simp add: inventory_fields_inject)

lemma inventory_inject:
  assumes "list_all plain_entry files" and "list_all plain_entry files'"
    and "archive_inventory t files = archive_inventory t files'"
  shows "map (inventoried t) files = map (inventoried t) files'"
proof -
  let ?all = "\<lambda>fs. ''yaml-sigil-crate-inventory-v1'' # concat (map (inventory_fields t) fs)"
  have plain: "list_all (\<lambda>p. 0 \<notin> set p) (map as_bytes (?all fs))" if "list_all plain_entry fs" for fs
    using that inventory_fields_plain by (fastforce simp: list_all_iff as_bytes_nul)
  from assms(3) have "map as_bytes (?all files) = map as_bytes (?all files')"
    by (intro zero_terminated_inject plain assms) (simp add: archive_inventory_def comp_def)
  then have "?all files = ?all files'" by (rule map_injective) (simp add: inj_def)
  then have "map (inventory_fields t) files = map (inventory_fields t) files'"
    by (intro concat_blocks [OF inventory_fields_length]) simp_all
  then show ?thesis by (rule inventory_fields_map)
qed

text \<open>The files of an archive that passed its inspection.\<close>

lemma metadata_hashed:
  "cargo_archive_metadata t header package = Inr m \<Longrightarrow> nul_free (am_header_sha256 m)"
  by (auto simp: cargo_archive_metadata_def Let_def res_simps)

lemma relative_nul_free: "safe_relative_path p \<Longrightarrow> nul_free p"
  by (auto simp: safe_relative_path_def nul_free_def list_all_iff)

lemma inspect_entries_plain:
  assumes "archive_inv st" and "list_all plain_entry (fst st)" and "inspect_entries t package prefix es st = Inr st'"
  shows "list_all plain_entry (fst st')"
  using assms
proof (induction es arbitrary: st)
  case (Cons e es)
  then obtain st1 where one: "inspect_entry t package prefix e st = Inr st1"
    and rest: "inspect_entries t package prefix es st1 = Inr st'" by (auto simp: res_simps)
  obtain files count tot where st: "st = (files, count, tot)" by (cases st)
  from inspect_entry_Inr [OF one [unfolded st]] obtain entry :: tar_entry and md rel body c s where
    md: "cargo_archive_metadata t (te_header entry) package = Inr md"
    and st1: "st1 = (bt_insert rel \<lparr>af_body = body, af_metadata = md\<rparr> files, c, s)" by blast
  have ok: "bt_ok files" using Cons.prems(1) st by (simp add: archive_inv_def)
  have inv: "archive_inv st1" by (rule inspect_entry_inv [OF Cons.prems(1) one])
  have "(rel, \<lparr>af_body = body, af_metadata = md\<rparr>) \<in> set (fst st1)"
    by (simp add: st1 bt_insert_entries [OF ok])
  with inv st1 have "safe_relative_path rel" by (fastforce simp: archive_inv_def list_all_iff)
  with Cons.prems(2) st st1 metadata_hashed [OF md] have "list_all plain_entry (fst st1)"
    by (auto simp: list_all_iff bt_insert_entries [OF ok] plain_entry_def relative_nul_free)
  from Cons.IH [OF inv this rest] show ?case .
qed simp

theorem inspected_plain:
  assumes "inspect_archive_entries_with_limit t archive policy ver commit limit = Inr files"
  shows "list_all plain_entry files"
proof -
  obtain package prefix es c s where
    "inspect_entries t package prefix es ([], 0, 0) = Inr (files, c, s)"
    using assms by (auto simp: inspect_archive_entries_with_limit_def Let_def res_simps split: prod.splits if_splits)
  moreover have "archive_inv ([], 0, 0)" by (simp add: archive_inv_def body_bytes_def)
  ultimately show ?thesis using inspect_entries_plain by fastforce
qed

text \<open>
  Two archives that pass their inspection and have the same inventory have the same files, with the same
  metadata and the same bodies, unless two of their bodies collide.
\<close>

lemma inventory_determines:
  assumes "inspect_archive_entries_with_limit t archive policy ver commit limit = Inr files"
    and "inspect_archive_entries_with_limit t archive' policy' ver' commit' limit' = Inr files'"
    and "archive_inventory t files = archive_inventory t files'"
    and "inj_on (at_sha256 t) (af_body ` snd ` (set files \<union> set files'))"
  shows "files = files'"
proof (rule map_inj_on)
  show "map (inventoried t) files = map (inventoried t) files'"
    using assms(1-3) by (intro inventory_inject inspected_plain)
  show "inj_on (inventoried t) (set files \<union> set files')"
  proof (rule inj_onI, clarify)
    fix p a q b
    assume members: "(p, a) \<in> set files \<union> set files'" "(q, b) \<in> set files \<union> set files'"
      and same: "inventoried t (p, a) = inventoried t (q, b)"
    from members have bodies: "af_body a \<in> af_body ` snd ` (set files \<union> set files')"
      "af_body b \<in> af_body ` snd ` (set files \<union> set files')" by force+
    from same have "at_sha256 t (af_body a) = at_sha256 t (af_body b)" by (simp add: inventoried_def)
    from inj_onD [OF assms(4) this bodies] same show "p = q \<and> a = b"
      by (simp add: inventoried_def)
  qed
qed

end
