(* ===== verification/ProvenanceSafety.thy ===== *)
theory ProvenanceSafety
  imports FinalizeSafety
begin

text \<open>
  What a verified binding has seen: the reads of \<open>verify\<close> on a logged transport, in order, and what
  each answer said.
\<close>

section \<open>Answers\<close>

definition told :: "string \<Rightarrow> ('j \<Rightarrow> bool) \<Rightarrow> 'j event \<Rightarrow> bool" where
  "told path P e \<longleftrightarrow> (case e of Got p (Inr (Some j)) \<Rightarrow> p = path \<and> P j | _ \<Rightarrow> False)"

text \<open>The branch \<open>refs/<branch>\<close> is at the commit \<open>sha\<close>.\<close>

definition tip_is :: "'j serde \<Rightarrow> string \<Rightarrow> string \<Rightarrow> 'j event \<Rightarrow> bool" where
  "tip_is de base sha = told (refs_path (''ref/'' @ drop 5 base)) (\<lambda>j. case de_support_ref de j of
     Inl _ \<Rightarrow> False
   | Inr r \<Rightarrow> gr_name r = base \<and> go_kind (gr_object r) = ''commit'' \<and> go_sha (gr_object r) = sha \<and> is_sha sha)"

text \<open>The commit \<open>source\<close> is on the history of \<open>tip\<close>: the merge base of the two is \<open>source\<close>.\<close>

definition contains :: "'j serde \<Rightarrow> string \<Rightarrow> string \<Rightarrow> 'j event \<Rightarrow> bool" where
  "contains de source tip = told (compare_path source tip) (\<lambda>j. case de_base_comparison de j of
     Inl _ \<Rightarrow> False
   | Inr c \<Rightarrow> cm_status c \<in> {''ahead'', ''identical''} \<and> go_sha (cm_base_commit c) = source \<and>
       go_sha (cm_merge_base_commit c) = source)"

text \<open>The histories of \<open>commit\<close> and \<open>main\<close> part at \<open>anchor\<close>.\<close>

definition parts_at :: "'j serde \<Rightarrow> string \<Rightarrow> string \<Rightarrow> string \<Rightarrow> 'j event \<Rightarrow> bool" where
  "parts_at de anchor main commit = told (compare_path commit main) (\<lambda>j. case de_base_comparison de j of
     Inl _ \<Rightarrow> False
   | Inr c \<Rightarrow> go_sha (cm_base_commit c) = commit \<and> go_sha (cm_merge_base_commit c) = anchor)"

definition binding_evidence :: "'j serde \<Rightarrow> Binding \<Rightarrow> string \<Rightarrow> ('j event \<Rightarrow> bool) list" where
  "binding_evidence de b base =
     [tip_is de (base_ref (bn_line b)) base, contains de (bn_source b) base] @
     (case bn_anchor b of
        None \<Rightarrow> []
      | Some anchor \<Rightarrow> [parts_at de anchor (bn_main b) (bn_source b), parts_at de anchor (bn_main b) base]) @
     [tip_is de (base_ref (bn_line b)) base, tip_is de ''refs/heads/main'' (bn_main b)]"

section \<open>Reads on a log\<close>

lemma logged_get:
  assumes "get (log_transport gh) de path (w, l) = (Inr x, (w', l'))"
  obtains j where "l' = Got path (Inr (Some j)) # l" "de j = Inr x"
  using assms
  by (auto simp: get_def log_transport_def answered_def decode_def bindE_def liftE_def map_err_Inr
      split: prod.splits sum.splits)

lemma logged_read_ref:
  assumes "read_ref de (log_transport gh) base (w, l) = (Inr sha, (w', l'))"
  obtains e where "l' = e # l" "tip_is de base sha e"
proof -
  from assms obtain branch where branch: "base = ''refs/'' @ branch"
    by (auto simp: read_ref_def res_simps strip_prefix_Some)
  with assms show thesis
    by (auto simp: read_ref_def res_simps tip_is_def told_def elim!: logged_get that)
qed

lemma logged_compare:
  assumes "compare de (log_transport gh) source tip (w, l) = (Inr c, (w', l'))"
  obtains j where "l' = Got (compare_path source tip) (Inr (Some j)) # l" "de_base_comparison de j = Inr c"
  using assms unfolding compare_def by (rule logged_get)

lemma logged_anchor:
  assumes "verify_anchor de (log_transport gh) anchor main commit (w, l) = (Inr (), (w', l'))"
  obtains e where "l' = e # l" "parts_at de anchor main commit e"
  using assms
  by (auto simp: verify_anchor_def res_simps parts_at_def told_def elim!: logged_compare that)

definition anchor_evidence :: "'j serde \<Rightarrow> Binding \<Rightarrow> string \<Rightarrow> ('j event \<Rightarrow> bool) list" where
  "anchor_evidence de b base = (case bn_anchor b of
     None \<Rightarrow> []
   | Some anchor \<Rightarrow> [parts_at de anchor (bn_main b) (bn_source b), parts_at de anchor (bn_main b) base])"

lemma logged_anchors:
  assumes "(case bn_anchor b of
       None \<Rightarrow> okE ()
     | Some anchor \<Rightarrow> forE [bn_source b, base] (verify_anchor de (log_transport gh) anchor (bn_main b))) s
     = (Inr (), s')"
  obtains as where "snd s' = rev as @ snd s" "list_all2 (\<lambda>P e. P e) (anchor_evidence de b base) as"
proof (cases "bn_anchor b")
  case None
  with assms that [of "[]"] show thesis by (simp add: res_simps anchor_evidence_def)
next
  case (Some anchor)
  with assms obtain t where
    "verify_anchor de (log_transport gh) anchor (bn_main b) (bn_source b) s = (Inr (), t)"
    "verify_anchor de (log_transport gh) anchor (bn_main b) base t = (Inr (), s')"
    by (auto simp: res_simps)
  then obtain a1 a2 where "snd t = a1 # snd s" "parts_at de anchor (bn_main b) (bn_source b) a1"
    "snd s' = a2 # snd t" "parts_at de anchor (bn_main b) base a2"
    by (cases s, cases t, cases s') (auto elim!: logged_anchor)
  with Some that [of "[a1, a2]"] show thesis by (simp add: anchor_evidence_def)
qed

lemma logged_binding:
  assumes "binding_verify de (log_transport gh) b (w, l) = (Inr (), (w', l'))"
  obtains base es where "l' = rev es @ l" "list_all2 (\<lambda>P e. P e) (binding_evidence de b base) es"
    "bn_operation b = Recover \<or> base = bn_source b"
proof -
  from assms obtain base s1 c s2 s3 s4 where
      first: "read_ref de (log_transport gh) (base_ref (bn_line b)) (w, l) = (Inr base, s1)"
    and fresh: "bn_operation b = Recover \<or> base = bn_source b"
    and compared: "compare de (log_transport gh) (bn_source b) base s1 = (Inr c, s2)"
    and lineage: "cm_status c \<in> {''ahead'', ''identical''}" "go_sha (cm_base_commit c) = bn_source b"
      "go_sha (cm_merge_base_commit c) = bn_source b"
    and anchors: "(case bn_anchor b of
         None \<Rightarrow> okE ()
       | Some anchor \<Rightarrow> forE [bn_source b, base] (verify_anchor de (log_transport gh) anchor (bn_main b))) s2
       = (Inr (), s3)"
    and again: "read_ref de (log_transport gh) (base_ref (bn_line b)) s3 = (Inr base, s4)"
    and main: "read_ref de (log_transport gh) ''refs/heads/main'' s4 = (Inr (bn_main b), (w', l'))"
    using assms unfolding binding_verify_def
    by (elim bindE_InrE) (cases "bn_operation b"; simp add: res_simps)
  from first obtain e1 where e1: "snd s1 = e1 # l" "tip_is de (base_ref (bn_line b)) base e1"
    by (cases s1) (auto elim: logged_read_ref)
  from compared obtain j where j: "snd s2 = Got (compare_path (bn_source b) base) (Inr (Some j)) # snd s1"
      "de_base_comparison de j = Inr c"
    by (cases s1, cases s2) (auto elim: logged_compare)
  have e2: "contains de (bn_source b) base (Got (compare_path (bn_source b) base) (Inr (Some j)))"
    using lineage j(2) by (simp add: contains_def told_def)
  from logged_anchors [OF anchors] obtain as where
    as: "snd s3 = rev as @ snd s2" "list_all2 (\<lambda>P e. P e) (anchor_evidence de b base) as" .
  from again obtain e3 where e3: "snd s4 = e3 # snd s3" "tip_is de (base_ref (bn_line b)) base e3"
    by (cases s3, cases s4) (auto elim: logged_read_ref)
  from main obtain e4 where e4: "l' = e4 # snd s4" "tip_is de ''refs/heads/main'' (bn_main b) e4"
    by (cases s4) (auto elim: logged_read_ref)
  let ?es = "[e1, Got (compare_path (bn_source b) base) (Inr (Some j))] @ as @ [e3, e4]"
  show thesis
  proof (rule that)
    show "l' = rev ?es @ l" using e1 j e3 e4 as by simp
    show "list_all2 (\<lambda>P e. P e) (binding_evidence de b base) ?es"
      unfolding binding_evidence_def anchor_evidence_def [symmetric]
      using e1 e2 e3 e4 as by (intro list_all2_appendI) simp_all
  qed (rule fresh)
qed

section \<open>Verified bindings\<close>

text \<open>
  C8: a binding is verified by evidence read now. Verifying a binding never writes. When it succeeds,
  its reads were, in this order and no others: the protected base at some commit; the release source on
  that commit's history, and on a support line the source and the base both parting from main exactly
  at the recorded anchor; the base again, not moved; and main at the commit whose policy is executing.
  For a fresh release the base is the source itself.
\<close>

theorem binding_verified:
  "case binding_verify de (log_transport gh) b (w, []) of (r, (w', l)) \<Rightarrow>
     list_all (\<lambda>e. \<not> is_post e) l \<and>
     (case r of
        Inl _ \<Rightarrow> True
      | Inr _ \<Rightarrow> \<exists>base. list_all2 (\<lambda>P e. P e) (binding_evidence de b base) (rev l) \<and>
          (bn_operation b = Recover \<or> base = bn_source b))"
proof -
  obtain r w' l where run: "binding_verify de (log_transport gh) b (w, []) = (r, (w', l))"
    by (cases "binding_verify de (log_transport gh) b (w, [])") auto
  have reads: "list_all (\<lambda>e. \<not> is_post e) l"
    using observesE [OF logged.reads_rebind(1) run] by auto
  show ?thesis
  proof (cases r)
    case (Inr u)
    with run have "binding_verify de (log_transport gh) b (w, []) = (Inr (), (w', l))" by simp
    then obtain base es where "l = rev es" "list_all2 (\<lambda>P e. P e) (binding_evidence de b base) es"
        "bn_operation b = Recover \<or> base = bn_source b"
      by (auto elim: logged_binding)
    with run reads Inr show ?thesis by (auto intro!: exI [of _ base])
  qed (use run reads in simp)
qed

end
