(* ===== verification/QualifyEvidence.thy ===== *)
theory QualifyEvidence
  imports QualifySafety
begin

text \<open>
  The evidence of a qualified release: the answers of GitHub a qualification has read when it calls a
  source a release, and what they say of the pull request, the merged commit, the proposed commit and
  its signature.
\<close>

section \<open>Evidence\<close>

text \<open>The decoded answer to a GET among the exchanges \<open>D\<close>.\<close>

definition replied :: "'j event set \<Rightarrow> string \<Rightarrow> ('j, 'a) decoder \<Rightarrow> 'a \<Rightarrow> bool" where
  "replied D path de x \<longleftrightarrow> (\<exists>j. Got path (Inr (Some j)) \<in> D \<and> de j = Inr x)"

text \<open>One of fewer than a hundred pull requests is merged on the line, from a manual release branch.\<close>

definition only_release_pull :: "release_line \<Rightarrow> PullRequest list \<Rightarrow> PullRequest \<Rightarrow> bool" where
  "only_release_pull l pulls pull \<longleftrightarrow> length pulls < 100 \<and> filter (merged_release_pull l) pulls = [pull] \<and>
     starts_with (ps_reference (pr_head pull)) RELEASE_BRANCH_PREFIX"

text \<open>A verified commit with one parent and the sign-off that modifies exactly the release files.\<close>

definition release_commit :: "Commit \<Rightarrow> string \<Rightarrow> bool" where
  "release_commit c sha \<longleftrightarrow> co_sha c = sha \<and> length (co_parents c) = 1 \<and>
     is_sha (go_sha (cb_tree (co_commit c))) \<and>
     vf_verified (cb_verification (co_commit c)) \<and> vf_reason (cb_verification (co_commit c)) = ''valid'' \<and>
     DCO_TRAILER \<in> set (lines (cb_message (co_commit c))) \<and>
     length (co_files c) = length RELEASE_PATHS \<and> cf_filename ` set (co_files c) = set RELEASE_PATHS \<and>
     list_all (\<lambda>f. cf_status f = ''modified'' \<and> cf_previous_filename f = None) (co_files c)"

text \<open>The merge is the proposed commit: one tree, on the same parent, in this repository.\<close>

definition same_change :: "Commit \<Rightarrow> Commit \<Rightarrow> PullRequest \<Rightarrow> bool" where
  "same_change source head pull \<longleftrightarrow>
     rp_full_name (ps_repo (pr_head pull)) = REPOSITORY \<and>
     map go_sha (co_parents source) = [ps_sha (pr_base pull)] \<and>
     map go_sha (co_parents head) = [ps_sha (pr_base pull)] \<and>
     go_sha (cb_tree (co_commit source)) = go_sha (cb_tree (co_commit head))"

text \<open>The pull request's only commit and merge commit, as the signature query answers them.\<close>

definition only_signature :: "SignatureEnvelope \<Rightarrow> string \<Rightarrow> string \<Rightarrow> VerifiedSignature \<Rightarrow> bool" where
  "only_signature envelope head source signature \<longleftrightarrow> se_errors envelope = None \<and>
     (\<exists>repository pull node. sd_repository (se_data envelope) = Some repository \<and>
        sr_pull_request repository = Some pull \<and> map_option sm_oid (sp_merge_commit pull) = Some source \<and>
        sx_nodes (sp_commits pull) = [node] \<and> sx_total_count (sp_commits pull) = 1 \<and>
        \<not> si_has_next_page (sx_page_info (sp_commits pull)) \<and>
        sc_oid (sn_commit node) = head \<and> sc_signature (sn_commit node) = Some signature)"

definition is_releaser :: "User option \<Rightarrow> bool" where
  "is_releaser account \<longleftrightarrow>
     account = Some \<lparr>us_login = RELEASE_SIGNER_LOGIN, us_id = RELEASE_SIGNER_ID, us_kind = ''User''\<rparr>"

text \<open>A valid signature by the releaser, not by GitHub, on a commit of the releaser.\<close>

definition signed_by_releaser :: "Commit \<Rightarrow> VerifiedSignature \<Rightarrow> bool" where
  "signed_by_releaser c signature \<longleftrightarrow>
     vs_kind signature \<in> {''GpgSignature'', ''SshSignature'', ''SmimeSignature''} \<and>
     vs_is_valid signature \<and> vs_state signature = ''VALID'' \<and> \<not> vs_was_signed_by_github signature \<and>
     (\<exists>signer. vs_signer signature = Some signer \<and> ss_database_id signer = Some RELEASE_SIGNER_ID \<and>
        ss_login signer = RELEASE_SIGNER_LOGIN \<and> ss_kind signer = ''User'') \<and>
     is_releaser (co_author c) \<and> is_releaser (co_committer c) \<and>
     vs_email signature = Some RELEASE_AUTHOR_EMAIL \<and>
     gs_name (cb_author (co_commit c)) = RELEASE_AUTHOR_NAME \<and>
     gs_email (cb_author (co_commit c)) = RELEASE_AUTHOR_EMAIL \<and>
     gs_email (cb_committer (co_commit c)) = RELEASE_AUTHOR_EMAIL"

definition commits_shown :: "'j serde \<Rightarrow> string \<Rightarrow> PullRequest \<Rightarrow> 'j event set \<Rightarrow> bool" where
  "commits_shown de sha pull D \<longleftrightarrow>
     (\<exists>source head. replied D (commit_path sha) (de_commit de) source \<and> release_commit source sha \<and>
        replied D (commit_path (ps_sha (pr_head pull))) (de_commit de) head \<and>
        release_commit head (ps_sha (pr_head pull)) \<and> same_change source head pull \<and>
        (\<exists>j envelope signature. Queried (signature_request (pr_number pull)) (Inr j) \<in> D \<and>
           de_signatures de j = Inr envelope \<and>
           only_signature envelope (ps_sha (pr_head pull)) sha signature \<and> signed_by_releaser head signature))"

definition pull_shown :: "'j serde \<Rightarrow> Context \<Rightarrow> PullRequest \<Rightarrow> 'j event set \<Rightarrow> bool" where
  "pull_shown de cx pull D \<longleftrightarrow>
     (\<exists>pulls. replied D (commit_path (cx_source cx) @ ''/pulls?per_page=100&page=1'') (de_pulls de) pulls \<and>
        only_release_pull (cx_line cx) pulls pull)"

definition release_evidence :: "'j serde \<Rightarrow> Context \<Rightarrow> 'j event set \<Rightarrow> bool" where
  "release_evidence de cx D \<longleftrightarrow>
     main_confirmed de (cx_sha cx) D \<and>
     (\<exists>pull. pull_shown de cx pull D \<and> commits_shown de (cx_source cx) pull D)"

lemma shown_mono:
  "commits_shown de sha pull D \<Longrightarrow> D \<subseteq> E \<Longrightarrow> commits_shown de sha pull E"
  "pull_shown de cx pull D \<Longrightarrow> D \<subseteq> E \<Longrightarrow> pull_shown de cx pull E"
  unfolding commits_shown_def pull_shown_def replied_def by blast+

lemma evidence_join:
  "main_confirmed de (cx_sha cx) D \<Longrightarrow> pull_shown de cx pull E \<Longrightarrow> commits_shown de (cx_source cx) pull E \<Longrightarrow>
   release_evidence de cx (D \<union> E)"
  unfolding release_evidence_def by (blast intro: main_confirmed_mono shown_mono)

lemma evidence_more: "release_evidence de cx E \<Longrightarrow> release_evidence de cx (D \<union> E)"
  unfolding release_evidence_def by (blast intro: main_confirmed_mono shown_mono)

section \<open>What the checks accept\<close>

lemma list_ex_line: "list_ex (\<lambda>l. l = x) ls \<longleftrightarrow> x \<in> set ls"
  by (induction ls) auto

lemma validate_commit_Inr: "validate_commit c sha True = Inr () \<longleftrightarrow> release_commit c sha"
  by (auto simp: validate_commit_def release_commit_def res_simps list_ex_line list_ex_iff list_all_iff)

lemma validate_release_head_Inr:
  "validate_release_head source head pull = Inr () \<longleftrightarrow>
     same_change source head pull \<and> release_commit head (ps_sha (pr_head pull))"
  by (auto simp: validate_release_head_def same_change_def res_simps validate_commit_Inr length_Suc_conv
      release_commit_def)

lemma select_signature_Inr:
  "select_signature envelope head source = Inr signature \<longleftrightarrow> only_signature envelope head source signature"
  by (auto simp: select_signature_def only_signature_def res_simps Let_def length_Suc_conv)

lemma expected_account_Inr: "expected_account account label = Inr () \<longleftrightarrow> is_releaser account"
  by (auto simp: expected_account_def is_releaser_def res_simps)

lemma validate_release_head_signature_Inr:
  assumes "validate_release_head_signature c signature = Inr ()"
  shows "signed_by_releaser c signature"
  using assms
  by (auto simp: validate_release_head_signature_def signed_by_releaser_def res_simps expected_account_Inr Let_def)

section \<open>What a qualification has read\<close>

context observed_world
begin

lemma observes_pull:
  "observes log (qualify_pull de gh cx mode)
     (\<lambda>x D. case x of None \<Rightarrow> True | Some pull \<Rightarrow> pull_shown de cx pull D)"
proof -
  let ?pulls = "\<lambda>pulls D. replied D (commit_path (cx_source cx) @ ''/pulls?per_page=100&page=1'') (de_pulls de) pulls"
  let ?choice = "\<lambda>selected x. case x of None \<Rightarrow> True | Some pull \<Rightarrow> selected = Some pull \<and>
    starts_with (ps_reference (pr_head pull)) RELEASE_BRANCH_PREFIX"
  have get: "observes log (get gh (de_pulls de) (commit_path (cx_source cx) @ ''/pulls?per_page=100&page=1'')) ?pulls"
    by (rule observes_weaken [OF observes_get]) (auto simp: replied_def)
  have choice: "observes log (case selected of
       None \<Rightarrow> if mode = Push then okE None else failE e
     | Some pull \<Rightarrow> if \<not> starts_with (ps_reference (pr_head pull)) RELEASE_BRANCH_PREFIX
         then if mode = Push then okE None else failE e'
         else okE (Some pull)) (\<lambda>x D. ?choice selected x)" for selected e e'
    by (auto split: option.split intro: observes_weaken [OF observes_basic(1)] observes_weaken [OF observes_basic(2)])
  have one: "only_release_pull (cx_line cx) pulls pull"
    if "select_merged_pull_request pulls (cx_line cx) = Inr (Some pull)"
      "starts_with (ps_reference (pr_head pull)) RELEASE_BRANCH_PREFIX" for pulls pull
    using that by (auto simp: only_release_pull_def select_merged_pull_request_def res_simps Let_def
        length_Suc_conv not_less le_Suc_eq split: list.splits)
  show ?thesis
    unfolding qualify_pull_def
    by (rule observes_weaken [OF observes_bindE [OF get observes_bindE [OF observes_basic(3) choice]]])
      (auto simp: pull_shown_def split: option.splits dest!: one, auto simp: replied_def)
qed

lemma observes_signature:
  "observes log (read_release_head_signature de gh n head source) (\<lambda>signature D.
     \<exists>j envelope. Queried (signature_request n) (Inr j) \<in> D \<and> de_signatures de j = Inr envelope \<and>
       only_signature envelope head source signature)"
proof -
  have query: "observes log (bindE (graphql gh (de_signatures de) (signature_request n)) (\<lambda>response.
      liftE (select_signature response head source))) (\<lambda>signature D.
     \<exists>j envelope. Queried (signature_request n) (Inr j) \<in> D \<and> de_signatures de j = Inr envelope \<and>
       only_signature envelope head source signature)"
    by (rule observes_weaken [OF observes_bindE [OF observes_graphql observes_basic(3)]])
      (auto simp: select_signature_Inr)
  show ?thesis
    unfolding read_release_head_signature_def
    by (intro observes_rest reads_basic query) blast+
qed

lemma observes_commits: "observes log (qualify_commits de gh cx pull) (\<lambda>_. commits_shown de (cx_source cx) pull)"
proof -
  let ?commit = "\<lambda>sha c D. replied D (commit_path sha) (de_commit de) c"
  have get: "observes log (get gh (de_commit de) (commit_path sha)) (?commit sha)" for sha
    by (rule observes_weaken [OF observes_get]) (auto simp: replied_def)
  let ?signed = "\<lambda>head D. \<exists>j envelope signature. Queried (signature_request (pr_number pull)) (Inr j) \<in> D \<and>
    de_signatures de j = Inr envelope \<and>
    only_signature envelope (ps_sha (pr_head pull)) (cx_source cx) signature \<and> signed_by_releaser head signature"
  have signed: "observes log (bindE (read_release_head_signature de gh (pr_number pull) (ps_sha (pr_head pull))
      (cx_source cx)) (\<lambda>signature. bindE (liftE (validate_release_head_signature head signature)) (\<lambda>_. okE c)))
      (\<lambda>_. ?signed head)" for head c
    by (rule observes_weaken [OF observes_bindE [OF observes_signature observes_bindE [OF observes_basic(3) reads_basic(1)]]])
      (auto dest!: validate_release_head_signature_Inr)
  have proposed: "observes log (bindE (get gh (de_commit de) (commit_path (ps_sha (pr_head pull)))) (\<lambda>head.
      bindE (liftE (validate_release_head source head pull)) (\<lambda>_. f head)))
      (\<lambda>_ D. \<exists>head. ?commit (ps_sha (pr_head pull)) head D \<and> release_commit head (ps_sha (pr_head pull)) \<and>
         same_change source head pull \<and> ?signed head D)"
    if "\<And>head. observes log (f head) (\<lambda>_. ?signed head)" for source and f :: "Commit \<Rightarrow> ('s, string, Commit) eff"
    by (rule observes_weaken [OF observes_bindE [OF get observes_bindE [OF observes_basic(3) that]]])
      (auto simp: validate_release_head_Inr, auto simp: replied_def)
  show ?thesis
    unfolding qualify_commits_def
    by (rule observes_weaken [OF observes_bindE [OF get observes_bindE [OF observes_basic(3) proposed [OF signed]]]])
      (auto simp: validate_commit_Inr commits_shown_def replied_def, blast)
qed

lemma observes_qualify_release:
  "observes log (qualify_release t at de os' root gh reg cx mode pull) (\<lambda>_. commits_shown de (cx_source cx) pull)"
  unfolding qualify_release_def Let_def
  by (intro observes_rest [OF reads_qualify_parts(4)] observes_first [OF observes_commits] reads_rules reads_intros)
    (auto elim: shown_mono)

lemma observes_qualify:
  "observes log (qualify t at de os' root gh reg cx mode run_id attempt)
     (\<lambda>q D. ql_qualified q \<longrightarrow> release_evidence de cx D)"
proof -
  let ?pull = "\<lambda>q D. ql_qualified q \<longrightarrow> (\<exists>pull. pull_shown de cx pull D \<and> commits_shown de (cx_source cx) pull D)"
  have release: "observes log (case pull of None \<Rightarrow> okE (ordinary (cx_source cx))
      | Some release_pr \<Rightarrow> qualify_release t at de os' root gh reg cx mode release_pr)
      (\<lambda>q D. case pull of None \<Rightarrow> \<not> ql_qualified q | Some p \<Rightarrow> commits_shown de (cx_source cx) p D)" for pull
    by (auto split: option.split intro: observes_weaken [OF observes_basic(1)]
        observes_weaken [OF observes_qualify_release] simp: ordinary_def)
  have pulled: "observes log (bindE (qualify_pull de gh cx mode) (\<lambda>pull. case pull of
         None \<Rightarrow> okE (ordinary (cx_source cx))
       | Some release_pr \<Rightarrow> qualify_release t at de os' root gh reg cx mode release_pr)) ?pull"
    by (rule observes_weaken [OF observes_bindE [OF observes_pull release]])
      (fastforce split: option.splits elim: shown_mono)
  have mode: "observes log (qualify_mode de os' gh cx mode run_id attempt)
      (\<lambda>early D. True \<and> (case early of None \<Rightarrow> True | Some q \<Rightarrow> \<not> ql_qualified q))"
    by (rule observes_result [OF reads_qualify_mode]) (auto dest!: qualify_mode_Inr simp: validation_def)
  have early: "observes log (case early of Some q \<Rightarrow> okE q | None \<Rightarrow>
      bindE (qualify_pull de gh cx mode) (\<lambda>pull. case pull of
         None \<Rightarrow> okE (ordinary (cx_source cx))
       | Some release_pr \<Rightarrow> qualify_release t at de os' root gh reg cx mode release_pr))
      (\<lambda>q D. case early of None \<Rightarrow> ?pull q D | Some e \<Rightarrow> q = e)" for early
    using pulled by (auto split: option.split intro: observes_basic(1))
  let ?rest = "bindE (manifest_version t os' root) (\<lambda>v.
     bindE (liftE (require_version (rt_semver t) (cx_line cx) v)) (\<lambda>_.
     bindE (verify_binding de gh cx) (\<lambda>_.
     bindE (qualify_mode de os' gh cx mode run_id attempt) (\<lambda>early.
     case early of Some q \<Rightarrow> okE q | None \<Rightarrow>
       bindE (qualify_pull de gh cx mode) (\<lambda>pull. case pull of
         None \<Rightarrow> okE (ordinary (cx_source cx))
       | Some release_pr \<Rightarrow> qualify_release t at de os' root gh reg cx mode release_pr)))))"
  have tail: "observes log (bindE (qualify_mode de os' gh cx mode run_id attempt) (\<lambda>early.
     case early of Some q \<Rightarrow> okE q | None \<Rightarrow>
       bindE (qualify_pull de gh cx mode) (\<lambda>pull. case pull of
         None \<Rightarrow> okE (ordinary (cx_source cx))
       | Some release_pr \<Rightarrow> qualify_release t at de os' root gh reg cx mode release_pr))) ?pull"
    by (rule observes_weaken [OF observes_bindE [OF mode early]])
      (fastforce split: option.splits elim: shown_mono)
  have rest: "observes log ?rest ?pull"
    by (intro observes_rest [OF reads_manifest_checks(1)] observes_rest [OF reads_basic(3)]
        observes_rest [OF reads_qualify_parts(8)] tail) (blast intro: shown_mono)+
  have live: "observes log (bindE (require_live_policy_main de gh (cx_sha cx)) (\<lambda>_. ?rest))
      (\<lambda>q D. ql_qualified q \<longrightarrow> release_evidence de cx D)"
    by (rule observes_weaken [OF observes_bindE [OF observes_live_main rest]])
      (auto intro: evidence_join)
  show ?thesis
    unfolding qualify_def
    by (rule observes_rest [OF reads_check_manifest live])
      (blast intro: evidence_more)
qed

end

text \<open>
  C4: a release is qualified on evidence. Whatever GitHub, the registry and the machine answer, when a
  qualification calls a source a release it has read protected main at the executing policy; one merged
  pull request of the line for the source, from a manual release branch; the source and the proposed
  commit, both verified, signed off, modifying exactly the release files, with one tree on one parent;
  and as the only commit of that pull request the proposed one, validly signed by the releaser, not by
  GitHub, with the releaser as author and committer.
\<close>

theorem qualified_on_evidence:
  "case qualify t at de (beside_os os') root (log_transport gh) (beside_registry reg) cx mode run_id attempt (w, [])
   of (r, (w', l)) \<Rightarrow> (case r of
      Inl _ \<Rightarrow> True
    | Inr q \<Rightarrow> if ql_qualified q then release_evidence de cx (set l) else True)"
proof -
  obtain r w' l where run: "qualify t at de (beside_os os') root (log_transport gh) (beside_registry reg) cx
      mode run_id attempt (w, []) = (r, (w', l))" by (metis surj_pair)
  from observesE [OF logged.observes_qualify run] show ?thesis using run by (auto split: sum.split)
qed

end
