(* ===== verification/Recorded.thy ===== *)
theory Recorded
  imports Release
begin

text \<open>
  A machine that records what it answers: the outputs of subprocesses, the files read, and every step
  that edits the checkout, by a subprocess with inherited streams or through a temporary file. \<open>learns\<close>
  says what a successful effect that edits nothing has seen; \<open>leads\<close> is a Hoare triple on the record;
  \<open>granted\<close> says that every edit was allowed by what was recorded before it.
\<close>

section \<open>Recorded answers\<close>

datatype os_answer =
    Ran command "io_error + process_output"
  | ReadFile string string "string + string"
  | Inspected string "string + file_metadata"
  | Ordered command "io_error + bool \<times> string"
  | Appended string "string + unit"
  | Opened string "string + string"
  | ScratchMade "string + string"
  | Created string "string + string"
  | Written string bytes "string + unit"
  | ModeSet string nat "string + unit"
  | Synced string "string + unit"
  | Replaced string string "string + unit"

text \<open>Everything but an answer that was only read is an edit.\<close>

fun is_edit :: "os_answer \<Rightarrow> bool" where
  "is_edit (Ran c r) = False"
| "is_edit (ReadFile root p r) = False"
| "is_edit (Inspected p r) = False"
| "is_edit _ = True"

definition recordE :: "('e + 'a \<Rightarrow> 'c) \<Rightarrow> ('w, 'e, 'a) eff \<Rightarrow> ('w \<times> 'c list, 'e, 'a) eff" where
  "recordE h m = (\<lambda>(w, l). case m w of (r, w') \<Rightarrow> (r, (w', l @ [h r])))"

definition recorded_os :: "'w os \<Rightarrow> ('w \<times> os_answer list) os" where
  "recorded_os os' = (beside_os os')
     \<lparr>os_output := (\<lambda>c input limits. recordE (Ran c) (os_output os' c input limits)),
      os_status := (\<lambda>c. recordE (Ordered c) (os_status os' c)),
      os_read_manifest := (\<lambda>root p. recordE (ReadFile root p) (os_read_manifest os' root p)),
      os_append_open := (\<lambda>p. recordE (Opened p) (os_append_open os' p)),
      os_append_write := (\<lambda>p s. recordE (Appended p) (os_append_write os' p s)),
      os_tempdir := recordE ScratchMade (os_tempdir os'),
      os_symlink_metadata := (\<lambda>p. recordE (Inspected p) (os_symlink_metadata os' p)),
      os_temp_new := (\<lambda>p. recordE (Created p) (os_temp_new os' p)),
      os_temp_write := (\<lambda>p b. recordE (Written p b) (os_temp_write os' p b)),
      os_temp_permissions := (\<lambda>p n. recordE (ModeSet p n) (os_temp_permissions os' p n)),
      os_temp_sync := (\<lambda>p. recordE (Synced p) (os_temp_sync os' p)),
      os_temp_persist := (\<lambda>p q. recordE (Replaced p q) (os_temp_persist os' p q))\<rparr>"

lemma recorded_fields:
  "os_output (recorded_os os') c input limits = recordE (Ran c) (os_output os' c input limits)"
  "os_status (recorded_os os') c = recordE (Ordered c) (os_status os' c)"
  "os_read_manifest (recorded_os os') root p = recordE (ReadFile root p) (os_read_manifest os' root p)"
  "os_symlink_metadata (recorded_os os') p = recordE (Inspected p) (os_symlink_metadata os' p)"
  "os_temp_new (recorded_os os') p = recordE (Created p) (os_temp_new os' p)"
  "os_temp_write (recorded_os os') p b = recordE (Written p b) (os_temp_write os' p b)"
  "os_temp_permissions (recorded_os os') p n = recordE (ModeSet p n) (os_temp_permissions os' p n)"
  "os_temp_sync (recorded_os os') p = recordE (Synced p) (os_temp_sync os' p)"
  "os_temp_persist (recorded_os os') p q = recordE (Replaced p q) (os_temp_persist os' p q)"
  by (simp_all add: recorded_os_def)

lemma keeps_recordE: "(\<And>r. P (h r)) \<Longrightarrow> keeps (grown P l) (recordE h m)"
  by (auto simp: keeps_def grown_def recordE_def split: prod.splits)

text \<open>What is only read records no edit.\<close>

interpretation quiet_record: source_machine "recorded_os os'" "\<lambda>_. True" "grown (\<lambda>e. \<not> is_edit e) l" for os' l
  by unfold_locales
    (auto simp: recorded_os_def beside_os_def keeps_grown_beside keeps_recordE, auto simp: grown_def)

section \<open>What an effect learns\<close>

text \<open>An effect \<open>learns\<close> when it edits nothing and \<open>P\<close> holds of its result and the answers recorded.\<close>

definition learns :: "('a \<Rightarrow> os_answer set \<Rightarrow> bool) \<Rightarrow> ('w \<times> os_answer list, 'e, 'a) eff \<Rightarrow> bool" where
  "learns P m \<longleftrightarrow> emits (\<lambda>d r. list_all (\<lambda>e. \<not> is_edit e) d \<and>
     (case r of Inl _ \<Rightarrow> True | Inr x \<Rightarrow> P x (set d))) m"

lemma learns_weaken: "learns P m \<Longrightarrow> (\<And>x D. P x D \<Longrightarrow> Q x D) \<Longrightarrow> learns Q m"
  unfolding learns_def by (erule emits_weaken) (simp split: sum.splits)

lemma learns_bindE:
  fixes m :: "('w \<times> os_answer list, 'd, 'a) eff" and f :: "'a \<Rightarrow> ('w \<times> os_answer list, 'd, 'e) eff"
  assumes "learns P m" and "\<And>x. learns (Q x) (f x)"
  shows "learns (\<lambda>y D. \<exists>x D1 D2. D = D1 \<union> D2 \<and> P x D1 \<and> Q x y D2) (bindE m f)"
  unfolding learns_def
proof (rule emits_weaken [OF emits_bindE [OF assms(1) [unfolded learns_def] assms(2) [unfolded learns_def]]])
  fix d and r :: "'d + 'e"
  let ?quiet = "list_all (\<lambda>e. \<not> is_edit e)"
  assume s: "seq_post (\<lambda>d r. ?quiet d \<and> (case r of Inl _ \<Rightarrow> True | Inr x \<Rightarrow> P x (set d)))
    (\<lambda>x d r. ?quiet d \<and> (case r of Inl _ \<Rightarrow> True | Inr y \<Rightarrow> Q x y (set d))) d r"
  then have "?quiet d" by (auto simp: seq_post_def)
  moreover have "case r of Inl _ \<Rightarrow> True | Inr y \<Rightarrow> \<exists>x D1 D2. set d = D1 \<union> D2 \<and> P x D1 \<and> Q x y D2"
  proof (cases r)
    case (Inr y)
    with s obtain x d1 d2 where "d = d1 @ d2" "P x (set d1)" "Q x y (set d2)" by (auto simp: seq_post_def)
    with Inr have "set d = set d1 \<union> set d2 \<and> P x (set d1) \<and> Q x y (set d2)" by simp
    with Inr show ?thesis by auto
  qed simp
  ultimately show "?quiet d \<and> (case r of Inl _ \<Rightarrow> True
      | Inr y \<Rightarrow> \<exists>x D1 D2. set d = D1 \<union> D2 \<and> P x D1 \<and> Q x y D2)" ..
qed

lemma learns_basic:
  "learns (\<lambda>y D. y = x) (okE x)" "learns (\<lambda>y D. False) (failE e)" "learns (\<lambda>y D. q = Inr y) (liftE q)"
  "learns (\<lambda>y D. \<not> b) (fail_ifE b e)"
  unfolding learns_def emits_def okE_def failE_def liftE_def fail_ifE_def fail_if_def
  by (auto split: sum.split)

lemma learns_recordE: "(\<And>r. \<not> is_edit (h r)) \<Longrightarrow> learns (\<lambda>x D. h (Inr x) \<in> D) (recordE h m)"
  unfolding learns_def
  by (rule emits_weaken [of "\<lambda>d r. d = [h r]"]) (auto simp: emits_def recordE_def split: prod.splits sum.splits)

lemma learns_map_errE: "learns P m \<Longrightarrow> learns P (map_errE f m)"
  unfolding learns_def
  by (rule emits_weaken [OF emits_map_errE], assumption) (auto simp: map_err_def split: sum.splits)

lemma learns_if: "(b \<Longrightarrow> learns P m) \<Longrightarrow> (\<not> b \<Longrightarrow> learns P n) \<Longrightarrow> learns P (if b then m else n)"
  by simp

lemma learns_nothing:
  assumes "\<And>l. keeps (grown (\<lambda>e. \<not> is_edit e) l) m"
  shows "learns (\<lambda>_ _. True) m"
  using assms [folded runs_only_def] runs_only_emits [of "\<lambda>e. \<not> is_edit e" m]
  by (auto simp: learns_def runs_only_def intro: emits_weaken split: sum.split)

lemma learns_rest:
  assumes "\<And>l. keeps (grown (\<lambda>e. \<not> is_edit e) l) m" and "\<And>x. learns Q (f x)"
    and "\<And>y D E. Q y E \<Longrightarrow> Q y (D \<union> E)"
  shows "learns Q (bindE m f)"
  by (rule learns_weaken [OF learns_bindE [OF learns_nothing [OF assms(1)] assms(2)]]) (use assms(3) in blast)

section \<open>Edits\<close>

definition edits :: "os_answer list \<Rightarrow> os_answer list" where
  "edits l = filter is_edit l"

definition since_edit :: "os_answer list \<Rightarrow> os_answer set" where
  "since_edit l = set (takeWhile (\<lambda>e. \<not> is_edit e) (rev l))"

text \<open>Every edit is one that \<open>J\<close> allows after what was recorded before it.\<close>

definition granted :: "(os_answer list \<Rightarrow> os_answer \<Rightarrow> bool) \<Rightarrow> os_answer list \<Rightarrow> bool" where
  "granted J l \<longleftrightarrow> list_all (\<lambda>i. is_edit (l ! i) \<longrightarrow> J (take i l) (l ! i)) [0..<length l]"

text \<open>What was recorded before the first edit.\<close>

definition first_seen :: "os_answer list \<Rightarrow> os_answer set" where
  "first_seen l = set (takeWhile (\<lambda>e. \<not> is_edit e) l)"

lemma first_seen_append:
  "is_edit e \<Longrightarrow> first_seen (l @ [e]) = first_seen l"
  "edits l \<noteq> [] \<Longrightarrow> first_seen (l @ d) = first_seen l"
  by (auto simp: first_seen_def edits_def takeWhile_append filter_empty_conv takeWhile_eq_all_conv [THEN iffD2])

lemma first_seen_all: "edits l = [] \<Longrightarrow> first_seen l = since_edit l"
  by (simp add: first_seen_def since_edit_def edits_def filter_empty_conv takeWhile_eq_all_conv [THEN iffD2])

lemma edits_append [simp]: "edits [] = []" "edits (l @ d) = edits l @ edits d"
  by (simp_all add: edits_def)

lemma quiet_edits: "list_all (\<lambda>e. \<not> is_edit e) d \<Longrightarrow> edits d = []"
  by (simp add: edits_def list_all_iff filter_empty_conv)

lemma quiet_since: "list_all (\<lambda>e. \<not> is_edit e) d \<Longrightarrow> since_edit (l @ d) = since_edit l \<union> set d"
  by (auto simp: since_edit_def list_all_iff takeWhile_append)

lemma since_edit_snoc [simp]: "since_edit [] = {}" "is_edit e \<Longrightarrow> since_edit (l @ [e]) = {}"
  by (simp_all add: since_edit_def)

lemma since_edit_subset: "since_edit l \<subseteq> set l"
  by (auto simp: since_edit_def dest: set_takeWhileD)

lemma granted_snoc [simp]:
  "granted J []" "granted J (l @ [e]) \<longleftrightarrow> granted J l \<and> (is_edit e \<longrightarrow> J l e)"
  by (auto simp: granted_def list_all_iff nth_append)

lemma granted_quiet: "list_all (\<lambda>e. \<not> is_edit e) d \<Longrightarrow> granted J (l @ d) \<longleftrightarrow> granted J l"
  by (induction d rule: rev_induct) (auto simp flip: append_assoc)

section \<open>Triples on the record\<close>

definition leads ::
  "(os_answer list \<Rightarrow> os_answer \<Rightarrow> bool) \<Rightarrow> (os_answer list \<Rightarrow> bool) \<Rightarrow>
   ('w \<times> os_answer list, 'e, 'a) eff \<Rightarrow> ('a \<Rightarrow> os_answer list \<Rightarrow> bool) \<Rightarrow> bool" where
  "leads J A m B \<longleftrightarrow> (\<forall>w l r w' l'. m (w, l) = (r, (w', l')) \<longrightarrow> granted J l \<longrightarrow> A l \<longrightarrow>
     granted J l' \<and> (case r of Inl _ \<Rightarrow> True | Inr x \<Rightarrow> B x l'))"

text \<open>What is stated of the edits made and of the answers since the last one, and only grows.\<close>

definition enduring :: "(os_answer list \<Rightarrow> bool) \<Rightarrow> bool" where
  "enduring A \<longleftrightarrow> (\<forall>l d. list_all (\<lambda>e. \<not> is_edit e) d \<longrightarrow> A l \<longrightarrow> A (l @ d))"

lemma enduring_intros [intro, simp]:
  "enduring (\<lambda>l. P (edits l))" "enduring (\<lambda>l. b)"
  "enduring A \<Longrightarrow> enduring B \<Longrightarrow> enduring (\<lambda>l. A l \<and> B l)"
  "(\<And>D E. S D \<Longrightarrow> S (D \<union> E)) \<Longrightarrow> enduring (\<lambda>l. S (since_edit l))"
  by (auto simp: enduring_def quiet_edits quiet_since)

lemma leads_bindE:
  assumes "leads J A m B" and "\<And>x. leads J (B x) (f x) C"
  shows "leads J A (bindE m f) C"
  unfolding leads_def
proof (intro allI impI)
  fix w l r w' l'
  assume b: "bindE m f (w, l) = (r, (w', l'))" and pre: "granted J l" "A l"
  obtain r1 w1 l1 where m: "m (w, l) = (r1, (w1, l1))" by (cases "m (w, l)") auto
  with assms(1) pre have 1: "granted J l1" "case r1 of Inl _ \<Rightarrow> True | Inr x \<Rightarrow> B x l1"
    unfolding leads_def by blast+
  show "granted J l' \<and> (case r of Inl _ \<Rightarrow> True | Inr x \<Rightarrow> C x l')"
  proof (cases r1)
    case (Inl e)
    with b m 1 show ?thesis by auto
  next
    case (Inr x)
    with b m have "f x (w1, l1) = (r, (w', l'))" by simp
    with Inr 1 assms(2) [of x] show ?thesis unfolding leads_def by auto
  qed
qed

lemma leads_weaken:
  "leads J A m B \<Longrightarrow> (\<And>l. A' l \<Longrightarrow> A l) \<Longrightarrow> (\<And>x l. B x l \<Longrightarrow> B' x l) \<Longrightarrow> leads J A' m B'"
  unfolding leads_def by (fastforce split: sum.split)

lemma leads_pre: "leads J A m B \<Longrightarrow> (\<And>l. A' l \<Longrightarrow> A l) \<Longrightarrow> leads J A' m B"
  by (erule leads_weaken)

lemma leads_learns:
  assumes "learns P m" and "enduring A"
  shows "leads J A m (\<lambda>x l. A l \<and> (\<exists>D \<subseteq> since_edit l. P x D))"
  unfolding leads_def
proof (intro allI impI)
  fix w l r w' l'
  assume m: "m (w, l) = (r, (w', l'))" and pre: "granted J l" "A l"
  from emitsD [OF assms(1) [unfolded learns_def] m] obtain d where d: "l' = l @ d"
      "list_all (\<lambda>e. \<not> is_edit e) d" "case r of Inl _ \<Rightarrow> True | Inr x \<Rightarrow> P x (set d)" by blast
  with pre assms(2) have "granted J l'" "A l'" by (auto simp: granted_quiet enduring_def)
  moreover from d(1,2) have "set d \<subseteq> since_edit l'" by (simp add: quiet_since)
  ultimately show "granted J l' \<and> (case r of Inl _ \<Rightarrow> True | Inr x \<Rightarrow> A l' \<and> (\<exists>D\<subseteq>since_edit l'. P x D))"
    using d(3) by (auto split: sum.split)
qed

text \<open>
  An assertion on the edits made, together with what was learned since the last one. A step that
  learns more extends it; an edit starts anew.
\<close>

definition knows :: "(os_answer list \<Rightarrow> bool) \<Rightarrow> (os_answer set \<Rightarrow> bool) \<Rightarrow> os_answer list \<Rightarrow> bool" where
  "knows A S l \<longleftrightarrow> A l \<and> (\<exists>D \<subseteq> since_edit l. S D)"

lemma enduring_knows: "enduring A \<Longrightarrow> enduring (knows A S)"
  unfolding enduring_def knows_def using quiet_since by (metis le_supI1)

lemma enduring_seen:
  assumes "\<And>D. \<not> A D []"
  shows "enduring (\<lambda>l. A (first_seen l) (edits l))"
proof -
  have "A (first_seen (l @ d)) (edits (l @ d))"
    if quiet: "list_all (\<lambda>e. \<not> is_edit e) d" and A: "A (first_seen l) (edits l)" for l d
  proof -
    from A assms have "edits l \<noteq> []" by auto
    with quiet A show ?thesis by (simp add: quiet_edits first_seen_append(2))
  qed
  then show ?thesis by (simp add: enduring_def)
qed

lemma knows_more:
  assumes "knows A S l \<and> (\<exists>D \<subseteq> since_edit l. P D)"
  shows "knows A (\<lambda>D. \<exists>D1 D2. D = D1 \<union> D2 \<and> S D1 \<and> P D2) l"
proof -
  from assms obtain D1 D2 where "A l" "S D1" "P D2" "D1 \<union> D2 \<subseteq> since_edit l"
    unfolding knows_def by (metis Un_least)
  then show ?thesis unfolding knows_def by (intro conjI exI [of _ "D1 \<union> D2"] exI [of _ D1] exI [of _ D2]) simp_all
qed

lemma leads_step:
  assumes "learns P m" and "enduring A"
    and "\<And>x. leads J (knows A (\<lambda>D. \<exists>D1 D2. D = D1 \<union> D2 \<and> S D1 \<and> P x D2)) (f x) C"
  shows "leads J (knows A S) (bindE m f) C"
  by (rule leads_bindE [OF leads_weaken [OF leads_learns [OF assms(1) enduring_knows [OF assms(2)]]] assms(3)],
      assumption, rule knows_more)

lemma leads_last:
  assumes "learns P m" and "enduring A"
    and "\<And>x l D. A l \<Longrightarrow> D \<subseteq> since_edit l \<Longrightarrow> \<exists>D1 D2. D = D1 \<union> D2 \<and> S D1 \<and> P x D2 \<Longrightarrow> C x l"
  shows "leads J (knows A S) m C"
proof (rule leads_weaken [OF leads_learns [OF assms(1) enduring_knows [OF assms(2)]]])
  fix x l
  assume "knows A S l \<and> (\<exists>D\<subseteq>since_edit l. P x D)"
  from knows_more [OF this] assms(3) show "C x l" unfolding knows_def by blast
qed

lemma leads_if:
  "(b \<Longrightarrow> leads J A m B) \<Longrightarrow> (\<not> b \<Longrightarrow> leads J A n B) \<Longrightarrow> leads J A (if b then m else n) B"
  by simp

lemma leads_okE: "(\<And>l. A l \<Longrightarrow> B x l) \<Longrightarrow> leads J A (okE x) B"
  by (auto simp: leads_def okE_def)

lemma leads_map_errE: "leads J A m B \<Longrightarrow> leads J A (map_errE f m) B"
  unfolding leads_def map_errE_def
  by (fastforce simp: map_err_def split: prod.splits sum.splits)

text \<open>An edit is allowed by what was recorded before it.\<close>

lemma leads_edit:
  assumes "\<And>l r. A l \<Longrightarrow> J l (h r)" and "\<And>l x. A l \<Longrightarrow> B x (l @ [h (Inr x)])"
  shows "leads J A (recordE h m) B"
  using assms by (auto simp: leads_def recordE_def split: prod.splits sum.splits)

end
