(* ===== verification/ReleaseChecked.thy ===== *)
theory ReleaseChecked
  imports Recorded
begin

text \<open>
  What a release check has seen: the outputs of the subprocesses it ran and the files it read, on a
  machine that records them, and what they say when the check succeeds.
\<close>

section \<open>Answers of git\<close>

definition git_ran :: "string \<Rightarrow> string list \<Rightarrow> process_output \<Rightarrow> os_answer set \<Rightarrow> bool" where
  "git_ran root args out D \<longleftrightarrow>
     Ran (cmd_args args (current_dir root (command_new ''git''))) (Inr out) \<in> D \<and> out_success out"

definition git_said :: "string \<Rightarrow> string list \<Rightarrow> string \<Rightarrow> os_answer set \<Rightarrow> bool" where
  "git_said root args s D \<longleftrightarrow> (\<exists>out. git_ran root args out D \<and> one_line (out_stdout out) ''git'' = Inr s)"

definition git_listed :: "string \<Rightarrow> string list \<Rightarrow> string list \<Rightarrow> os_answer set \<Rightarrow> bool" where
  "git_listed root args ps D \<longleftrightarrow> (\<exists>out. git_ran root args out D \<and> parse_paths (out_stdout out) = Inr ps)"

definition file_read :: "string \<Rightarrow> string \<Rightarrow> string \<Rightarrow> os_answer set \<Rightarrow> bool" where
  "file_read root p body D \<longleftrightarrow> ReadFile root p (Inr body) \<in> D"

lemma said_union [simp]:
  "git_said root args s (D \<union> E) \<longleftrightarrow> git_said root args s D \<or> git_said root args s E"
  "git_listed root args ps (D \<union> E) \<longleftrightarrow> git_listed root args ps D \<or> git_listed root args ps E"
  "file_read root p body (D \<union> E) \<longleftrightarrow> file_read root p body D \<or> file_read root p body E"
  by (auto simp: git_said_def git_listed_def git_ran_def file_read_def)

lemma learns_output:
  "learns (\<lambda>out D. Ran c (Inr out) \<in> D) (os_output (recorded_os os') c input limits)"
  by (simp add: recorded_fields learns_recordE)

lemma learns_read: "learns (\<lambda>body. file_read root p body) (os_read_manifest (recorded_os os') root p)"
  using learns_recordE [of "ReadFile root p"] by (simp add: recorded_fields file_read_def [abs_def])

lemma learns_git:
  "learns (\<lambda>s. git_said root args s) (git_line (recorded_os os') root args)"
  "learns (\<lambda>ps. git_listed root args ps) (git_paths (recorded_os os') root args)"
  unfolding git_line_def git_paths_def command_output_def
  by (rule learns_weaken [OF learns_bindE [OF learns_map_errE [OF learns_output]
        learns_bindE [OF learns_basic(3) learns_basic(3)]]],
      auto simp: git_said_def git_listed_def git_ran_def require_success_def split: if_splits)+

section \<open>The release transaction\<close>

text \<open>
  The checkout is clean, its HEAD is one commit on the protected tip, with an SSH signature and the
  sign-off, and what it changes are the release paths.
\<close>

definition sole_release_commit :: "string \<Rightarrow> release_line \<Rightarrow> os_answer set \<Rightarrow> bool" where
  "sole_release_commit root l D \<longleftrightarrow>
     git_said root [''status'', ''--porcelain''] [] D \<and>
     (\<exists>tip. git_said root [''rev-parse'', tracking_ref l] tip D \<and>
        git_said root [''rev-list'', ''--count'', tracking_ref l @ ''..HEAD''] ''1'' D \<and>
        git_said root [''rev-parse'', ''HEAD^''] tip D) \<and>
     (\<exists>raw. git_said root [''cat-file'', ''commit'', ''HEAD''] raw D \<and>
        contains raw ''gpgsig -----BEGIN SSH SIGNATURE-----'') \<and>
     (\<exists>message. git_said root [''show'', ''-s'', ''--format=%B'', ''HEAD''] message D \<and>
        RELEASE_DCO_TRAILER \<in> set (lines message)) \<and>
     (\<exists>changed added.
        git_listed root [''diff'', ''--name-only'', ''--no-renames'', ''-z'', tracking_ref l] changed D \<and>
        git_listed root [''ls-files'', ''--others'', ''--exclude-standard'', ''-z''] added D \<and>
        set changed \<union> set added = set RELEASE_SOURCE_PATHS)"

text \<open>The manifest has the version and the changelog one heading for it.\<close>

definition manifest_states :: "release_tools \<Rightarrow> string \<Rightarrow> version \<Rightarrow> bool" where
  "manifest_states t body v \<longleftrightarrow>
     (\<exists>document package text. rt_toml t body = Inr document \<and>
        toml_get document toml_table_like ''package'' = Some package \<and>
        toml_get package toml_str ''version'' = Some text \<and> sv_parse (rt_semver t) text = Inr v)"

definition release_content :: "release_tools \<Rightarrow> string \<Rightarrow> version \<Rightarrow> os_answer set \<Rightarrow> bool" where
  "release_content t root v D \<longleftrightarrow>
     (\<exists>body. file_read root ''Cargo.toml'' body D \<and> manifest_states t body v) \<and>
     (\<exists>changelog. file_read root (pp_changelog TRAITS_PACKAGE) changelog D \<and>
        length (filter (\<lambda>line. is_version_heading line (''## ['' @ rt_show t v @ '']'')) (lines changelog)) = 1)"

lemma transaction_more:
  "sole_release_commit root l E \<Longrightarrow> sole_release_commit root l (D \<union> E)"
  "sole_release_commit root l D \<Longrightarrow> sole_release_commit root l (D \<union> E)"
  "release_content t root v E \<Longrightarrow> release_content t root v (D \<union> E)"
  "release_content t root v D \<Longrightarrow> release_content t root v (D \<union> E)"
  unfolding sole_release_commit_def release_content_def by auto

lemma learns_changed_paths:
  "learns (\<lambda>ps D. \<exists>changed added.
     git_listed root [''diff'', ''--name-only'', ''--no-renames'', ''-z'', tracking_ref l] changed D \<and>
     git_listed root [''ls-files'', ''--others'', ''--exclude-standard'', ''-z''] added D \<and>
     set ps = set changed \<union> set added) (release_changed_paths (recorded_os os') root l)"
  unfolding release_changed_paths_def
  by (rule learns_weaken [OF learns_bindE [OF learns_git(2) learns_bindE [OF learns_git(2) learns_basic(1)]]])
    (auto, blast)

lemma learns_one_commit:
  "learns (\<lambda>_ D.
     (\<exists>tip. git_said root [''rev-parse'', tracking_ref l] tip D \<and>
        git_said root [''rev-list'', ''--count'', tracking_ref l @ ''..HEAD''] ''1'' D \<and>
        git_said root [''rev-parse'', ''HEAD^''] tip D) \<and>
     (\<exists>raw. git_said root [''cat-file'', ''commit'', ''HEAD''] raw D \<and>
        contains raw ''gpgsig -----BEGIN SSH SIGNATURE-----'') \<and>
     (\<exists>message. git_said root [''show'', ''-s'', ''--format=%B'', ''HEAD''] message D \<and>
        RELEASE_DCO_TRAILER \<in> set (lines message)))
   (require_one_signed_commit (recorded_os os') root l)"
  unfolding require_one_signed_commit_def
  by (rule learns_weaken [OF learns_bindE [OF learns_git(1) learns_bindE [OF learns_git(1)
        learns_bindE [OF learns_git(1) learns_bindE [OF learns_basic(4) learns_bindE [OF learns_git(1)
        learns_bindE [OF learns_basic(4) learns_bindE [OF learns_git(1) learns_basic(4)]]]]]]]])
    (auto simp: list_ex_iff)

lemma learns_changes:
  "learns (\<lambda>_. sole_release_commit root l) (require_release_changes (recorded_os os') root True l)"
  unfolding require_release_changes_def Let_def simp_thms if_True if_False
  by (rule learns_weaken [OF learns_bindE [OF learns_git(1) learns_bindE [OF learns_basic(4)
        learns_bindE [OF learns_one_commit learns_bindE [OF learns_changed_paths learns_basic(4)]]]]])
    (auto simp: sole_release_commit_def, blast)

lemma learns_manifest:
  "learns (\<lambda>v D. \<exists>body. file_read root ''Cargo.toml'' body D \<and> manifest_states t body v)
     (manifest_version t (recorded_os os') root)"
  unfolding manifest_version_def
  by (rule learns_weaken [OF learns_bindE [OF learns_map_errE [OF learns_read] learns_bindE [OF learns_basic(3)
        learns_bindE [OF learns_basic(3) learns_bindE [OF learns_basic(3) learns_bindE [OF learns_basic(3) learns_basic(1)]]]]]])
    (auto simp: manifest_states_def res_simps ok_or_Inr bind_eq_Some_conv)

lemma learns_content:
  "learns (\<lambda>_. release_content t root v) (validate_release_content t (recorded_os os') root v)"
proof -
  have changelog: "learns (\<lambda>_ D. \<exists>changelog. file_read root (pp_changelog TRAITS_PACKAGE) changelog D \<and>
      length (filter (\<lambda>line. is_version_heading line (''## ['' @ rt_show t v @ '']'')) (lines changelog)) = 1)
      (validate_changelog t (recorded_os os') root v)"
    unfolding validate_changelog_def Let_def
    by (rule learns_weaken [OF learns_bindE [OF learns_map_errE [OF learns_read] learns_basic(4)]]) auto
  have stated: "learns (\<lambda>_. release_content t root v) (bindE (manifest_version t (recorded_os os') root) (\<lambda>actual.
      bindE (fail_ifE (actual \<noteq> v) (e actual)) (\<lambda>_. validate_changelog t (recorded_os os') root v)))" for e
    by (rule learns_weaken [OF learns_bindE [OF learns_manifest learns_bindE [OF learns_basic(4) changelog]]])
      (auto simp: release_content_def)
  show ?thesis
    unfolding validate_release_content_def
    by (intro learns_rest quiet_record.check_manifest_keeps stated transaction_more)
qed

lemma learns_check:
  "learns (\<lambda>_ D. admits l v \<and> v_build v = [] \<and> v_pre v \<noteq> ''rc.0'' \<and>
     sole_release_commit root l D \<and> release_content t root v D) (check t (recorded_os os') root v l)"
  (is "learns (\<lambda>_ D. ?version \<and> _ D) _")
proof -
  have content: "learns (\<lambda>_. release_content t root v)
      (bindE (validate_release_content t (recorded_os os') root v) (\<lambda>_. bindE (map_errE ie_text
        (package_content_run (recorded_os os') root)) (\<lambda>_. modifyE (os_print (recorded_os os') msg))))" for msg
    by (rule learns_weaken [OF learns_bindE [OF learns_content learns_nothing]])
      (auto intro: transaction_more intro!: keeps quiet_record.package_content_keeps quiet_record.keeps_modify)
  show ?thesis
    unfolding check_def
    by (rule learns_weaken [OF learns_bindE [OF learns_basic(3) learns_bindE [OF learns_basic(3)
          learns_rest [OF quiet_record.git_state_keeps(2) learns_bindE [OF learns_changes content]]]]])
      (auto simp: require_version_def validate_selected_release_version_def validate_release_version_def
        res_simps intro: transaction_more split: if_splits)
qed

text \<open>So a release that passes its check is the one commit it claims to be.\<close>

theorem release_checked:
  "case check t (recorded_os os') root v l (w, []) of (r, (w', log)) \<Rightarrow> (case r of
      Inl _ \<Rightarrow> True
    | Inr _ \<Rightarrow> admits l v \<and> v_build v = [] \<and> v_pre v \<noteq> ''rc.0'' \<and>
        sole_release_commit root l (set log) \<and> release_content t root v (set log))"
proof -
  obtain r w' log where run: "check t (recorded_os os') root v l (w, []) = (r, (w', log))"
    by (cases "check t (recorded_os os') root v l (w, [])") auto
  from emitsD [OF learns_check [unfolded learns_def] run] run show ?thesis by (auto split: sum.splits)
qed

end
