(* ===== verification/ReleaseEdits.thy ===== *)
theory ReleaseEdits
  imports ReleaseChecked
begin

text \<open>
  What the release commands do to a checkout. Every edit, a subprocess of \<open>release-plz\<close> or a step of the
  replacement of \<open>Cargo.toml\<close>, is made only after \<open>git\<close>, the files and \<open>release-plz\<close> said what its command
  requires; and when a command succeeds, what it did and what was read afterwards is exact.
\<close>

section \<open>Evidence\<close>

definition git_text :: "string \<Rightarrow> string list \<Rightarrow> string \<Rightarrow> os_answer set \<Rightarrow> bool" where
  "git_text root args s D \<longleftrightarrow> (\<exists>out u. git_ran root args out D \<and> from_utf8 (out_stdout out) = Inr u \<and> s = trim u)"

text \<open>The line the base selects: as given, or as the branch of the checkout says.\<close>

definition line_chosen :: "string \<Rightarrow> string option \<Rightarrow> release_line \<Rightarrow> os_answer set \<Rightarrow> bool" where
  "line_chosen root base l D \<longleftrightarrow> (case base of
     Some b \<Rightarrow> from_base_ref b = Inr l
   | None \<Rightarrow> \<exists>branch. git_text root [''symbolic-ref'', ''--quiet'', ''HEAD''] branch D \<and>
       (from_base_ref branch = Inr l \<or>
        l = Main \<and> (\<exists>s. git_text root
          [''merge-base'', ''--is-ancestor'', ''refs/remotes/origin/main'', ''HEAD''] s D)))"

text \<open>The version is of a release and of the line, and on a support line it advances the tagged versions.\<close>

definition version_admitted ::
  "semver \<Rightarrow> string \<Rightarrow> release_line \<Rightarrow> version \<Rightarrow> os_answer set \<Rightarrow> bool" where
  "version_admitted sv root l v D \<longleftrightarrow> admits l v \<and>
     (l = Main \<or> (\<exists>tags vs. git_text root [''tag'', ''--merged'', tracking_ref l, ''--list'', ''v*''] tags D \<and>
        tag_versions sv ''v'' (lines tags) = Inr vs \<and> require_advancement sv l v vs = Inr ()))"

text \<open>HEAD is the tip of the line's protected branch.\<close>

definition at_tip :: "string \<Rightarrow> release_line \<Rightarrow> os_answer set \<Rightarrow> bool" where
  "at_tip root l D \<longleftrightarrow> (\<exists>tip. git_said root [''rev-parse'', ''HEAD''] tip D \<and>
     git_said root [''rev-parse'', tracking_ref l] tip D)"

definition clean :: "string \<Rightarrow> os_answer set \<Rightarrow> bool" where
  "clean root D \<longleftrightarrow> git_said root [''status'', ''--porcelain''] [] D"

definition pinned_release_plz :: "string \<Rightarrow> os_answer set \<Rightarrow> bool" where
  "pinned_release_plz root D \<longleftrightarrow> (\<exists>out.
     Ran (cmd_args [''--version''] (release_plz_command root)) (Inr out) \<in> D \<and> out_success out \<and>
     one_line (out_stdout out) ''release-plz --version'' = Inr (''release-plz '' @ RELEASE_PLZ_VERSION))"

definition manifest_said :: "release_tools \<Rightarrow> string \<Rightarrow> version \<Rightarrow> os_answer set \<Rightarrow> bool" where
  "manifest_said t root v D \<longleftrightarrow> (\<exists>body. file_read root ''Cargo.toml'' body D \<and> manifest_states t body v)"

text \<open>The paths that differ from a commit, the untracked ones included.\<close>

definition paths_changed :: "string \<Rightarrow> string \<Rightarrow> string set \<Rightarrow> os_answer set \<Rightarrow> bool" where
  "paths_changed root commit ps D \<longleftrightarrow> (\<exists>changed added.
     git_listed root [''diff'', ''--name-only'', ''--no-renames'', ''-z'', commit] changed D \<and>
     git_listed root [''ls-files'', ''--others'', ''--exclude-standard'', ''-z''] added D \<and>
     set changed \<union> set added = ps)"

definition activation_branch :: "release_tools \<Rightarrow> string \<Rightarrow> version \<Rightarrow> os_answer set \<Rightarrow> bool" where
  "activation_branch t root target D \<longleftrightarrow>
     git_said root [''symbolic-ref'', ''--short'', ''HEAD''] (ACTIVATION_BRANCH_PREFIX @ rt_show t target) D"

lemma said_mono:
  "git_said root args s D \<Longrightarrow> D \<subseteq> E \<Longrightarrow> git_said root args s E"
  "git_listed root args ps D \<Longrightarrow> D \<subseteq> E \<Longrightarrow> git_listed root args ps E"
  "file_read root p body D \<Longrightarrow> D \<subseteq> E \<Longrightarrow> file_read root p body E"
  "git_text root args s D \<Longrightarrow> D \<subseteq> E \<Longrightarrow> git_text root args s E"
  by (auto simp: git_said_def git_listed_def git_ran_def file_read_def git_text_def)

lemma text_union [simp]:
  "git_text root args s (D \<union> E) \<longleftrightarrow> git_text root args s D \<or> git_text root args s E"
  by (auto simp: git_text_def git_ran_def)

lemma evidence_mono:
  "line_chosen root base l D \<Longrightarrow> D \<subseteq> E \<Longrightarrow> line_chosen root base l E"
  "version_admitted sv root l v D \<Longrightarrow> D \<subseteq> E \<Longrightarrow> version_admitted sv root l v E"
  "at_tip root l D \<Longrightarrow> D \<subseteq> E \<Longrightarrow> at_tip root l E"
  "clean root D \<Longrightarrow> D \<subseteq> E \<Longrightarrow> clean root E"
  "pinned_release_plz root D \<Longrightarrow> D \<subseteq> E \<Longrightarrow> pinned_release_plz root E"
  "manifest_said t root v D \<Longrightarrow> D \<subseteq> E \<Longrightarrow> manifest_said t root v E"
  "paths_changed root commit ps D \<Longrightarrow> D \<subseteq> E \<Longrightarrow> paths_changed root commit ps E"
  "activation_branch t root target D \<Longrightarrow> D \<subseteq> E \<Longrightarrow> activation_branch t root target E"
  by (fastforce simp: line_chosen_def version_admitted_def at_tip_def clean_def manifest_said_def
      paths_changed_def activation_branch_def intro: said_mono split: option.splits |
      auto simp: pinned_release_plz_def)+

lemmas evidence_more [simp] = evidence_mono [OF _ Un_upper1] evidence_mono [OF _ Un_upper2]

section \<open>What the checks learn\<close>

lemma learns_git_text: "learns (\<lambda>s. git_text root args s) (git (recorded_os os') root args)"
  unfolding git_def
  by (rule learns_weaken [OF learns_bindE [OF learns_map_errE [OF learns_output]
        learns_bindE [OF learns_basic(4) learns_basic(3)]]])
    (auto simp: git_text_def git_ran_def res_simps)

lemma learns_optional:
  "learns (\<lambda>x D. case x of None \<Rightarrow> True | Some s \<Rightarrow> git_said root args s D)
     (git_optional_line (recorded_os os') root args)"
proof -
  have out: "learns (\<lambda>x D. case x of None \<Rightarrow> True | Some s \<Rightarrow>
       out_success out \<and> one_line (out_stdout out) ''git'' = Inr s)
     (if out_success out then bindE (liftE (one_line (out_stdout out) ''git'')) (\<lambda>s. okE (Some s))
      else okE None)" for out
    by (cases "out_success out")
      (auto intro: learns_weaken [OF learns_bindE [OF learns_basic(3) learns_basic(1)]]
        learns_weaken [OF learns_basic(1)])
  show ?thesis
    unfolding git_optional_line_def command_output_def
    by (rule learns_weaken [OF learns_bindE [OF learns_map_errE [OF learns_output] out]])
      (auto simp: git_said_def git_ran_def split: option.splits)
qed

lemma learns_line: "learns (\<lambda>l. line_chosen root base l) (resolve (recorded_os os') root base)"
proof (cases base)
  case None
  have "learns (\<lambda>l D. from_base_ref branch = Inr l \<or>
       l = Main \<and> (\<exists>s. git_text root [''merge-base'', ''--is-ancestor'', ''refs/remotes/origin/main'', ''HEAD''] s D))
     (if b then liftE (from_base_ref branch) else bindE (map_errE f (git (recorded_os os') root
        [''merge-base'', ''--is-ancestor'', ''refs/remotes/origin/main'', ''HEAD''])) (\<lambda>_. okE Main))" for b branch f
    by (rule learns_if, rule learns_weaken [OF learns_basic(3)], simp,
        rule learns_weaken [OF learns_bindE [OF learns_map_errE [OF learns_git_text] learns_basic(1)]]) auto
  then show ?thesis
    unfolding resolve_def None option.case
    by (rule learns_weaken [OF learns_bindE [OF learns_map_errE [OF learns_git_text]]])
      (auto simp: line_chosen_def None, blast)
next
  case (Some b)
  show ?thesis
    unfolding resolve_def Some option.case
    by (rule learns_weaken [OF learns_basic(3)]) (simp add: line_chosen_def)
qed

lemma learns_version:
  "learns (\<lambda>_. version_admitted sv root l v) (validate_version sv (recorded_os os') root l v ''v'')"
proof -
  have tags: "learns (\<lambda>_ D. l = Main \<or> (\<exists>tags vs.
        git_text root [''tag'', ''--merged'', tracking_ref l, ''--list'', ''v*''] tags D \<and>
        tag_versions sv ''v'' (lines tags) = Inr vs \<and> require_advancement sv l v vs = Inr ()))
     (if l = Main then okE () else bindE (git (recorded_os os') root
         [''tag'', ''--merged'', tracking_ref l, ''--list'', ''v'' @ ''*'']) (\<lambda>tags.
       bindE (liftE (tag_versions sv ''v'' (lines tags))) (\<lambda>versions.
       liftE (require_advancement sv l v versions))))"
    by (rule learns_if, rule learns_weaken [OF learns_basic(1)], simp, rule learns_weaken [OF learns_bindE
          [OF learns_git_text learns_bindE [OF learns_basic(3) learns_basic(3)]]]) auto
  show ?thesis
    unfolding validate_version_def
    by (rule learns_weaken [OF learns_bindE [OF learns_basic(3) tags]])
      (auto simp: version_admitted_def require_version_def res_simps)
qed

lemma learns_activation_branch:
  "learns (\<lambda>_. activation_branch t root target) (require_activation_branch t (recorded_os os') root target)"
  unfolding require_activation_branch_def Let_def
  by (rule learns_weaken [OF learns_bindE [OF learns_optional learns_bindE [OF learns_basic(3) learns_basic(4)]]])
    (auto simp: activation_branch_def ok_or_Inr)

lemma learns_tip:
  "learns (\<lambda>_ D. at_tip root l D \<and> (start \<longrightarrow> clean root D))
     (require_exact_git_state (recorded_os os') root start l)"
proof -
  have status: "learns (\<lambda>_ D. start \<longrightarrow> clean root D) (if start
     then bindE (git_line (recorded_os os') root [''status'', ''--porcelain'']) (\<lambda>status. fail_ifE (status \<noteq> []) e)
     else okE ())" for e
    by (rule learns_if) (auto intro: learns_weaken [OF learns_basic(1)]
        learns_weaken [OF learns_bindE [OF learns_git(1) learns_basic(4)]] simp: clean_def)
  show ?thesis
    unfolding require_exact_git_state_def
    by (rule learns_weaken [OF learns_bindE [OF learns_git(1) learns_bindE [OF learns_git(1)
          learns_bindE [OF learns_basic(4) status]]]]) (auto simp: at_tip_def)
qed

lemma learns_release_plz:
  "learns (\<lambda>_. pinned_release_plz root) (require_release_plz (recorded_os os') root)"
  unfolding require_release_plz_def Let_def
  by (rule learns_weaken [OF learns_bindE [OF learns_map_errE [OF learns_output] learns_bindE [OF learns_basic(3)
        learns_bindE [OF learns_basic(3) learns_basic(4)]]]])
    (auto simp: pinned_release_plz_def require_success_def split: if_splits)

lemma learns_manifest_said: "learns (\<lambda>v. manifest_said t root v) (manifest_version t (recorded_os os') root)"
  by (rule learns_weaken [OF learns_manifest]) (simp add: manifest_said_def)

lemma learns_subset:
  "learns (\<lambda>_ D. \<exists>ps \<subseteq> set RELEASE_SOURCE_PATHS. paths_changed root (tracking_ref l) ps D)
     (require_release_path_subset (recorded_os os') root l)"
  unfolding require_release_path_subset_def
  by (rule learns_weaken [OF learns_bindE [OF learns_changed_paths learns_basic(3)]])
    (fastforce simp: paths_changed_def res_simps list_all_iff)

section \<open>The plan of a command\<close>

text \<open>What an edit asks for, whatever it was answered.\<close>

fun asked :: "os_answer \<Rightarrow> os_answer" where
  "asked (Ordered c r) = Ordered c (Inr (True, []))"
| "asked (Created p r) = Created p (Inr [])"
| "asked (Written p b r) = Written p b (Inr ())"
| "asked (ModeSet p n r) = ModeSet p n (Inr ())"
| "asked (Synced p r) = Synced p (Inr ())"
| "asked (Replaced p q r) = Replaced p q (Inr ())"
| "asked e = e"

text \<open>An edit that asks for the next step of a plan whose steps so far succeeded.\<close>

definition next_step :: "os_answer list \<Rightarrow> os_answer list \<Rightarrow> os_answer \<Rightarrow> bool" where
  "next_step plan made e \<longleftrightarrow>
     (\<exists>n < length plan. made = take n plan \<and> asked e = asked (plan ! n))"

text \<open>
  The activation: \<open>Cargo.toml\<close>, a regular file that states the current version, is replaced by a synced
  file of its permissions that differs in the version only.
\<close>

definition activation_ready ::
  "release_tools \<Rightarrow> string \<Rightarrow> version \<Rightarrow> version \<Rightarrow> version \<Rightarrow> os_answer set \<Rightarrow> bool" where
  "activation_ready t root target current selected D \<longleftrightarrow>
     manifest_said t root current D \<and> activation_version t current target = Inr selected \<and>
     activation_branch t root target D \<and> at_tip root Main D \<and> clean root D"

definition manifest_text :: "release_tools \<Rightarrow> string \<Rightarrow> string \<Rightarrow> bool" where
  "manifest_text t body v \<longleftrightarrow> (\<exists>document package.
     rt_toml t body = Inr document \<and> toml_get document toml_table_like ''package'' = Some package \<and>
     toml_get package toml_str ''version'' = Some v)"

definition replacement :: "string \<Rightarrow> string \<Rightarrow> nat \<Rightarrow> bytes \<Rightarrow> string \<Rightarrow> os_answer list" where
  "replacement parent path mode bytes temporary =
     [Created parent (Inr temporary), Written temporary bytes (Inr ()), ModeSet temporary mode (Inr ()),
      Synced temporary (Inr ()), Replaced temporary path (Inr ())]"

definition activation_plan ::
  "release_tools \<Rightarrow> string \<Rightarrow> version \<Rightarrow> version \<Rightarrow> version \<Rightarrow> os_answer set \<Rightarrow> os_answer list \<Rightarrow> bool" where
  "activation_plan t root target current selected D plan \<longleftrightarrow>
     activation_ready t root target current selected D \<and>
     (\<exists>body md parent temporary.
        file_read root ''Cargo.toml'' body D \<and> manifest_text t body (rt_show t current) \<and>
        Inspected (path_join root ''Cargo.toml'') (Inr md) \<in> D \<and> fm_is_file md \<and> \<not> fm_is_symlink md \<and>
        path_parent (path_join root ''Cargo.toml'') = Some parent \<and>
        plan = replacement parent (path_join root ''Cargo.toml'') (fm_permissions md)
          (as_bytes (rt_toml_set_version t body (rt_show t selected))) temporary)"

text \<open>
  The preparation: \<open>release-plz update\<close>, and \<open>release-plz set-version\<close> when the version it derived may be
  adjusted to the selected one and only release paths changed.
\<close>

definition update_order :: "string \<Rightarrow> command" where
  "update_order root = cmd_args [''update'', ''--config'', RELEASE_CONFIG, ''--manifest-path'', ''Cargo.toml'']
     (release_plz_command root)"

definition preparation_ready ::
  "release_tools \<Rightarrow> string \<Rightarrow> string option \<Rightarrow> version \<Rightarrow> release_line \<Rightarrow> version \<Rightarrow> os_answer set \<Rightarrow> bool" where
  "preparation_ready t root base v l original D \<longleftrightarrow>
     line_chosen root base l D \<and> version_admitted (rt_semver t) root l v D \<and> v_build v = [] \<and>
     v_pre v \<noteq> ''rc.0'' \<and> at_tip root l D \<and> clean root D \<and> pinned_release_plz root D \<and>
     manifest_said t root original D"

definition adjustable ::
  "release_tools \<Rightarrow> string \<Rightarrow> version \<Rightarrow> release_line \<Rightarrow> version \<Rightarrow> os_answer set \<Rightarrow> bool" where
  "adjustable t root v l original D \<longleftrightarrow>
     (\<exists>derived adjustment. manifest_said t root derived D \<and> derived \<noteq> v \<and>
        require_exact_version_adjustment (rt_semver t) original derived v = Inr adjustment) \<and>
     (\<exists>ps \<subseteq> set RELEASE_SOURCE_PATHS. paths_changed root (tracking_ref l) ps D)"

definition updated :: "string \<Rightarrow> os_answer list \<Rightarrow> bool" where
  "updated root es \<longleftrightarrow> (\<exists>status. es = [Ordered (update_order root) (Inr (True, status))])"

definition adjusted :: "release_tools \<Rightarrow> string \<Rightarrow> version \<Rightarrow> os_answer list \<Rightarrow> bool" where
  "adjusted t root v es \<longleftrightarrow> (\<exists>es' status. updated root es' \<and>
     es = es' @ [Ordered (release_plz_set_version t root v) (Inr (True, status))])"

fun permitted :: "release_tools \<Rightarrow> string \<Rightarrow> release_command \<Rightarrow> os_answer list \<Rightarrow> os_answer \<Rightarrow> bool" where
  "permitted t root (Activate target) before e \<longleftrightarrow> (\<exists>current selected plan.
     activation_plan t root target current selected (first_seen before) plan \<and> next_step plan (edits before) e)"
| "permitted t root (Prepare base v) before e \<longleftrightarrow> (\<exists>l original c r.
     e = Ordered c r \<and> preparation_ready t root base v l original (first_seen before) \<and>
     (edits before = [] \<and> c = update_order root \<or>
      updated root (edits before) \<and> c = release_plz_set_version t root v \<and>
        adjustable t root v l original (since_edit before)))"
| "permitted t root (Check base v) before e \<longleftrightarrow> False"

text \<open>What is left when a command succeeds.\<close>

fun completed :: "release_tools \<Rightarrow> string \<Rightarrow> release_command \<Rightarrow> os_answer list \<Rightarrow> bool" where
  "completed t root (Activate target) log \<longleftrightarrow> (\<exists>current selected.
     activation_plan t root target current selected (first_seen log) (edits log) \<and>
     paths_changed root ''HEAD'' (set ACTIVATION_PATHS) (since_edit log) \<and>
     manifest_said t root selected (since_edit log))"
| "completed t root (Prepare base v) log \<longleftrightarrow> (\<exists>l original.
     preparation_ready t root base v l original (first_seen log) \<and>
     (updated root (edits log) \<or> adjusted t root v (edits log)) \<and> at_tip root l (since_edit log) \<and>
     paths_changed root (tracking_ref l) (set RELEASE_SOURCE_PATHS) (since_edit log) \<and>
     release_content t root v (since_edit log))"
| "completed t root (Check base v) log \<longleftrightarrow> (\<exists>l.
     line_chosen root base l (set log) \<and> admits l v \<and> v_build v = [] \<and> v_pre v \<noteq> ''rc.0'' \<and>
     edits log = [] \<and> sole_release_commit root l (set log) \<and> release_content t root v (set log))"

section \<open>Activation\<close>

lemma replacement_steps [simp]:
  "length (replacement parent path mode bytes temporary) = 5"
  "take 0 (replacement parent path mode bytes temporary) = []"
  by (simp_all add: replacement_def)

text \<open>One step of a plan.\<close>

lemma leads_planned:
  assumes "n < length plan" and "\<And>r. is_edit (h r)" and "\<And>r. asked (h r) = asked (plan ! n)"
    and "h (Inr ()) = plan ! n"
    and "\<And>l e. E (first_seen l) \<Longrightarrow> next_step plan (edits l) e \<Longrightarrow> J l e"
  shows "leads J (\<lambda>l. E (first_seen l) \<and> edits l = take n plan) (recordE h m)
    (\<lambda>_ l. E (first_seen l) \<and> edits l = take (Suc n) plan)"
proof (rule leads_edit)
  fix l r
  assume l: "E (first_seen l) \<and> edits l = take n plan"
  with assms(1,3) have "next_step plan (edits l) (h r)" unfolding next_step_def by auto
  with l assms(5) show "J l (h r)" by blast
next
  fix l and x :: unit
  assume "E (first_seen l) \<and> edits l = take n plan"
  with assms(1,4) assms(2) [of "Inr ()"]
  show "E (first_seen (l @ [h (Inr x)])) \<and> edits (l @ [h (Inr x)]) = take (Suc n) plan"
    by (simp add: first_seen_append(1) edits_def take_Suc_conv_app_nth)
qed

lemma leads_replace:
  fixes A :: "os_answer set \<Rightarrow> bool" and os' :: "'w os"
    and e1 e2 e3 e4 e5 :: "string \<Rightarrow> string"
  assumes grant: "\<And>tmp l e. E tmp (first_seen l) \<Longrightarrow> next_step (replacement parent path mode body tmp) (edits l) e \<Longrightarrow> J l e"
    and create: "\<And>l r. A (first_seen l) \<Longrightarrow> edits l = [] \<Longrightarrow> J l (Created parent r)"
    and start: "\<And>tmp D. A D \<Longrightarrow> E tmp D"
  shows "leads J (\<lambda>l. A (first_seen l) \<and> edits l = [])
    (bindE (map_errE e1 (os_temp_new (recorded_os os') parent)) (\<lambda>temporary.
     bindE (map_errE e2 (os_temp_write (recorded_os os') temporary body)) (\<lambda>_.
     bindE (map_errE e3 (os_temp_permissions (recorded_os os') temporary mode)) (\<lambda>_.
     bindE (map_errE e4 (os_temp_sync (recorded_os os') temporary)) (\<lambda>_.
     map_errE e5 (os_temp_persist (recorded_os os') temporary path))))))
    (\<lambda>_ l. \<exists>tmp. E tmp (first_seen l) \<and> edits l = replacement parent path mode body tmp)"
proof (rule leads_bindE)
  let ?at = "\<lambda>n tmp l. E tmp (first_seen l) \<and> edits l = take n (replacement parent path mode body tmp)"
  show "leads J (\<lambda>l. A (first_seen l) \<and> edits l = []) (map_errE e1 (os_temp_new (recorded_os os') parent)) (?at (Suc 0))"
    unfolding recorded_fields
    by (intro leads_map_errE leads_edit) (auto intro: create start simp: first_seen_append(1) edits_def replacement_def)
  show "leads J (?at (Suc 0) tmp) (bindE (map_errE e2 (os_temp_write (recorded_os os') tmp body)) (\<lambda>_.
       bindE (map_errE e3 (os_temp_permissions (recorded_os os') tmp mode)) (\<lambda>_.
       bindE (map_errE e4 (os_temp_sync (recorded_os os') tmp)) (\<lambda>_.
       map_errE e5 (os_temp_persist (recorded_os os') tmp path)))))
     (\<lambda>_ l. \<exists>tmp. E tmp (first_seen l) \<and> edits l = replacement parent path mode body tmp)" for tmp
  proof -
    have step: "leads J (?at n tmp) (map_errE e (recordE h m)) (\<lambda>_. ?at (Suc n) tmp)"
      if "n < 5" "\<And>r. is_edit (h r)" "\<And>r. asked (h r) = asked (replacement parent path mode body tmp ! n)"
        "h (Inr ()) = replacement parent path mode body tmp ! n" for n h and m :: "('w, string, unit) eff" and e :: "string \<Rightarrow> string"
      by (intro leads_map_errE leads_planned that grant) (simp_all add: that)
    have "leads J (?at (Suc 0) tmp) (map_errE e2 (recordE (Written tmp body) (os_temp_write os' tmp body)))
        (\<lambda>_. ?at (Suc (Suc 0)) tmp)"
      "leads J (?at (Suc (Suc 0)) tmp) (map_errE e3 (recordE (ModeSet tmp mode)
        (os_temp_permissions os' tmp mode))) (\<lambda>_. ?at (Suc (Suc (Suc 0))) tmp)"
      "leads J (?at (Suc (Suc (Suc 0))) tmp) (map_errE e4 (recordE (Synced tmp) (os_temp_sync os' tmp)))
        (\<lambda>_. ?at (Suc (Suc (Suc (Suc 0)))) tmp)"
      "leads J (?at (Suc (Suc (Suc (Suc 0)))) tmp) (map_errE e5 (recordE (Replaced tmp path)
        (os_temp_persist os' tmp path))) (\<lambda>_. ?at (Suc (Suc (Suc (Suc (Suc 0))))) tmp)"
      by (rule step; simp add: replacement_def)+
    note s = this
    show ?thesis
      unfolding recorded_fields
      by (rule leads_bindE [OF s(1) leads_bindE [OF s(2) leads_bindE [OF s(3) leads_weaken [OF s(4)]]]]) auto
  qed
qed

lemma unedited_lasts [intro, simp]: "enduring (\<lambda>l. edits l = [])"
  by (simp add: enduring_def quiet_edits)

lemma activation_ready_mono:
  "activation_ready t root target current selected D \<Longrightarrow> D \<subseteq> E \<Longrightarrow>
   activation_ready t root target current selected E"
  by (auto simp: activation_ready_def intro: evidence_mono)

lemma activation_planI:
  "activation_ready t root target current selected D \<Longrightarrow> file_read root ''Cargo.toml'' body D \<Longrightarrow>
   manifest_text t body (rt_show t current) \<Longrightarrow> Inspected (path_join root ''Cargo.toml'') (Inr md) \<in> D \<Longrightarrow>
   fm_is_file md \<Longrightarrow> \<not> fm_is_symlink md \<Longrightarrow> path_parent (path_join root ''Cargo.toml'') = Some parent \<Longrightarrow>
   activation_plan t root target current selected D (replacement parent (path_join root ''Cargo.toml'')
     (fm_permissions md) (as_bytes (rt_toml_set_version t body (rt_show t selected))) temporary)"
  unfolding activation_plan_def by blast

lemma activation_plan_mono:
  "activation_plan t root target current selected D plan \<Longrightarrow> D \<subseteq> E \<Longrightarrow>
   activation_plan t root target current selected E plan"
  by (subst (asm) activation_plan_def)
    (auto intro!: activation_planI intro: activation_ready_mono said_mono(3) simp del: replacement_steps)

lemma leads_replace_manifest:
  fixes os' :: "'w os" and e1 e2 e3 e4 e5 :: "string \<Rightarrow> string"
  assumes "\<And>D tmp. S D \<Longrightarrow> activation_plan t root target current selected D (replacement parent path mode body tmp)"
  shows "leads (permitted t root (Activate target)) (knows (\<lambda>l. edits l = []) S)
    (bindE (map_errE e1 (os_temp_new (recorded_os os') parent)) (\<lambda>temporary.
     bindE (map_errE e2 (os_temp_write (recorded_os os') temporary body)) (\<lambda>_.
     bindE (map_errE e3 (os_temp_permissions (recorded_os os') temporary mode)) (\<lambda>_.
     bindE (map_errE e4 (os_temp_sync (recorded_os os') temporary)) (\<lambda>_.
     map_errE e5 (os_temp_persist (recorded_os os') temporary path))))))
    (\<lambda>_ l. activation_plan t root target current selected (first_seen l) (edits l))"
proof -
  let ?plan = "\<lambda>D tmp. activation_plan t root target current selected D (replacement parent path mode body tmp)"
  show ?thesis
  proof (rule leads_weaken [OF leads_replace [where A = "\<lambda>D. \<forall>tmp. ?plan D tmp" and E = "\<lambda>tmp D. ?plan D tmp"]])
    show "permitted t root (Activate target) l (Created parent r)"
      if "\<forall>tmp. ?plan (first_seen l) tmp" and "edits l = []" for l r
    proof -
      have "next_step (replacement parent path mode body []) [] (Created parent r)"
        by (auto simp: next_step_def replacement_def intro!: exI [of _ "0 :: nat"])
      with that show ?thesis by auto
    qed
    show "(\<forall>tmp. ?plan (first_seen l) tmp) \<and> edits l = []" if "knows (\<lambda>l. edits l = []) S l" for l
      using that by (auto simp: knows_def first_seen_all intro: activation_plan_mono [OF assms])
  qed auto
qed

lemma leads_set_version:
  "leads (permitted t root (Activate target))
     (knows (\<lambda>l. edits l = []) (activation_ready t root target current selected))
     (set_activation_manifest_version t (recorded_os os') root current selected)
     (\<lambda>_ l. activation_plan t root target current selected (first_seen l) (edits l))"
proof -
  have inspected: "learns (\<lambda>md D. Inspected p (Inr md) \<in> D) (os_symlink_metadata (recorded_os os') p)" for p
    unfolding recorded_fields by (rule learns_recordE) simp
  show ?thesis
    unfolding set_activation_manifest_version_def write_exact_file_def Let_def
    by (rule leads_step [OF learns_map_errE [OF learns_read]], simp,
        rule leads_step [OF learns_basic(3)], simp, rule leads_step [OF learns_basic(3)], simp,
        rule leads_step [OF learns_basic(4)], simp, rule leads_step [OF learns_map_errE [OF inspected]], simp,
        rule leads_step [OF learns_basic(4)], simp, rule leads_step [OF learns_basic(3)], simp,
        rule leads_replace_manifest)
      (auto simp: manifest_text_def res_simps ok_or_Inr bind_eq_Some_conv toml_get_def
        intro!: activation_planI intro: activation_ready_mono)
qed

lemma knows_weaken: "knows A S l \<Longrightarrow> (\<And>D. S D \<Longrightarrow> T D) \<Longrightarrow> knows A T l"
  unfolding knows_def by blast

lemma knows_nothing: "A l \<Longrightarrow> knows A (\<lambda>_. True) l"
  unfolding knows_def by blast

lemma leads_start: "leads J (knows A (\<lambda>_. True)) m B \<Longrightarrow> leads J A m B"
  by (erule leads_weaken) (auto intro: knows_nothing)

lemma learns_print: "learns (\<lambda>_ _. True) (modifyE (os_print (recorded_os os') s))"
  by (intro learns_nothing quiet_record.keeps_modify)

lemma paths_changedI:
  "git_listed root [''diff'', ''--name-only'', ''--no-renames'', ''-z'', commit] changed D1 \<Longrightarrow>
   git_listed root [''ls-files'', ''--others'', ''--exclude-standard'', ''-z''] added D2 \<Longrightarrow>
   set changed \<union> set added = ps \<Longrightarrow> D1 \<union> D2 \<subseteq> D \<Longrightarrow> paths_changed root commit ps D"
  unfolding paths_changed_def
  by (rule exI [of _ changed], rule exI [of _ added]) (auto intro: said_mono(2))

lemma same_paths: "set_union xs ys = set_union [] zs \<Longrightarrow> set xs \<union> set ys = set zs"
  by (drule arg_cong [of _ _ set]) simp

lemma learns_exact_paths:
  "learns (\<lambda>_. paths_changed root ''HEAD'' (set expected))
     (require_exact_changed_paths (recorded_os os') root expected label)"
  unfolding require_exact_changed_paths_def Let_def
  by (rule learns_weaken [OF learns_bindE [OF learns_git(2) learns_bindE [OF learns_git(2) learns_basic(4)]]])
    (auto intro!: paths_changedI same_paths)

lemma plan_lasts: "enduring (\<lambda>l. activation_plan t root target current selected (first_seen l) (edits l))"
  by (rule enduring_seen [of "activation_plan t root target current selected"])
    (auto simp: activation_plan_def replacement_def)

lemma leads_activate:
  "leads (permitted t root (Activate target)) (\<lambda>l. edits l = []) (activate t (recorded_os os') root target)
     (\<lambda>_. completed t root (Activate target))"
proof -
  let ?J = "permitted t root (Activate target)"
  have rest: "leads ?J (\<lambda>l. activation_plan t root target current selected (first_seen l) (edits l))
     (bindE (require_exact_changed_paths (recorded_os os') root ACTIVATION_PATHS ''activation'') (\<lambda>_.
      bindE (manifest_version t (recorded_os os') root) (\<lambda>retained.
      bindE (fail_ifE (retained \<noteq> selected) e) (\<lambda>_. modifyE (os_print (recorded_os os') s)))))
     (\<lambda>_. completed t root (Activate target))" for current selected e s
    by (rule leads_start, rule leads_step [OF learns_exact_paths plan_lasts], rule leads_step [OF
          learns_manifest_said plan_lasts], rule leads_step [OF learns_basic(4) plan_lasts],
        rule leads_last [OF learns_print plan_lasts]) (auto intro: evidence_mono)
  show ?thesis
    unfolding activate_def
    by (rule leads_start, rule leads_step [OF learns_manifest_said unedited_lasts],
        rule leads_step [OF learns_basic(3) unedited_lasts], rule leads_step [OF learns_activation_branch unedited_lasts],
        rule leads_step [OF learns_tip unedited_lasts], rule leads_bindE [OF leads_weaken [OF leads_set_version] rest],
        erule knows_weaken) (auto simp: activation_ready_def)
qed

section \<open>Preparation\<close>

lemma leads_order:
  assumes "\<And>l r. A l \<Longrightarrow> J l (Ordered c r)" and "\<And>l. A l \<Longrightarrow> E (first_seen l) \<and> edits l = es"
  shows "leads J A (map_errE f (os_status (recorded_os os') c))
    (\<lambda>x l. E (first_seen l) \<and> edits l = es @ [Ordered c (Inr x)])"
  unfolding recorded_fields
  by (intro leads_map_errE leads_edit) (use assms in \<open>auto simp: first_seen_append(1) edits_def\<close>)

lemma preparation_lasts:
  "enduring (\<lambda>l. preparation_ready t root base v line original (first_seen l) \<and> edits l = e # es)"
  "enduring (\<lambda>l. preparation_ready t root base v line original (first_seen l) \<and>
     (updated root (edits l) \<or> adjusted t root v (edits l)))"
  using enduring_seen [of "\<lambda>D l. preparation_ready t root base v line original D \<and> l = e # es"]
    enduring_seen [of "\<lambda>D l. preparation_ready t root base v line original D \<and>
     (updated root l \<or> adjusted t root v l)"]
  by (auto simp: updated_def adjusted_def)

lemma adjustableI:
  "manifest_said t root derived D1 \<Longrightarrow> derived \<noteq> v \<Longrightarrow>
   require_exact_version_adjustment (rt_semver t) original derived v = Inr adjustment \<Longrightarrow>
   paths_changed root (tracking_ref l) ps D2 \<Longrightarrow> ps \<subseteq> set RELEASE_SOURCE_PATHS \<Longrightarrow> D1 \<subseteq> D \<Longrightarrow> D2 \<subseteq> D \<Longrightarrow>
   adjustable t root v l original D"
  unfolding adjustable_def by (blast intro: evidence_mono)

lemma permitted_set_version:
  "preparation_ready t root base v l original (first_seen before) \<Longrightarrow> updated root (edits before) \<Longrightarrow>
   adjustable t root v l original (since_edit before) \<Longrightarrow>
   permitted t root (Prepare base v) before (Ordered (release_plz_set_version t root v) r)"
  by auto

lemma leads_adjust:
  "leads (permitted t root (Prepare base v))
     (knows (\<lambda>l. preparation_ready t root base v line original (first_seen l) \<and>
          edits l = [Ordered (update_order root) (Inr (a, b))])
        (\<lambda>D. a \<and> manifest_said t root derived D))
     (if derived \<noteq> v then apply_exact_version t (recorded_os os') root original derived v line else okE ())
     (\<lambda>_ l. preparation_ready t root base v line original (first_seen l) \<and>
        (updated root (edits l) \<or> adjusted t root v (edits l)))"
proof (rule leads_if)
  let ?ready = "preparation_ready t root base v line original"
  let ?J = "permitted t root (Prepare base v)" and ?upd = "Ordered (update_order root) (Inr (a, b))"
  show "leads ?J (knows (\<lambda>l. ?ready (first_seen l) \<and> edits l = [?upd]) (\<lambda>D. a \<and> manifest_said t root derived D))
      (okE ()) (\<lambda>_ l. ?ready (first_seen l) \<and> (updated root (edits l) \<or> adjusted t root v (edits l)))"
    by (rule leads_okE) (auto simp: knows_def updated_def)
  assume derived: "derived \<noteq> v"
  have adjusted: "leads ?J (\<lambda>l. (?ready (first_seen l) \<and> a) \<and> edits l = [?upd] @
        [Ordered (release_plz_set_version t root v) (Inr x)])
      (case x of (success, status) \<Rightarrow> bindE (fail_ifE (\<not> success) (e status)) (\<lambda>_.
        modifyE (os_print (recorded_os os') s)))
      (\<lambda>_ l. ?ready (first_seen l) \<and> (updated root (edits l) \<or> adjusted t root v (edits l)))" for x e s
  proof (cases a)
    case True
    obtain c d where x: "x = (c, d)" by (cases x)
    note kept = preparation_lasts(1) [of t root base v line original ?upd
        "[Ordered (release_plz_set_version t root v) (Inr (c, d))]"]
    show ?thesis
      unfolding x prod.case
      by (rule leads_pre [OF leads_start [OF leads_step [OF learns_basic(4) kept leads_last [OF learns_print kept]]]])
        (auto simp: adjusted_def updated_def True)
  qed (simp add: leads_def)
  show "leads ?J (knows (\<lambda>l. ?ready (first_seen l) \<and> edits l = [?upd]) (\<lambda>D. a \<and> manifest_said t root derived D))
      (apply_exact_version t (recorded_os os') root original derived v line)
      (\<lambda>_ l. ?ready (first_seen l) \<and> (updated root (edits l) \<or> adjusted t root v (edits l)))"
    unfolding apply_exact_version_def
    by (rule leads_step [OF learns_basic(3) preparation_lasts(1)], rule leads_step [OF learns_subset preparation_lasts(1)],
        rule leads_bindE [OF leads_order adjusted])
      (use derived in \<open>auto simp: knows_def updated_def simp del: permitted.simps intro!: permitted_set_version intro: adjustableI\<close>)
qed

lemma learns_prepared_changes:
  "learns (\<lambda>_ D. at_tip root l D \<and> paths_changed root (tracking_ref l) (set RELEASE_SOURCE_PATHS) D)
     (require_release_changes (recorded_os os') root False l)"
proof -
  have tip: "learns (\<lambda>_. at_tip root l) (if dirty then require_exact_git_state (recorded_os os') root False l
      else failE e)" for dirty e
    by (rule learns_if, rule learns_weaken [OF learns_tip], simp, rule learns_weaken [OF learns_basic(2)]) simp
  have paths: "learns (\<lambda>ps. paths_changed root (tracking_ref l) (set ps)) (release_changed_paths (recorded_os os') root l)"
    by (rule learns_weaken [OF learns_changed_paths]) (auto simp: paths_changed_def)
  show ?thesis
    unfolding require_release_changes_def Let_def simp_thms if_False
    by (rule learns_weaken [OF learns_bindE [OF learns_git(1) learns_bindE [OF learns_basic(4)
          learns_bindE [OF tip learns_bindE [OF paths learns_basic(4)]]]]])
      (auto intro: evidence_mono dest!: arg_cong [of _ "set_union [] _" set])
qed

lemma content_mono: "release_content t root v D \<Longrightarrow> D \<subseteq> E \<Longrightarrow> release_content t root v E"
  by (auto simp: release_content_def intro: said_mono(3))

lemma leads_prepare:
  "leads (permitted t root (Prepare base v)) (knows (\<lambda>l. edits l = []) (line_chosen root base line))
     (prepare_release t (recorded_os os') root v line) (\<lambda>_. completed t root (Prepare base v))"
proof -
  let ?ready = "preparation_ready t root base v line" and ?J = "permitted t root (Prepare base v)"
  note kept = preparation_lasts(2) [of t root base v line]
  have final: "leads ?J (\<lambda>l. ?ready original (first_seen l) \<and> (updated root (edits l) \<or> adjusted t root v (edits l)))
     (bindE (require_release_changes (recorded_os os') root False line) (\<lambda>_.
      bindE (validate_release_content t (recorded_os os') root v) (\<lambda>_.
      modifyE (os_print (recorded_os os') s))))
     (\<lambda>_. completed t root (Prepare base v))" for original s
    by (rule leads_start, rule leads_step [OF learns_prepared_changes kept], rule leads_step [OF learns_content kept],
        rule leads_last [OF learns_print kept]) (auto intro: evidence_mono content_mono)
  have rest: "leads ?J (\<lambda>l. ?ready original (first_seen l) \<and> edits l = [] @ [Ordered (update_order root) (Inr x)])
     (case x of (success, status) \<Rightarrow> bindE (fail_ifE (\<not> success) (e status)) (\<lambda>_.
      bindE (manifest_version t (recorded_os os') root) (\<lambda>derived.
      bindE (if derived \<noteq> v then apply_exact_version t (recorded_os os') root original derived v line else okE ()) (\<lambda>_.
      bindE (require_release_changes (recorded_os os') root False line) (\<lambda>_.
      bindE (validate_release_content t (recorded_os os') root v) (\<lambda>_.
      modifyE (os_print (recorded_os os') s)))))))
     (\<lambda>_. completed t root (Prepare base v))" for original x e s
  proof -
    obtain a b where x: "x = (a, b)" by (cases x)
    note kept1 = preparation_lasts(1) [of t root base v line original "Ordered (update_order root) (Inr (a, b))" "[]"]
    show ?thesis
      unfolding x prod.case append_Nil
      by (rule leads_start, rule leads_step [OF learns_basic(4) kept1], rule leads_step [OF learns_manifest_said kept1],
          rule leads_bindE [OF leads_pre [OF leads_adjust] final], erule knows_weaken) auto
  qed
  have quiet: "learns (\<lambda>_ _. True) (require_branch t (recorded_os os') root v)"
    by (intro learns_nothing quiet_record.git_state_keeps)
  show ?thesis
    unfolding prepare_release_def update_order_def [symmetric]
    by (rule leads_step [OF learns_version unedited_lasts], rule leads_step [OF learns_basic(3) unedited_lasts],
        rule leads_step [OF quiet unedited_lasts], rule leads_step [OF learns_tip unedited_lasts],
        rule leads_step [OF learns_release_plz unedited_lasts], rule leads_step [OF learns_manifest_said unedited_lasts],
        rule leads_bindE [OF leads_order rest])
      (auto simp: knows_def preparation_ready_def first_seen_all validate_selected_release_version_def
        validate_release_version_def res_simps intro: evidence_mono split: if_splits)
qed

section \<open>The commands\<close>

lemma sole_commit_mono: "sole_release_commit root l D \<Longrightarrow> D \<subseteq> E \<Longrightarrow> sole_release_commit root l E"
  using transaction_more(2) [of root l D E] by (simp add: Un_absorb1)

lemma leads_check:
  "leads (permitted t root (Check base v)) (knows (\<lambda>l. edits l = []) (line_chosen root base line))
     (check t (recorded_os os') root v line) (\<lambda>_. completed t root (Check base v))"
proof (rule leads_last [OF learns_check unedited_lasts])
  fix x :: unit and l D
  assume none: "edits l = []" and D: "D \<subseteq> since_edit l" and known: "\<exists>D1 D2. D = D1 \<union> D2 \<and> line_chosen root base line D1 \<and>
    admits line v \<and> v_build v = [] \<and> v_pre v \<noteq> ''rc.0'' \<and> sole_release_commit root line D2 \<and> release_content t root v D2"
  have "D \<subseteq> set l" using D since_edit_subset by blast
  with none known show "completed t root (Check base v) l"
    by (auto intro: evidence_mono sole_commit_mono content_mono)
qed

lemma leads_release_run:
  "leads (permitted t root cmd) (\<lambda>l. edits l = []) (release_run t (recorded_os os') root cmd)
     (\<lambda>_. completed t root cmd)"
proof -
  have line: "leads J (\<lambda>l. edits l = []) (resolve (recorded_os os') root base)
      (\<lambda>line. knows (\<lambda>l. edits l = []) (line_chosen root base line))" for J base
    by (rule leads_weaken [OF leads_learns [OF learns_line unedited_lasts]]) (auto simp: knows_def)
  show ?thesis
    by (cases cmd) (simp_all only: release_run.simps leads_activate leads_bindE [OF line leads_prepare]
        leads_bindE [OF line leads_check])
qed

lemma release_run_recorded:
  assumes "release_run t (recorded_os os') root cmd (w, []) = (r, (w', log))"
  shows "granted (permitted t root cmd) log" and "r = Inr x \<Longrightarrow> completed t root cmd log"
  using leads_release_run [of t root cmd os', unfolded leads_def, rule_format, OF assms] by (auto split: sum.splits)

text \<open>
  C9: a release command edits the checkout only as it may. Whatever the repository, the files and the
  tools answer, also when the command fails: \<open>activate\<close> replaces \<open>Cargo.toml\<close>, a regular file that states
  the current version, step by step by a synced file that differs in the version only, after it found
  the checkout clean, on the branch of the target, at the tip of protected main, and the selected version
  to be the advancing \<open>rc.0\<close> of the target; \<open>prepare\<close> runs \<open>release-plz update\<close> once, after it found the
  version admitted on the line, the checkout clean at the line's tip and \<open>release-plz\<close> of the pinned version,
  and then at most \<open>release-plz set-version\<close> for the selected version, if the version derived by the update may be adjusted
  to it and only release paths changed; \<open>check\<close> edits nothing.
\<close>

theorem release_edits_permitted:
  "case release_run t (recorded_os os') root cmd (w, []) of (r, (w', log)) \<Rightarrow> granted (permitted t root cmd) log"
  by (cases "release_run t (recorded_os os') root cmd (w, [])")
    (auto intro: release_run_recorded(1))

text \<open>
  C10: a release command that succeeds left what it claims. After \<open>activate\<close>, all steps of the
  replacement succeeded, only \<open>Cargo.toml\<close> differs from HEAD, and it states the selected version. After
  \<open>prepare\<close>, the update, and the adjustment where one was made, succeeded; since then HEAD was still the
  line's tip, exactly the release paths differ from it, the manifest states the selected version and the
  changelog has one heading for it. After \<open>check\<close>, the version is of the line and of a release, the
  checkout is clean, HEAD is a single commit on the line's tip with an SSH signature and the sign-off that
  changes exactly the release paths, and manifest and changelog have the version.
\<close>

theorem release_completed:
  "case release_run t (recorded_os os') root cmd (w, []) of (r, (w', log)) \<Rightarrow> (case r of
      Inl _ \<Rightarrow> True
    | Inr _ \<Rightarrow> completed t root cmd log)"
  by (cases "release_run t (recorded_os os') root cmd (w, [])")
    (auto dest: release_run_recorded(2) split: sum.split)

end
