(* ===== verification/ManifestReads.thy ===== *)
theory ManifestReads
  imports Recorded Subprocesses SafeFile
begin

text \<open>
  The commands on top of the safe file reads: a machine whose manifests are read by \<open>safe_file.rs\<close>, and
  what every command of the program can have read on it.
\<close>

definition files_os :: "('w, 'h) file_system \<Rightarrow> 'w os \<Rightarrow> 'w os" where
  "files_os fs os' = os'\<lparr>os_read_manifest := \<lambda>root path. map_errE ie_text (read_manifest fs root path)\<rparr>"

text \<open>
  A text that was read is the contents of a regular file within the limit, found from an opened root
  through directories only, along plain names.
\<close>

fun read_safely :: "('w, 'h) file_system \<Rightarrow> ('h \<Rightarrow> node) \<Rightarrow> os_answer \<Rightarrow> bool" where
  "read_safely fs node (ReadFile root path (Inr body)) \<longleftrightarrow>
     (\<exists>h w w' cs bytes. root_open fs root w = (Inr h, w') \<and> relative_components path = Inr cs \<and>
        list_all safe_name cs \<and> descend (node h) cs = Some (Regular bytes) \<and>
        length bytes \<le> MANIFEST_LIMIT \<and> from_utf8 bytes = Inr body)"
| "read_safely fs node _ \<longleftrightarrow> True"

lemma manifest_read_safely:
  assumes "descends fs node" and "read_manifest fs root path w = (Inr body, w')"
  shows "read_safely fs node (ReadFile root path (Inr body))"
proof -
  from assms(2) obtain h w1 where h: "root_open fs root w = (Inr h, w1)"
    and "read_utf8 fs h path MANIFEST_LIMIT w1 = (Inr body, w')"
    unfolding read_manifest_def by (rule bindE_InrE)
  then have "fst (read_text relative_components (open_component fs) (fs_read fs) h path MANIFEST_LIMIT w1) = Inr body"
    by (simp add: read_utf8_def)
  with h unix_tree.read_iff [OF unix_tree.intro [OF assms(1)], of relative_components path h MANIFEST_LIMIT w1 body]
  show ?thesis by (auto dest: relative_components_Inr)
qed

interpretation files: xtask_machine "recorded_os (files_os fs os')" "\<lambda>_. True"
    "\<lambda>s. descends fs node \<and> grown (read_safely fs node) l s" "beside_shell sh" for fs os' node l sh
proof unfold_locales
  fix root path
  show "keeps (\<lambda>s. descends fs node \<and> grown (read_safely fs node) l s)
      (os_read_manifest (recorded_os (files_os fs os')) root path)"
    by (auto simp: recorded_fields recordE_def keeps_def grown_def files_os_def map_errE_def map_err_def
        simp del: read_safely.simps(1) split: prod.splits sum.splits intro: manifest_read_safely)
qed (auto simp: recorded_os_def files_os_def beside_os_def beside_shell_def keeps_def beside_def grown_def
    recordE_def split: prod.split)


end
