(* ===== verification/ReleaseFixtures.thy ===== *)
theory ReleaseFixtures
  imports ReleaseEdits ManifestReads Fixtures
begin

text \<open>
  Runs of the release commands on a simulated checkout, whose state says whether it was edited: it begins
  clean at the tip with version 0.6.0; an edit leaves the given version and paths behind.
\<close>

definition checkout_os :: "string \<Rightarrow> string \<Rightarrow> string \<Rightarrow> bool os" where
  "checkout_os branch after paths = (scripted_os (\<lambda>_. None) (\<lambda>_. None) (\<lambda>_. None))
     \<lparr>os_output := (\<lambda>c input limits w. os_output (scripted_os (script_of
          [([''git'', ''symbolic-ref'', ''--short'', ''HEAD''], branch @ nl),
           ([''git'', ''symbolic-ref'', ''--quiet'', ''HEAD''], ''refs/heads/main'' @ nl),
           ([''git'', ''rev-parse'', ''HEAD''], ''0f'' @ nl),
           ([''git'', ''rev-parse'', tracking_ref Main], ''0f'' @ nl),
           ([''git'', ''status'', ''--porcelain''], if w then '' M Cargo.toml'' @ nl else nl),
           ([''git'', ''diff'', ''--name-only'', ''--no-renames'', ''-z'', ''HEAD''], if w then paths else []),
           ([''git'', ''diff'', ''--name-only'', ''--no-renames'', ''-z'', tracking_ref Main], if w then paths else []),
           ([''git'', ''ls-files'', ''--others'', ''--exclude-standard'', ''-z''], []),
           ([''release-plz'', ''--version''], ''release-plz '' @ RELEASE_PLZ_VERSION @ nl),
           ([''cargo'', ''metadata'', ''--no-deps'', ''--format-version'', ''1''], ''{}'')])
          (\<lambda>_. None) (\<lambda>_. None)) c input limits w),
      os_read_manifest := (\<lambda>root p w. (case p of
          CHR ''C'' # CHR ''a'' # _ \<Rightarrow> Inr (if w then after else ''0.6.0'')
        | CHR ''C'' # CHR ''H'' # _ \<Rightarrow> Inr (''## ['' @ after @ '']'' @ nl)
        | _ \<Rightarrow> Inr ''config'', w)),
      os_status := (\<lambda>c w. (Inr (True, ''exit status: 0''), True)),
      os_temp_new := (\<lambda>p w. (Inr (p @ ''/.tmp1''), w)),
      os_temp_persist := (\<lambda>p q w. (Inr (), True))\<rparr>"

definition nul_path :: "string \<Rightarrow> string" where
  "nul_path p = p @ [CHR 0x00]"

text \<open>An activation makes all five steps; a preparation runs the update only, or the adjustment too.\<close>

lemma activation_example:
  "case release_run example_tools (recorded_os (checkout_os (ACTIVATION_BRANCH_PREFIX @ ''0.7.0'') ''0.7.0-rc.0''
       (nul_path ''Cargo.toml''))) ''/r'' (Activate (release_version 0 7 0)) (False, []) of (r, (w, log)) \<Rightarrow>
     r = Inr () \<and> edits log = replacement ''/r'' ''/r/Cargo.toml'' 420 (as_bytes ''0.7.0-rc.0'') ''/r/.tmp1''"
  by code_simp

lemma preparation_example:
  "case release_run example_tools (recorded_os (checkout_os (BRANCH_PREFIX @ ''0.7.0'') ''0.7.0''
       (concat (map nul_path RELEASE_SOURCE_PATHS)))) ''/r'' (Prepare None (release_version 0 7 0)) (False, [])
   of (r, (w, log)) \<Rightarrow> r = Inr () \<and> updated ''/r'' (edits log)"
proof -
  have "case release_run example_tools (recorded_os (checkout_os (BRANCH_PREFIX @ ''0.7.0'') ''0.7.0''
       (concat (map nul_path RELEASE_SOURCE_PATHS)))) ''/r'' (Prepare None (release_version 0 7 0)) (False, [])
   of (r, (w, log)) \<Rightarrow> r = Inr () \<and> edits log = [Ordered (update_order ''/r'') (Inr (True, ''exit status: 0''))]"
    by code_simp
  then show ?thesis by (auto simp: updated_def)
qed

text \<open>On another branch nothing is edited.\<close>

lemma refused_example:
  "case release_run example_tools (recorded_os (checkout_os ''topic'' ''0.7.0'' [])) ''/r''
     (Prepare None (release_version 0 7 0)) (False, []) of (r, (w, log)) \<Rightarrow> \<not> is_ok r \<and> edits log = []"
  by code_simp

text \<open>An activation that reads its manifest from a tree of files, and stops where \<open>git\<close> fails.\<close>

definition manifest_tree :: node where
  "manifest_tree = Directory [(''Cargo.toml'', Regular (as_bytes ''0.6.0''))]"

definition files_machine :: "(unit \<times> os_answer list) os" where
  "files_machine = recorded_os (files_os (tree_file_system manifest_tree) (scripted_os (\<lambda>_. None) (\<lambda>_. None) (\<lambda>_. None)))"

lemma example_manifest_read:
  "take 1 (snd (snd (release_run example_tools files_machine ''/r'' (Activate (release_version 0 7 0)) ((), [])))) =
     [ReadFile ''/r'' ''Cargo.toml'' (Inr ''0.6.0'')]"
  by code_simp

lemma files_print: "snd (os_print files_machine s w) = snd w"
  by (cases w) (simp add: files_machine_def recorded_os_def beside_os_def)


end
