(* ===== verification/Spec2Isabelle.thy ===== *)
theory Spec2Isabelle
  imports Contract ProgramFixtures Fixtures WindowsFixtures WindowsFile Opener CheckFixtures ArchiveInventory ProvenanceSafety QualifyEvidence ReleaseFixtures
begin

text \<open>
  Verification of the \<open>yaml-sigil-traits\<close> repository: the \<open>v1alpha1\<close> trait crate under \<open>src/\<close> and its
  release and maintenance tooling under \<open>xtask/\<close>. Paths below are relative to the repository.

  \<^bold>\<open>The program.\<close> The crate declares the contract of YAML signatures: algorithms, capabilities, and the
  traits of signers, verifiers and transcribers. \<open>xtask\<close> is one binary (\<open>xtask/src/lib.rs\<close>) whose commands
  run checks, generate coverage, validate package contents, prepare a release in a checkout, and on GitHub
  qualify a release, await its publication on crates.io and reconcile its annotated tag and immutable
  Release. All commands start subprocesses through one supervisor (\<open>bounded_process.rs\<close>) and read files of
  a checkout through one guard against symbolic links (\<open>safe_file.rs\<close>). GitHub is reached by \<open>gh\<close>
  (\<open>github/transport.rs\<close>), crates.io by \<open>curl\<close> (\<open>crate_archive.rs\<close>), the repository by \<open>git\<close>.

  \<^bold>\<open>The style of the model.\<close> An operation that touches the world is an effect \<open>'w \<Rightarrow> (error + 'a) \<times> 'w\<close>
  (\<open>Prelude\<close>), composed by \<open>bindE\<close> as \<open>?\<close> composes results; pure fallible code is \<open>error + 'a\<close>. The
  state \<open>'w\<close> is everything outside the program and stays abstract: it is reached through records of
  operations, \<open>os\<close> (\<open>Runtime\<close>), \<open>transport\<close>, \<open>registry\<close>, \<open>shell\<close>, \<open>kernel\<close>, \<open>windows_kernel\<close>, \<open>file_system\<close> and
  \<open>windows_files\<close>, so a theorem that quantifies over them holds whatever GitHub, the registry, the machine and other
  processes answer, in whatever order. Strings are lists of UTF-8 octets, machine integers are words with
  the checked and wrapping operations the code uses, maps that are iterated are sorted association lists.

  \<^bold>\<open>Theories and sources.\<close>

  Foundations. \<open>Prelude\<close>: results, effects, integers, strings and bytes. \<open>Text\<close>: UTF-8, lines, trimming,
  hexadecimal digits. \<open>Wide\<close>: UTF-16 for Windows calls. \<open>Runtime\<close>: commands, the \<open>os\<close> record, logs of
  subprocesses. \<open>Machine\<close>: what an effect keeps of the world, the locales \<open>reading_machine\<close> and \<open>machine\<close> of
  an operating system under a predicate on subprocesses. \<open>Loops\<close>: effects that may not return, Hoare triples, loop rules.
  \<open>Clocks\<close>: monotonic clocks and progress.

  The crate. \<open>Contract\<close>: \<open>src/algorithm.rs\<close>, \<open>conformance.rs\<close>, \<open>signing.rs\<close>, \<open>transcription.rs\<close>,
  \<open>verification.rs\<close>; a trait is a record of its methods.

  Release preparation. \<open>Semver\<close>: the public structure of the \<open>semver\<close> crate and its laws. \<open>ReleasePolicy\<close>:
  \<open>release_policy.rs\<close>. \<open>ReleaseBase\<close>: \<open>release_base.rs\<close>. \<open>Workspace\<close>: \<open>cargo_metadata_output.rs\<close> and the
  readers of \<open>release.rs\<close>. \<open>PackageContent\<close>: \<open>package_content.rs\<close>, \<open>package_content_policy.rs\<close>. \<open>Release\<close>:
  \<open>release.rs\<close>, and the locales \<open>listing_machine\<close>, \<open>source_machine\<close> and \<open>release_machine\<close>. \<open>Recorded\<close>: a
  machine that records answers and edits, and triples on its record. \<open>ReleaseChecked\<close>: what a successful
  check has seen. \<open>ReleaseEdits\<close>: what each command edits, and after what evidence.

  Archives and the registry. \<open>CratesIo\<close> and \<open>CrateArchive\<close>: \<open>crate_archive.rs\<close>, the client with its response
  budget, and the inspection of the downloaded archive. \<open>ArchiveInventory\<close>: its inventory digest, which
  determines the files up to collisions of their bodies.

  GitHub. \<open>Transport\<close>: \<open>github/transport.rs\<close>. \<open>GithubPayloads\<close>, \<open>ReleaseEvidence\<close>, \<open>Finalize\<close>, \<open>Qualify\<close>,
  \<open>GithubRun\<close>: \<open>github.rs\<close>, its policy and payloads, the checks of evidence, the finalizer, the
  qualification, and the command. \<open>LatestGuard\<close>: \<open>github/latest.rs\<close>. \<open>Support\<close>: \<open>github/support.rs\<close>.
  \<open>Provenance\<close>: \<open>github/provenance.rs\<close>. \<open>Traffic\<close>: logs of exchanges with GitHub, the locales
  \<open>observed_transport\<close> and \<open>observed_world\<close>, and rules for what an operation read and wrote.
  \<open>FinalizeSafety\<close>, \<open>FinalizeResult\<close>, \<open>ProvenanceSafety\<close>, \<open>QualifySafety\<close>, \<open>QualifyEvidence\<close>: the theorems
  on these logs.

  The supervisor. \<open>BoundedProcess\<close>, \<open>UnixProcess\<close>, \<open>WindowsProcess\<close>: \<open>bounded_process.rs\<close> on Linux, on other
  Unix systems and on Windows. \<open>Supervision\<close>, \<open>SupervisionEnds\<close>, \<open>Retention\<close>, \<open>WindowsSafety\<close>,
  \<open>WindowsEnds\<close>: what a call guarantees, that it ends, and what memory it holds.

  Files. \<open>SafeFile\<close> and \<open>WindowsFile\<close>: \<open>safe_file.rs\<close> on Unix and on Windows, over the locale \<open>no_follow\<close> of
  opening one component without following links.

  Commands. \<open>Checks\<close>: \<open>ci.rs\<close>, \<open>process.rs\<close>, \<open>features.rs\<close>, and the locale \<open>shell_machine\<close>. \<open>Coverage\<close>,
  \<open>Opener\<close>: \<open>coverage.rs\<close>. \<open>Tasks\<close>: \<open>lib.rs\<close>. \<open>Frames\<close>: what every component keeps of the machine it runs
  on, up to the whole program. \<open>Subprocesses\<close>: the commands on top of the supervisor. \<open>ManifestReads\<close>:
  the commands on top of the safe file reads.

  Witnesses. \<open>Fixtures\<close> (a simulated GitHub), \<open>ProcessFixtures\<close>, \<open>WindowsFixtures\<close>, \<open>CheckFixtures\<close>,
  \<open>ReleaseFixtures\<close>, \<open>ProgramFixtures\<close>: concrete worlds on which the theorems with hypotheses are applied and evaluated.
\<close>

text \<open>
  \<^bold>\<open>What the theorems show.\<close> Each theorem that states a property of the program follows a text with its
  number and its meaning; the lemmas before it in its theory are what it needs.

  Publication (\<open>FinalizeSafety\<close>, \<open>FinalizeResult\<close>, \<open>LatestGuard\<close>, \<open>QualifyEvidence\<close>, \<open>QualifySafety\<close>,
  \<open>ProvenanceSafety\<close>, \<open>Subprocesses\<close>). The finalizer writes at most the tag object, its ref and the Release,
  in this order, each after it was read as absent and protected main as the executing policy; when it
  succeeds, what it leaves was read back exact; the Latest mark never moves backwards. No other command
  mutates GitHub. A release is qualified only on evidence that was read, in the state its mode asks for,
  without writing. A binding of a source to protected history is verified by reads made now. The wait for
  the registry polls as often as it says. On a support line the versions increase without gaps
  (\<open>ReleasePolicy\<close>), and a line opens only on its newest stable release (\<open>Support\<close>).

  Containment (\<open>Frames\<close>, \<open>Subprocesses\<close> for the program; \<open>Supervision\<close>, \<open>SupervisionEnds\<close>, \<open>Retention\<close>,
  \<open>UnixProcess\<close>, \<open>WindowsSafety\<close>, \<open>WindowsEnds\<close> for one call). On a live machine every bounded subprocess
  of every command has one of six trusted forms, returns, ends its process group and leaves the caller's
  process attributes as they were; its result is exact and its memory bounded while it runs. Release
  commands run no command that publishes (\<open>Release\<close>); the fetch of history is anonymous (\<open>Provenance\<close>).

  Inputs. A safe read gives exactly what a lookup without links finds (\<open>SafeFile\<close>, \<open>WindowsFile\<close>), and on a
  machine with such reads every manifest of every command is one (\<open>ManifestReads\<close>). An
  archive that passes inspection is canonical and bounded, and bound to the registry's checksum and the
  source commit (\<open>CrateArchive\<close>); responses stay within their budget (\<open>CratesIo\<close>). Parsers accept exactly
  the canonical forms (\<open>PackageContent\<close>, \<open>ReleasePolicy\<close>, \<open>Contract\<close>), values cannot escape their place in
  a request and requests are retried only when they read (\<open>Transport\<close>), policy blobs and inventories are
  what \<open>git\<close> recorded (\<open>Support\<close>, \<open>Provenance\<close>).

  Maintenance. Checks run in order and stop at the first failure (\<open>Checks\<close>), a shown report is fresh
  (\<open>Coverage\<close>), the Windows opener receives the path as data (\<open>Opener\<close>); an adjusted version only moves
  forward (\<open>Release\<close>); a release command edits a checkout only after it was told what it requires, and one
  that succeeds left exactly what it claims (\<open>ReleaseEdits\<close>).

  \<^bold>\<open>Bounds and termination.\<close> There is no fuel. Loops over a fixed range (3 read attempts, 60 registry polls)
  are recursions over the range. The supervision loops have no bound of their own: they are \<open>loopP\<close>, a
  \<open>partial_function\<close> whose value is \<open>None\<close> when the code does not return, and \<open>SupervisionEnds\<close> and \<open>WindowsEnds\<close> show that
  they return on machines that satisfy \<open>live_kernel\<close> or \<open>live_windows\<close>: the clock does not run backwards, sleeping
  takes its time, and a child is found running only finitely often. The constants are those of the sources
  (32 MiB of registry responses, 4 MiB of validation output, 256 policy paths, 100 pull requests, and so on).

  \<^bold>\<open>What is assumed.\<close> Third-party code is a parameter: \<open>semver\<close> (parsing, printing and precedence, with the
  laws of the locale \<open>semver_laws\<close> where a theorem needs them), \<open>serde_json\<close>, \<open>toml_edit\<close>, \<open>cargo_metadata\<close>,
  \<open>flate2\<close>, \<open>tar\<close> and \<open>sha2\<close> (the fields of \<open>release_tools\<close>, \<open>archive_tools\<close>, \<open>json_tools\<close> and \<open>serde\<close>), and
  the system calls of \<open>rustix\<close> and \<open>windows-sys\<close>. Where a theorem needs what a call means, it says so in a
  hypothesis or a locale that the fixtures instantiate.

  \<^bold>\<open>Not modelled.\<close> Tests and their support (the metadata builder of \<open>cargo_metadata_output.rs\<close>, the
  second list of packages in \<open>release_policy.rs\<close>); the declarations from which \<open>clap\<close> derives the
  command line, whose parsed values are the datatypes of the commands; derived deserializers, whose
  decoders are fields of \<open>serde\<close>; the shell and Python scripts and the workflows. \<open>src/lib.rs\<close> and
  \<open>xtask/src/main.rs\<close> only re-export and call. Time is a natural number of nanoseconds, and the text of an
  operating-system error is the string the system gives it.
\<close>

end
